(* ===== verification/Prelude.thy ===== *)
theory Prelude
  imports Complex_Main "HOL-Library.Sublist"
begin

text \<open>
  Shared vocabulary of the model of \<^verbatim>\<open>src/server.js\<close>: the error values the
  handlers raise or return, the type of JavaScript numbers used as page indices, the
  collection of model equations that concrete requests are evaluated with, and the
  generic lemmas on lists and integer ranges that the component theories share.
\<close>

named_theorems model_eval
  "equations of the model unfolded when a concrete request is evaluated"

named_theorems slice_simps
  "rewrites of index ranges into slices of the page list"

text \<open>
  A JavaScript number produced by \<^verbatim>\<open>parseInt\<close> is an integer or \<^verbatim>\<open>NaN\<close>;
  it is modelled as \<^typ>\<open>int option\<close> with \<^term>\<open>None\<close> for \<^verbatim>\<open>NaN\<close>.
  Page indices handed to the document library are numbers, so they are \<^typ>\<open>int\<close>:
  a negative index is representable, as it is in the code.
\<close>

type_synonym js_int = "int option"

text \<open>
  How a request fails. \<^verbatim>\<open>Bad_request\<close> is an early \<^verbatim>\<open>res.status(400)\<close> return
  with its message; \<^verbatim>\<open>Type_error\<close> is the exception thrown when the document
  library is asked to copy a page index that does not exist (reading \<^verbatim>\<open>.node\<close> of
  \<^verbatim>\<open>undefined\<close>); \<^verbatim>\<open>Format_error\<close> is the exception of \<^verbatim>\<open>PDFDocument.load\<close>
  on bytes that are not a PDF; \<^verbatim>\<open>Io_error\<close> is the rejection of a file system call,
  with its code (\<^verbatim>\<open>ENOENT\<close>); \<^verbatim>\<open>Library_error\<close> is an exception of the
  image library with its message (a bad parameter, an input that is not an image, an
  output format it cannot write). Exceptions are caught by the handler and answered
  with status 500.
\<close>

datatype error =
    Bad_request string
  | Type_error int
  | Format_error
  | Io_error string
  | Library_error string

type_synonym 'a result = "error + 'a"

subsection \<open>Integer ranges and slices\<close>

lemma map_nat_upto:
  "0 \<le> a \<Longrightarrow> map nat [a..b] = [nat a..<nat (b + 1)]"
proof (induction a b rule: upto.induct)
  case (1 a b)
  show ?case
  proof (cases "a \<le> b")
    case True
    with "1" have "map nat [a + 1..b] = [nat (a + 1)..<nat (b + 1)]"
      by simp
    moreover have "[nat a..<nat (b + 1)] = nat a # [nat (a + 1)..<nat (b + 1)]"
      using True "1.prems" by (simp add: upt_conv_Cons nat_add_distrib del: upt.simps)
    ultimately show ?thesis
      using True by (simp add: upto_rec1)
  next
    case False
    then show ?thesis by simp
  qed
qed

lemma map_nth_upt_slice [slice_simps]:
  "b \<le> length xs \<Longrightarrow> map ((!) xs) [a..<b] = take (b - a) (drop a xs)"
proof (induction b)
  case 0
  then show ?case by simp
next
  case (Suc b)
  then show ?case
    by (cases "a \<le> b") (auto simp: take_Suc_conv_app_nth Suc_diff_le)
qed

lemma upto_shift:
  "map (\<lambda>i. i + c) [a..b] = [a + c..b + c]"
proof (induction a b rule: upto.induct)
  case (1 a b)
  then show ?case
    by (cases "a \<le> b") (simp_all add: upto_rec1 algebra_simps)
qed

lemma filter_le_upto:
  "filter (\<lambda>i. i \<le> k) [a..b] = [a..min b k]"
proof (induction a b rule: upto.induct)
  case (1 a b)
  show ?case
  proof (cases "a \<le> b")
    case True
    then show ?thesis
      using "1" by (cases "a \<le> k") (simp_all add: upto_rec1 [of a b] upto_rec1 [of a "min b k"])
  next
    case False
    then show ?thesis by simp
  qed
qed

subsection \<open>Loops that stop at the first exception\<close>

text \<open>
  A loop that runs a throwing body on each element in turn and collects the results,
  abandoning the rest at the first exception. The handlers' \<^verbatim>\<open>for\<close> loops are
  defined on their own in the component theories and shown equal to it.
\<close>

fun map_result :: "('a \<Rightarrow> 'b result) \<Rightarrow> 'a list \<Rightarrow> 'b list result" where
  "map_result f [] = Inr []"
| "map_result f (x # xs) =
     (case f x of
        Inl e \<Rightarrow> Inl e
      | Inr y \<Rightarrow> (case map_result f xs of Inl e \<Rightarrow> Inl e | Inr ys \<Rightarrow> Inr (y # ys)))"

lemma map_result_Inr_length: "map_result f xs = Inr ys \<Longrightarrow> length ys = length xs"
  by (induction xs arbitrary: ys) (auto split: sum.splits)

lemma map_result_Inr_nth:
  "map_result f xs = Inr ys \<Longrightarrow> i < length xs \<Longrightarrow> f (xs ! i) = Inr (ys ! i)"
proof (induction xs arbitrary: ys i)
  case Nil
  then show ?case by simp
next
  case (Cons x xs)
  then show ?case
    by (cases i) (auto split: sum.splits)
qed

lemma map_result_Inr_set:
  "map_result f xs = Inr ys \<Longrightarrow> y \<in> set ys \<Longrightarrow> \<exists>x \<in> set xs. f x = Inr y"
  by (induction xs arbitrary: ys) (auto split: sum.splits)

lemma map_result_Inl: "map_result f xs = Inl e \<Longrightarrow> \<exists>x \<in> set xs. f x = Inl e"
  by (induction xs) (auto split: sum.splits)

lemma map_result_all_Inr:
  "\<forall>x \<in> set xs. f x = Inr (g x) \<Longrightarrow> map_result f xs = Inr (map g xs)"
  by (induction xs) auto

lemma map_result_Inr_iff:
  "(\<exists>ys. map_result f xs = Inr ys) \<longleftrightarrow> (\<forall>x \<in> set xs. \<exists>y. f x = Inr y)"
  by (induction xs) (auto split: sum.splits)

lemmas map_result_facts =
  map_result_Inr_length map_result_Inr_nth map_result_Inr_set map_result_Inl

subsection \<open>Selections of pages\<close>

text \<open>Reading strictly increasing valid indices selects a subsequence.\<close>

lemma subseq_map_nth:
  "sorted_wrt (<) is \<Longrightarrow> \<forall>i \<in> set is. i < length xs \<Longrightarrow> subseq (map ((!) xs) is) xs"
proof (induction xs arbitrary: "is")
  case Nil
  then show ?case by (cases "is") auto
next
  case (Cons x xs)
  show ?case
  proof (cases "is")
    case Nil
    then show ?thesis by simp
  next
    case (Cons i js)
    have pos: "\<forall>j \<in> set js. 0 < j" and sj: "sorted_wrt (<) js"
      using Cons.prems(1) \<open>is = i # js\<close> by auto
    have dec: "sorted_wrt (<) (map (\<lambda>j. j - 1) ks)"
      if "sorted_wrt (<) ks" "\<forall>j \<in> set ks. 0 < j" for ks :: "nat list"
      unfolding sorted_wrt_map
      by (rule sorted_wrt_mono_rel [OF _ that(1)]) (use that(2) in auto)
    have shift: "map ((!) (x # xs)) js = map ((!) xs) (map (\<lambda>j. j - 1) js)"
      using pos by (auto simp: nth_Cons')
    have IH1: "subseq (map ((!) xs) (map (\<lambda>j. j - 1) js)) xs"
      using Cons.prems pos sj \<open>is = i # js\<close> dec [OF sj pos]
      by (intro Cons.IH) auto
    show ?thesis
    proof (cases "i = 0")
      case True
      have "map ((!) (x # xs)) is = x # map ((!) xs) (map (\<lambda>j. j - 1) js)"
        using True \<open>is = i # js\<close> shift by simp
      then show ?thesis
        using IH1 by (simp only: subseq_Cons2)
    next
      case False
      then have "\<forall>j \<in> set is. 0 < j" using pos \<open>is = i # js\<close> by auto
      then have "map ((!) (x # xs)) is = map ((!) xs) (map (\<lambda>j. j - 1) is)"
        by (auto simp: nth_Cons')
      moreover have "subseq (map ((!) xs) (map (\<lambda>j. j - 1) is)) xs"
        using Cons.prems \<open>\<forall>j \<in> set is. 0 < j\<close> dec [OF Cons.prems(1)]
        by (intro Cons.IH) auto
      ultimately have "subseq (map ((!) (x # xs)) is) xs"
        by (simp only:)
      then show ?thesis
        by (rule list_emb_Cons)
    qed
  qed
qed

lemma map_nth_upto_slice [slice_simps]:
  "0 \<le> a \<Longrightarrow> c < int (length xs) \<Longrightarrow>
   map (\<lambda>i. xs ! nat i) [a..c] = take (nat (c + 1) - nat a) (drop (nat a) xs)"
proof -
  assume a: "0 \<le> a" and c: "c < int (length xs)"
  have "map (\<lambda>i. xs ! nat i) [a..c] = map ((!) xs) (map nat [a..c])"
    by simp
  also have "\<dots> = map ((!) xs) [nat a..<nat (c + 1)]"
    using a by (simp only: map_nat_upto)
  also have "\<dots> = take (nat (c + 1) - nat a) (drop (nat a) xs)"
    using c by (intro map_nth_upt_slice) auto
  finally show ?thesis .
qed

subsection \<open>Chunks\<close>

lemma concat_chunks:
  "concat (map (\<lambda>j. take k (drop (j * k) xs)) [0..<n]) = take (n * k) xs"
proof (induction n)
  case 0
  then show ?case by simp
next
  case (Suc n)
  have "take (Suc n * k) xs = take (n * k) xs @ take k (drop (n * k) xs)"
    by (metis add.commute mult_Suc take_add)
  then show ?case
    using Suc by simp
qed

lemma take_min_drop:
  "length xs = n \<Longrightarrow> take (min (a + k) n - a) (drop a xs) = take k (drop a xs)"
  by (simp add: min_def)

end
