(* ===== verification/JS_Builtins.thy ===== *)
theory JS_Builtins
  imports Prelude
begin

text \<open>
  The JavaScript built-ins that \<^verbatim>\<open>src/server.js\<close> applies to request fields:
  \<^verbatim>\<open>String.prototype.split\<close> with a one-character separator,
  \<^verbatim>\<open>String.prototype.trim\<close>, \<^verbatim>\<open>String.prototype.includes\<close>, the global
  \<^verbatim>\<open>parseInt\<close> with no radix, \<^verbatim>\<open>Math.ceil\<close> of a quotient, and the decimal
  printing of a number in a template literal. They follow the ECMAScript definitions;
  strings are sequences of 8-bit code units (the Latin-1 range of JavaScript's UTF-16
  code units). Lemmas: the split/join round trip, the parse/print round trip for
  decimal numerals, and the closed forms used by the page-range engine.
\<close>

subsection \<open>Whitespace and trimming\<close>

text \<open>
  \<^verbatim>\<open>WhiteSpace\<close> and \<^verbatim>\<open>LineTerminator\<close> code units of ECMAScript in the
  Latin-1 range: TAB, LF, VT, FF, CR, SPACE and NO-BREAK SPACE.
\<close>

definition js_ws :: "char \<Rightarrow> bool" where
  "js_ws c \<longleftrightarrow> of_char c \<in> {9, 10, 11, 12, 13, 32, 160 :: nat}"

text \<open>\<^verbatim>\<open>s.trim()\<close>: whitespace removed at both ends.\<close>

definition js_trim :: "string \<Rightarrow> string" where
  "js_trim s = rev (dropWhile js_ws (rev (dropWhile js_ws s)))"

text \<open>\<^verbatim>\<open>s.includes(c)\<close> for a one-character argument.\<close>

definition js_includes :: "string \<Rightarrow> char \<Rightarrow> bool" where
  "js_includes s c \<longleftrightarrow> c \<in> set s"

subsection \<open>Splitting and joining\<close>

text \<open>
  \<^verbatim>\<open>s.split(c)\<close>: the pieces between the occurrences of \<open>c\<close>; one piece more than
  there are occurrences, so the empty string splits into one empty piece.
\<close>

fun js_split :: "char \<Rightarrow> string \<Rightarrow> string list" where
  "js_split c [] = [[]]"
| "js_split c (x # xs) =
     (if x = c then [] # js_split c xs
      else (case js_split c xs of
              [] \<Rightarrow> [[x]]
            | w # ws \<Rightarrow> (x # w) # ws))"

text \<open>\<^verbatim>\<open>parts.join(c)\<close>.\<close>

fun js_join :: "char \<Rightarrow> string list \<Rightarrow> string" where
  "js_join c [] = []"
| "js_join c [w] = w"
| "js_join c (w # v # vs) = w @ c # js_join c (v # vs)"

lemma js_split_nonempty [simp]: "js_split c s \<noteq> []"
  by (induction s) (auto split: list.split)

lemma js_split_Cons [simp]:
  "js_split c (x # xs) =
     (if x = c then [] # js_split c xs
      else (x # hd (js_split c xs)) # tl (js_split c xs))"
  using js_split_nonempty [of c xs] by (cases "js_split c xs") auto

declare js_split.simps(2) [simp del]

lemma length_js_split: "length (js_split c s) = Suc (count_list s c)"
  by (induction s) auto

lemma js_split_pieces: "w \<in> set (js_split c s) \<Longrightarrow> c \<notin> set w"
proof (induction s arbitrary: w)
  case Nil
  then show ?case by simp
next
  case (Cons x xs)
  then show ?case
    using js_split_nonempty [of c xs]
    by (cases "js_split c xs") (auto split: if_splits)
qed

lemma js_join_Cons_head [simp]: "js_join c ((x # w) # ws) = x # js_join c (w # ws)"
  by (cases ws) auto

lemma js_join_js_split: "js_join c (js_split c s) = s"
proof (induction s)
  case Nil
  then show ?case by simp
next
  case (Cons x xs)
  have split: "js_split c xs = hd (js_split c xs) # tl (js_split c xs)"
    by simp
  show ?case
  proof (cases "x = c")
    case True
    with Cons split show ?thesis
      by (metis js_join.simps(3) js_split_Cons append_Nil)
  next
    case False
    with Cons split show ?thesis
      by (metis js_join_Cons_head js_split_Cons)
  qed
qed

lemma js_split_prepend:
  "c \<notin> set w \<Longrightarrow> js_split c (w @ c # s) = w # js_split c s"
  by (induction w) auto

lemma js_split_no_sep:
  "c \<notin> set w \<Longrightarrow> js_split c w = [w]"
  by (induction w) auto

lemma js_split_js_join:
  "ws \<noteq> [] \<Longrightarrow> \<forall>w \<in> set ws. c \<notin> set w \<Longrightarrow> js_split c (js_join c ws) = ws"
proof (induction ws rule: induct_list012)
  case 1
  then show ?case by simp
next
  case (2 w)
  then show ?case by (simp add: js_split_no_sep)
next
  case (3 w v vs)
  then show ?case by (simp add: js_split_prepend)
qed

subsection \<open>parseInt\<close>

text \<open>
  The value of a code unit as a digit in radices up to 36 (\<^verbatim>\<open>0-9\<close>, then
  \<^verbatim>\<open>a-z\<close> and \<^verbatim>\<open>A-Z\<close> from 10); 36 for any other code unit, which is a digit
  in no radix.
\<close>

definition js_digit_val :: "char \<Rightarrow> nat" where
  "js_digit_val c =
     (let n = of_char c :: nat in
      if 48 \<le> n \<and> n \<le> 57 then n - 48
      else if 97 \<le> n \<and> n \<le> 122 then n - 87
      else if 65 \<le> n \<and> n \<le> 90 then n - 55
      else 36)"

definition digits_value :: "nat \<Rightarrow> string \<Rightarrow> nat" where
  "digits_value R ds = foldl (\<lambda>acc d. acc * R + js_digit_val d) 0 ds"

text \<open>
  \<^verbatim>\<open>parseInt(s)\<close> (ECMAScript \<^verbatim>\<open>parseInt ( string, radix )\<close> with the radix
  undefined): leading whitespace is skipped, one sign is read, a \<^verbatim>\<open>0x\<close> or
  \<^verbatim>\<open>0X\<close> prefix switches to radix 16, and the longest prefix of digits of the radix
  is read; no digit gives \<^verbatim>\<open>NaN\<close>. Anything after the digits is ignored.
\<close>

text \<open>Steps 9 and 10 of the algorithm: the radix and the digits that follow.\<close>

definition js_radix_prefix :: "string \<Rightarrow> nat \<times> string" where
  "js_radix_prefix S =
     (case S of
        z # x # r \<Rightarrow>
          if z = CHR ''0'' \<and> (x = CHR ''x'' \<or> x = CHR ''X'') then (16, r) else (10, S)
      | _ \<Rightarrow> (10, S))"

definition js_parseInt :: "string \<Rightarrow> js_int" where
  "js_parseInt str =
     (let S = dropWhile js_ws str;
          sign = (case S of c # _ \<Rightarrow> if c = CHR ''-'' then -1 else 1 | [] \<Rightarrow> (1::int));
          S = (case S of c # r \<Rightarrow> if c = CHR ''+'' \<or> c = CHR ''-'' then r else S | [] \<Rightarrow> S);
          (R, S) = js_radix_prefix S;
          Z = takeWhile (\<lambda>c. js_digit_val c < R) S
      in if Z = [] then None else Some (sign * int (digits_value R Z)))"

subsection \<open>Decimal printing\<close>

text \<open>\<^verbatim>\<open>String(n)\<close> for a natural number \<open>n\<close>, as in \<^verbatim>\<open>`split-part${i + 1}`\<close>.\<close>

definition dec_digit :: "nat \<Rightarrow> char" where
  "dec_digit d = ''0123456789'' ! d"

fun dec_string :: "nat \<Rightarrow> string" where
  "dec_string n =
     (if n < 10 then [dec_digit n] else dec_string (n div 10) @ [dec_digit (n mod 10)])"

declare dec_string.simps [simp del]

definition is_dec_digit :: "char \<Rightarrow> bool" where
  "is_dec_digit c \<longleftrightarrow> 48 \<le> (of_char c :: nat) \<and> (of_char c :: nat) \<le> 57"

lemma of_char_dec_digit: "d < 10 \<Longrightarrow> (of_char (dec_digit d) :: nat) = 48 + d"
  by (simp add: dec_digit_def less_Suc_eq numeral_eq_Suc) (elim disjE; simp)

lemma js_digit_val_dec_digit [simp]: "d < 10 \<Longrightarrow> js_digit_val (dec_digit d) = d"
  by (simp add: js_digit_val_def of_char_dec_digit)

lemma is_dec_digit_dec_digit: "d < 10 \<Longrightarrow> is_dec_digit (dec_digit d)"
  by (simp add: is_dec_digit_def of_char_dec_digit)

lemma dec_string_digits: "c \<in> set (dec_string n) \<Longrightarrow> is_dec_digit c"
proof (induction n rule: dec_string.induct)
  case (1 n)
  then show ?case
    by (cases "n < 10") (auto simp: dec_string.simps [of n] is_dec_digit_dec_digit)
qed

lemma dec_string_nonempty [simp]: "dec_string n \<noteq> []"
  by (subst dec_string.simps) simp

lemma is_dec_digit_facts:
  assumes "is_dec_digit c"
  shows "\<not> js_ws c" and "js_digit_val c < 10" and "c \<noteq> CHR ''+''" and "c \<noteq> CHR ''-''"
    and "c \<noteq> CHR ''x''" and "c \<noteq> CHR ''X''"
  using assms by (auto simp: is_dec_digit_def js_ws_def js_digit_val_def)

lemma digits_value_snoc:
  "digits_value R (ds @ [d]) = digits_value R ds * R + js_digit_val d"
  by (simp add: digits_value_def)

lemma digits_value_dec_string: "digits_value 10 (dec_string n) = n"
proof (induction n rule: dec_string.induct)
  case (1 n)
  show ?case
  proof (cases "n < 10")
    case True
    then show ?thesis by (simp add: dec_string.simps [of n] digits_value_def)
  next
    case False
    with "1.IH" show ?thesis
      by (simp add: dec_string.simps [of n] digits_value_snoc)
  qed
qed

lemma js_parseInt_digits:
  assumes "ds \<noteq> []" and "\<forall>c \<in> set ds. is_dec_digit c"
  shows "js_parseInt ds = Some (int (digits_value 10 ds))"
proof -
  obtain c r where ds: "ds = c # r"
    using assms(1) by (cases ds) auto
  have c: "is_dec_digit c" and r: "\<forall>x \<in> set r. is_dec_digit x"
    using assms(2) ds by auto
  have tw: "takeWhile (\<lambda>c. js_digit_val c < 10) r = r"
    using r by (simp add: takeWhile_eq_all_conv is_dec_digit_facts)
  have pre: "js_radix_prefix (c # r) = (10, c # r)"
    using r c by (cases r) (auto simp: js_radix_prefix_def is_dec_digit_facts)
  show ?thesis
    using c by (simp add: js_parseInt_def ds pre tw is_dec_digit_facts)
qed

text \<open>Parsing a printed natural number gives it back.\<close>

lemma js_parseInt_dec_string [simp]: "js_parseInt (dec_string n) = Some (int n)"
  using js_parseInt_digits [of "dec_string n"]
  by (simp add: dec_string_digits digits_value_dec_string)

lemma js_trim_id: "\<forall>c \<in> set s. \<not> js_ws c \<Longrightarrow> js_trim s = s"
proof -
  assume "\<forall>c \<in> set s. \<not> js_ws c"
  then have "dropWhile js_ws s = s" and "dropWhile js_ws (rev s) = rev s"
    by (simp_all add: dropWhile_eq_self_iff hd_rev) (cases s rule: rev_cases; auto)+
  then show ?thesis by (simp add: js_trim_def)
qed

lemma js_trim_dec_string [simp]: "js_trim (dec_string n) = dec_string n"
  by (rule js_trim_id) (auto dest: dec_string_digits simp: is_dec_digit_facts)

lemma dec_string_no_sep:
  "c \<in> set (dec_string n) \<Longrightarrow> c \<noteq> CHR '','' \<and> c \<noteq> CHR ''-''"
  by (drule dec_string_digits) (auto simp: is_dec_digit_def)

text \<open>Printing is injective, also when the number is followed by a dash.\<close>

lemma dec_string_inj [simp]: "dec_string m = dec_string n \<longleftrightarrow> m = n"
  by (metis js_parseInt_dec_string of_nat_eq_iff option.inject)

lemma dec_string_dash_inj:
  assumes "dec_string m @ CHR ''-'' # x = dec_string n @ CHR ''-'' # y"
  shows "m = n \<and> x = y"
proof -
  have tw: "takeWhile (\<lambda>c. c \<noteq> CHR ''-'') (dec_string k @ CHR ''-'' # z) = dec_string k" for k z
    using dec_string_no_sep [of _ k] by (simp add: takeWhile_append2)
  have "dec_string m = dec_string n"
    using tw [of m x] tw [of n y] assms by simp
  then show ?thesis
    using assms by simp
qed

declare js_ws_def [model_eval] js_trim_def [model_eval] js_includes_def [model_eval]
  js_digit_val_def [model_eval] digits_value_def [model_eval] js_radix_prefix_def [model_eval]
  js_parseInt_def [model_eval] dec_digit_def [model_eval]

end
