(* ===== verification/Pdf_Doc.thy ===== *)
theory Pdf_Doc
  imports Prelude
begin

text \<open>
  The document codec the server calls (pdf-lib's \<^verbatim>\<open>PDFDocument\<close>), modelled at
  the interface of spec section 6: a document is its ordered list of opaque pages,
  \<^verbatim>\<open>create\<close> gives the empty document, \<^verbatim>\<open>load\<close> fails on bytes that are not
  a PDF, \<^verbatim>\<open>copyPages\<close> returns the pages at the given indices and throws on an index
  with no page, \<^verbatim>\<open>addPage\<close> appends, \<^verbatim>\<open>save\<close> serialises. Pages are values: a
  copied page has no link back to its source document.
\<close>

record 'pg pdf_doc =
  pages :: "'pg list"

text \<open>
  The contents of an uploaded or written file: the serialisation of a document, or
  bytes that do not parse as a PDF.
\<close>

datatype 'pg file_data =
    Pdf_bytes "'pg list"
  | Other_bytes string

definition pdf_create :: "'pg pdf_doc" where
  "pdf_create = \<lparr>pages = []\<rparr>"

definition pdf_load :: "'pg file_data \<Rightarrow> 'pg pdf_doc result" where
  "pdf_load b = (case b of Pdf_bytes ps \<Rightarrow> Inr \<lparr>pages = ps\<rparr> | Other_bytes _ \<Rightarrow> Inl Format_error)"

definition pdf_save :: "'pg pdf_doc \<Rightarrow> 'pg file_data" where
  "pdf_save d = Pdf_bytes (pages d)"

definition get_page_count :: "'pg pdf_doc \<Rightarrow> nat" where
  "get_page_count d = length (pages d)"

definition get_page_indices :: "'pg pdf_doc \<Rightarrow> int list" where
  "get_page_indices d = [0..int (length (pages d)) - 1]"

text \<open>
  \<^verbatim>\<open>srcPages[i].node\<close> inside \<^verbatim>\<open>copyPages\<close>: an index with no page reads
  \<^verbatim>\<open>undefined\<close> and throws.
\<close>

definition copy_page :: "'pg pdf_doc \<Rightarrow> int \<Rightarrow> 'pg result" where
  "copy_page src i =
     (if 0 \<le> i \<and> i < int (length (pages src)) then Inr (pages src ! nat i)
      else Inl (Type_error i))"

fun copy_pages :: "'pg pdf_doc \<Rightarrow> int list \<Rightarrow> 'pg list result" where
  "copy_pages src [] = Inr []"
| "copy_pages src (i # is) =
     (case copy_page src i of
        Inl e \<Rightarrow> Inl e
      | Inr p \<Rightarrow> (case copy_pages src is of Inl e \<Rightarrow> Inl e | Inr ps \<Rightarrow> Inr (p # ps)))"

definition add_page :: "'pg pdf_doc \<Rightarrow> 'pg \<Rightarrow> 'pg pdf_doc" where
  "add_page d p = d\<lparr>pages := pages d @ [p]\<rparr>"

definition add_copies :: "'pg pdf_doc \<Rightarrow> 'pg list result \<Rightarrow> 'pg pdf_doc result" where
  "add_copies acc r = (case r of Inl e \<Rightarrow> Inl e | Inr ps \<Rightarrow> Inr (acc\<lparr>pages := pages acc @ ps\<rparr>))"

declare pdf_create_def [model_eval] pdf_load_def [model_eval] pdf_save_def [model_eval]
  get_page_count_def [model_eval] get_page_indices_def [model_eval] copy_page_def [model_eval]
  add_page_def [model_eval]

subsection \<open>Codec lemmas\<close>

lemma pdf_load_save [simp]: "pdf_load (pdf_save d) = Inr d"
  by (simp add: pdf_load_def pdf_save_def)

lemma pages_add_page [simp]: "pages (add_page d p) = pages d @ [p]"
  by (simp add: add_page_def)

lemma pages_pdf_create [simp]: "pages pdf_create = []"
  by (simp add: pdf_create_def)

lemma pdf_create_eq: "pdf_create = \<lparr>pages = []\<rparr>"
  by (simp add: pdf_create_def)

lemma pdf_doc_eq_pages: "(d :: 'pg pdf_doc) = \<lparr>pages = pages d\<rparr>"
  by simp

text \<open>Copying indices that all have a page never fails and reads them in order.\<close>

lemma copy_pages_valid:
  assumes "\<forall>i \<in> set is. 0 \<le> i \<and> i < int (length (pages src))"
  shows "copy_pages src is = Inr (map (\<lambda>i. pages src ! nat i) is)"
  using assms by (induction "is") (auto simp: copy_page_def)

text \<open>Copying fails exactly at the first index with no page.\<close>

lemma copy_pages_Inl:
  "copy_pages src is = Inl e \<Longrightarrow>
   \<exists>i \<in> set is. e = Type_error i \<and> \<not> (0 \<le> i \<and> i < int (length (pages src)))"
  by (induction "is") (auto simp: copy_page_def split: if_splits sum.splits)

lemma copy_pages_all_pages:
  "copy_pages src (get_page_indices src) = Inr (pages src)"
proof -
  let ?n = "length (pages src)"
  have "map nat [0..int ?n - 1] = [0..<?n]"
    using map_nat_upto [of 0 "int ?n - 1"] by simp
  have "map (\<lambda>i. pages src ! nat i) [0..int ?n - 1]
          = map ((!) (pages src)) (map nat [0..int ?n - 1])"
    by simp
  also have "\<dots> = pages src"
    by (simp only: \<open>map nat [0..int ?n - 1] = [0..<?n]\<close> map_nth)
  finally show ?thesis
    by (simp add: get_page_indices_def copy_pages_valid)
qed

subsection \<open>Loops that copy one page per iteration\<close>

text \<open>
  The split handler's loops copy one page per iteration into a new document. Their
  closed form appends the result of one \<open>copy_pages\<close> call on the whole index list
  to the document, or is the first exception.
\<close>

lemma add_copies_Nil [simp]: "add_copies acc (copy_pages src []) = Inr acc"
  by (simp add: add_copies_def)

lemma add_copies_step:
  assumes "0 \<le> p \<and> p < int (length (pages src)) \<Longrightarrow>
    F (add_page acc (pages src ! nat p)) =
    add_copies (add_page acc (pages src ! nat p)) (copy_pages src rest)"
  shows "(case copy_pages src [p] of
            Inl e \<Rightarrow> Inl e
          | Inr copied \<Rightarrow> F (add_page acc (hd copied)))
         = add_copies acc (copy_pages src (p # rest))"
proof (cases "0 \<le> p \<and> p < int (length (pages src))")
  case True
  then show ?thesis
    using assms by (simp add: copy_page_def add_copies_def split: sum.split)
next
  case False
  then show ?thesis
    by (auto simp: copy_page_def add_copies_def)
qed

end
