(* ===== verification/Range_Split.thy ===== *)
theory Range_Split
  imports JS_Builtins Pdf_Doc
begin

text \<open>
  Split by page ranges, the \<^verbatim>\<open>splitOption === 'pages'\<close> branch of the
  \<^verbatim>\<open>/api/split\<close> handler (\<^verbatim>\<open>src/server.js\<close>, lines 210 to 238). The range
  expression is cut at commas and each token is trimmed; a token with a \<^verbatim>\<open>-\<close> is an
  interval whose bounds are read with \<^verbatim>\<open>parseInt\<close>, any other token is a single
  page. For each token a new document is filled by a loop that copies one page per
  iteration. Against it stands the abstract specification of spec section 4.1: a token
  denotes a \<open>range_spec\<close> and \<open>resolve\<close> turns it into 0-based page indices.
  The main result characterises every token's outcome through that specification,
  including the one case where the code throws.
\<close>

subsection \<open>The code\<close>

text \<open>\<^verbatim>\<open>pageRanges.split(',').map(r => r.trim())\<close> (line 212).\<close>

definition parse_ranges :: "string \<Rightarrow> string list" where
  "parse_ranges pageRanges = map js_trim (js_split CHR '','' pageRanges)"

text \<open>\<open>x - 1\<close> on a number that may be \<^verbatim>\<open>NaN\<close>.\<close>

definition js_minus_one :: "js_int \<Rightarrow> js_int" where
  "js_minus_one v = map_option (\<lambda>n. n - 1) v"

text \<open>\<open>p <= end\<close>: false when \<open>end\<close> is \<^verbatim>\<open>NaN\<close> or \<^verbatim>\<open>undefined\<close>.\<close>

definition js_le :: "int \<Rightarrow> js_int \<Rightarrow> bool" where
  "js_le p e = (case e of None \<Rightarrow> False | Some n \<Rightarrow> p \<le> n)"

text \<open>
  The loop of lines 220 to 223:
  \<^verbatim>\<open>for (let p = start; p <= end && p < totalPages; p++)\<close> copies page \<open>p\<close> of
  the source and appends it to the new document. The page count bounds the loop, so it
  terminates whatever \<open>end\<close> is.
\<close>

function interval_loop ::
  "'pg pdf_doc \<Rightarrow> nat \<Rightarrow> int \<Rightarrow> js_int \<Rightarrow> 'pg pdf_doc \<Rightarrow> 'pg pdf_doc result" where
  "interval_loop pdfDoc totalPages p end newPdf =
     (if js_le p end \<and> p < int totalPages then
        (case copy_pages pdfDoc [p] of
           Inl e \<Rightarrow> Inl e
         | Inr copied \<Rightarrow> interval_loop pdfDoc totalPages (p + 1) end (add_page newPdf (hd copied)))
      else Inr newPdf)"
  by pat_completeness auto
termination
  by (relation "measure (\<lambda>(_, T, p, _, _). nat (int T - p))") auto

declare interval_loop.simps [simp del]

text \<open>
  One token, lines 215 to 230: the new document for the token. In the interval case
  \<^verbatim>\<open>const [start, end] = range.split('-').map(n => parseInt(n.trim()) - 1)\<close>
  takes the first two pieces; a missing piece is \<^verbatim>\<open>undefined\<close>, which compares
  false like \<^verbatim>\<open>NaN\<close>. A \<^verbatim>\<open>NaN\<close> start fails the loop guard at once. In the single
  case the only guard is \<open>pageNum < totalPages\<close>.
\<close>

definition range_part :: "'pg pdf_doc \<Rightarrow> nat \<Rightarrow> string \<Rightarrow> 'pg pdf_doc result" where
  "range_part pdfDoc totalPages rng =
     (let newPdf = pdf_create in
      if js_includes rng CHR ''-'' then
        (let bounds = map (\<lambda>n. js_minus_one (js_parseInt (js_trim n))) (js_split CHR ''-'' rng);
             start = (case bounds of b # _ \<Rightarrow> b | [] \<Rightarrow> None);
             end = (case bounds of _ # b # _ \<Rightarrow> b | _ \<Rightarrow> None)
         in case start of
              None \<Rightarrow> Inr newPdf
            | Some p \<Rightarrow> interval_loop pdfDoc totalPages p end newPdf)
      else
        (case js_minus_one (js_parseInt rng) of
           None \<Rightarrow> Inr newPdf
         | Some pageNum \<Rightarrow>
             if pageNum < int totalPages then
               (case copy_pages pdfDoc [pageNum] of
                  Inl e \<Rightarrow> Inl e
                | Inr copied \<Rightarrow> Inr (add_page newPdf (hd copied)))
             else Inr newPdf))"

text \<open>
  The loop over the tokens (line 214): one document per token, in token order; an
  exception in any token aborts the whole request.
\<close>

fun range_parts :: "'pg pdf_doc \<Rightarrow> nat \<Rightarrow> string list \<Rightarrow> 'pg pdf_doc list result" where
  "range_parts pdfDoc totalPages [] = Inr []"
| "range_parts pdfDoc totalPages (r # rs) =
     (case range_part pdfDoc totalPages r of
        Inl e \<Rightarrow> Inl e
      | Inr d \<Rightarrow> (case range_parts pdfDoc totalPages rs of
                   Inl e \<Rightarrow> Inl e
                 | Inr ds \<Rightarrow> Inr (d # ds)))"

definition split_by_range :: "'pg pdf_doc \<Rightarrow> string \<Rightarrow> 'pg pdf_doc list result" where
  "split_by_range pdfDoc pageRanges =
     range_parts pdfDoc (get_page_count pdfDoc) (parse_ranges pageRanges)"

subsection \<open>The specification\<close>

text \<open>
  Spec section 3 and 4.1: a token is \<open>Single n\<close> or \<open>Interval a b\<close> in 1-based
  user numbering, and resolves against the page count to 0-based indices:
  \<open>[n-1]\<close> when \<open>1 \<le> n \<le> totalPages\<close>, and
  \<open>[i-1 for i in a..b if i-1 < totalPages]\<close>.
\<close>

datatype range_spec = Single int | Interval int int

fun resolve :: "range_spec \<Rightarrow> nat \<Rightarrow> nat list" where
  "resolve (Single n) totalPages =
     (if 1 \<le> n \<and> n \<le> int totalPages then [nat (n - 1)] else [])"
| "resolve (Interval a b) totalPages =
     map (\<lambda>i. nat (i - 1)) (filter (\<lambda>i. i - 1 < int totalPages) [a..b])"

text \<open>
  What the code reads a token as: the numbers \<^verbatim>\<open>parseInt\<close> finds before the
  decrement, or nothing when a bound that the loop needs is \<^verbatim>\<open>NaN\<close>.
\<close>

definition token_spec :: "string \<Rightarrow> range_spec option" where
  "token_spec rng =
     (if js_includes rng CHR ''-'' then
        (case map (\<lambda>n. js_parseInt (js_trim n)) (js_split CHR ''-'' rng) of
           Some a # Some b # _ \<Rightarrow> Some (Interval a b)
         | _ \<Rightarrow> None)
      else map_option Single (js_parseInt rng))"

text \<open>
  The inputs on which the code throws: a first page below 1 that the loop reaches
  (spec section 9 leaves these open).
\<close>

fun spec_throws :: "range_spec \<Rightarrow> bool" where
  "spec_throws (Single n) \<longleftrightarrow> n < 1"
| "spec_throws (Interval a b) \<longleftrightarrow> a < 1 \<and> a \<le> b"

fun spec_first :: "range_spec \<Rightarrow> int" where
  "spec_first (Single n) = n"
| "spec_first (Interval a b) = a"

declare parse_ranges_def [model_eval] js_minus_one_def [model_eval] js_le_def [model_eval]
  range_part_def [model_eval] split_by_range_def [model_eval] token_spec_def [model_eval]

subsection \<open>The loop in closed form\<close>

text \<open>
  The copy loop is equivalent to copying the whole index range
  \<open>[p..min end (totalPages - 1)]\<close> at once: it stops at the first index with no
  page, and otherwise appends the copied pages in index order.
\<close>

lemma interval_loop_closed:
  "interval_loop src T p e acc =
     (case e of
        None \<Rightarrow> Inr acc
      | Some q \<Rightarrow> add_copies acc (copy_pages src [p..min q (int T - 1)]))"
proof (induction src T p e acc rule: interval_loop.induct)
  case (1 src T p e acc)
  show ?case
  proof (cases "js_le p e \<and> p < int T")
    case True
    then obtain q where e: "e = Some q" and pq: "p \<le> q" and pT: "p < int T"
      by (auto simp: js_le_def split: option.splits)
    then have rng: "[p..min q (int T - 1)] = p # [p + 1..min q (int T - 1)]"
      by (simp add: upto_rec1)
    have "interval_loop src T p e acc =
      (case copy_pages src [p] of
         Inl err \<Rightarrow> Inl err
       | Inr copied \<Rightarrow> interval_loop src T (p + 1) e (add_page acc (hd copied)))"
      using True by (simp add: interval_loop.simps [of src T p e acc])
    also have "\<dots> = add_copies acc (copy_pages src (p # [p + 1..min q (int T - 1)]))"
      by (rule add_copies_step) (use "1" True e in \<open>simp add: copy_page_def\<close>)
    finally show ?thesis
      by (simp add: e rng)
  next
    case False
    then show ?thesis
      by (auto simp: interval_loop.simps [of src T p e acc] js_le_def add_copies_def
          split: option.splits)
  qed
qed

lemma copy_pages_upto_neg:
  "a < 0 \<Longrightarrow> a \<le> b \<Longrightarrow> copy_pages src [a..b] = Inl (Type_error a)"
  by (simp add: upto_rec1 copy_page_def)

lemma copy_pages_upto_valid:
  "0 \<le> a \<Longrightarrow> b < int (length (pages src)) \<Longrightarrow>
   copy_pages src [a..b] = Inr (map (\<lambda>i. pages src ! nat i) [a..b])"
  by (rule copy_pages_valid) auto

subsection \<open>The specification in closed form\<close>

lemma resolve_Interval_upto:
  "resolve (Interval a b) T = map nat [a - 1..min (b - 1) (int T - 1)]"
proof -
  have "filter (\<lambda>i. i - 1 < int T) [a..b] = filter (\<lambda>i. i \<le> int T) [a..b]"
    by (rule filter_cong) auto
  also have "\<dots> = [a..min b (int T)]"
    by (rule filter_le_upto)
  finally have flt: "filter (\<lambda>i. i - 1 < int T) [a..b] = [a..min b (int T)]" .
  have "min b (int T) - 1 = min (b - 1) (int T - 1)"
    by (simp add: min_def)
  then have shift: "map (\<lambda>i. i - 1) [a..min b (int T)] = [a - 1..min (b - 1) (int T - 1)]"
    using upto_shift [of "-1" a "min b (int T)"] by simp
  have "resolve (Interval a b) T = map nat (map (\<lambda>i. i - 1) [a..min b (int T)])"
    by (simp add: flt)
  then show ?thesis
    by (simp only: shift)
qed

subsection \<open>Each kind of token against the specification\<close>

lemma js_split_two:
  assumes "c \<in> set s"
  obtains x y rest where "js_split c s = x # y # rest"
proof -
  have "count_list s c \<noteq> 0"
    using assms by (simp add: count_list_0_iff)
  then have "2 \<le> length (js_split c s)"
    by (simp add: length_js_split)
  then show ?thesis
    using that by (cases "js_split c s" rule: remdups_adj.cases) auto
qed

abbreviation spec_result :: "'pg pdf_doc \<Rightarrow> range_spec option \<Rightarrow> 'pg pdf_doc result" where
  "spec_result src sp \<equiv>
     (case sp of
        None \<Rightarrow> Inr pdf_create
      | Some s \<Rightarrow>
          if spec_throws s then Inl (Type_error (spec_first s - 1))
          else Inr \<lparr>pages = map ((!) (pages src)) (resolve s (get_page_count src))\<rparr>)"

lemma range_part_single:
  assumes "\<not> js_includes rng CHR ''-''"
  shows "range_part src (get_page_count src) rng = spec_result src (token_spec rng)"
proof (cases "js_parseInt rng")
  case None
  with assms show ?thesis
    by (simp add: range_part_def token_spec_def js_minus_one_def)
next
  case (Some n)
  have tok: "token_spec rng = Some (Single n)"
    using assms Some by (simp add: token_spec_def)
  show ?thesis
  proof (cases "n - 1 < int (get_page_count src)")
    case True
    then show ?thesis
      using assms Some tok
      by (auto simp: range_part_def js_minus_one_def copy_page_def get_page_count_def
          pdf_create_eq add_page_def)
  next
    case False
    then show ?thesis
      using assms Some tok
      by (simp add: range_part_def js_minus_one_def get_page_count_def)
  qed
qed

lemma range_part_interval:
  assumes "js_includes rng CHR ''-''"
  shows "range_part src (get_page_count src) rng = spec_result src (token_spec rng)"
proof -
  let ?T = "get_page_count src"
  have "CHR ''-'' \<in> set rng"
    using assms by (simp add: js_includes_def)
  then obtain x y rest where pcs: "js_split CHR ''-'' rng = x # y # rest"
    by (rule js_split_two)
  show ?thesis
  proof (cases "js_parseInt (js_trim x)")
    case None
    with assms pcs show ?thesis
      by (simp add: range_part_def token_spec_def js_minus_one_def)
  next
    case (Some a)
    note a = Some
    show ?thesis
    proof (cases "js_parseInt (js_trim y)")
      case None
      with assms pcs a show ?thesis
        by (simp add: range_part_def token_spec_def js_minus_one_def interval_loop_closed)
    next
      case (Some b)
      let ?is = "[a - 1..min (b - 1) (int ?T - 1)]"
      have part: "range_part src ?T rng =
        add_copies pdf_create (copy_pages src ?is)"
        using assms pcs a Some
        by (simp add: range_part_def js_minus_one_def interval_loop_closed)
      have tok: "token_spec rng = Some (Interval a b)"
        using assms pcs a Some by (simp add: token_spec_def)
      consider (throws) "a < 1 \<and> a \<le> b" | (empty) "b < a" | (valid) "1 \<le> a" "a \<le> b"
        by linarith
      then show ?thesis
      proof cases
        case throws
        then have "copy_pages src ?is = Inl (Type_error (a - 1))"
          by (intro copy_pages_upto_neg) auto
        then show ?thesis
          using throws by (simp add: part tok add_copies_def)
      next
        case empty
        then show ?thesis
          by (simp add: part tok resolve_Interval_upto pdf_create_eq add_copies_def)
      next
        case valid
        then have "copy_pages src ?is = Inr (map (\<lambda>i. pages src ! nat i) ?is)"
          by (intro copy_pages_upto_valid) (auto simp: get_page_count_def)
        then show ?thesis
          using valid
          by (simp add: part tok resolve_Interval_upto pdf_create_eq comp_def add_copies_def
              del: resolve.simps)
      qed
    qed
  qed
qed

lemma range_part_spec:
  "range_part src (get_page_count src) rng = spec_result src (token_spec rng)"
  using range_part_single range_part_interval by blast

subsection \<open>Facts about the specification\<close>

lemma resolve_sorted: "\<not> spec_throws sp \<Longrightarrow> sorted_wrt (<) (resolve sp T)"
proof (cases sp)
  case (Interval a b)
  assume "\<not> spec_throws sp"
  then have "b < a \<or> 1 \<le> a" using Interval by auto
  then show ?thesis
    using Interval
    by (auto simp: resolve_Interval_upto sorted_wrt_map intro: sorted_wrt_mono_rel
        [OF _ sorted_wrt_upto [of _ "min (b - 1) (int T - 1)"]] simp del: resolve.simps)
qed simp

lemma resolve_bounded:
  "\<not> spec_throws sp \<Longrightarrow> i \<in> set (resolve sp T) \<Longrightarrow> i < T"
proof (cases sp)
  case (Interval a b)
  assume "\<not> spec_throws sp" and "i \<in> set (resolve sp T)"
  then show ?thesis
    using Interval by (auto simp: resolve_Interval_upto simp del: resolve.simps)
qed (auto split: if_splits)

lemma range_part_subseq:
  assumes "range_part src (get_page_count src) rng = Inr p"
  shows "subseq (pages p) (pages src)"
proof (cases "token_spec rng")
  case None
  then show ?thesis using assms by (auto simp: range_part_spec pdf_create_eq)
next
  case (Some sp)
  then have ok: "\<not> spec_throws sp"
    and p: "pages p = map ((!) (pages src)) (resolve sp (get_page_count src))"
    using assms by (auto simp: range_part_spec split: if_splits)
  show ?thesis
    unfolding p
    by (rule subseq_map_nth)
      (use ok resolve_sorted resolve_bounded in \<open>auto simp: get_page_count_def\<close>)
qed

lemma range_part_Inl:
  "range_part src (get_page_count src) rng = Inl e \<Longrightarrow> \<exists>i < 0. e = Type_error i"
proof (cases "token_spec rng")
  case (Some sp)
  moreover assume "range_part src (get_page_count src) rng = Inl e"
  ultimately have "spec_throws sp" and "e = Type_error (spec_first sp - 1)"
    by (auto simp: range_part_spec split: if_splits)
  then show ?thesis
    by (cases sp) auto
qed (simp add: range_part_spec)

subsection \<open>Tokens that are printed numbers\<close>

lemma range_parts_map_result:
  "range_parts src T toks = map_result (range_part src T) toks"
  by (induction toks) (auto split: sum.split)

lemma split_by_range_map_result:
  "split_by_range src s =
     map_result (range_part src (get_page_count src)) (parse_ranges s)"
  by (simp add: split_by_range_def range_parts_map_result)

lemma parse_ranges_single_token:
  "CHR '','' \<notin> set tok \<Longrightarrow> js_trim tok = tok \<Longrightarrow> parse_ranges tok = [tok]"
  by (simp add: parse_ranges_def js_split_no_sep)

lemma dash_notin_dec_string [simp]: "CHR ''-'' \<notin> set (dec_string n)"
  using dec_string_no_sep by blast

lemma comma_notin_dec_string [simp]: "CHR '','' \<notin> set (dec_string n)"
  using dec_string_no_sep by blast

lemma js_ws_dash [simp]: "\<not> js_ws CHR ''-''"
  by (simp add: js_ws_def)

lemma token_spec_dec_string:
  "token_spec (dec_string n) = Some (Single (int n))"
  by (simp add: token_spec_def js_includes_def)

lemma js_split_interval_token:
  "js_split CHR ''-'' (dec_string a @ CHR ''-'' # dec_string b) = [dec_string a, dec_string b]"
  by (simp add: js_split_prepend js_split_no_sep del: js_split_Cons)

lemma token_spec_interval:
  "token_spec (dec_string a @ CHR ''-'' # dec_string b) = Some (Interval (int a) (int b))"
  by (simp add: token_spec_def js_includes_def js_split_interval_token)

lemma interval_token_trim:
  "js_trim (dec_string a @ CHR ''-'' # dec_string b) = dec_string a @ CHR ''-'' # dec_string b"
  by (rule js_trim_id) (auto dest!: dec_string_digits simp: is_dec_digit_facts)

lemma interval_token_no_comma:
  "CHR '','' \<notin> set (dec_string a @ CHR ''-'' # dec_string b)"
  by simp

subsection \<open>Properties of split by range\<close>

text \<open>
  C1. Every token of a page-range expression is handled as spec section 4.1 resolves
  it: when the code reads the token as \<open>Single n\<close> or \<open>Interval a b\<close>, the new
  document holds the source pages at the indices \<open>resolve\<close> gives, in that order;
  a token whose bounds \<^verbatim>\<open>parseInt\<close> cannot read gives an empty document; and the
  code throws exactly when the first page asked for is below 1 and the loop reaches it.
\<close>

theorem range_part_refines_resolve:
  "range_part src (get_page_count src) rng =
     (case token_spec rng of
        None \<Rightarrow> Inr pdf_create
      | Some sp \<Rightarrow>
          if spec_throws sp then Inl (Type_error (spec_first sp - 1))
          else Inr \<lparr>pages = map ((!) (pages src)) (resolve sp (get_page_count src))\<rparr>)"
  by (rule range_part_spec)

text \<open>
  C2. Every document that split by range produces is an order-preserving selection of
  the source's pages: no page outside the source, none out of order, none twice unless
  the source has it twice.
\<close>

theorem split_by_range_subseq:
  assumes "split_by_range src s = Inr parts"
  shows "\<forall>p \<in> set parts. subseq (pages p) (pages src)"
proof
  fix p
  assume "p \<in> set parts"
  with assms obtain tok where "range_part src (get_page_count src) tok = Inr p"
    by (auto simp: split_by_range_map_result dest: map_result_Inr_set)
  then show "subseq (pages p) (pages src)"
    by (rule range_part_subseq)
qed

theorem split_by_range_subseq_witness:
  "split_by_range \<lparr>pages = [10, 20, 30 :: nat]\<rparr> ''2-3, 1'' = Inr [\<lparr>pages = [20, 30]\<rparr>, \<lparr>pages = [10]\<rparr>]
   \<and> subseq [20, 30] [10, 20, 30 :: nat] \<and> subseq [10] [10, 20, 30 :: nat]"
proof -
  have run: "split_by_range \<lparr>pages = [10, 20, 30 :: nat]\<rparr> ''2-3, 1''
               = Inr [\<lparr>pages = [20, 30]\<rparr>, \<lparr>pages = [10]\<rparr>]"
    by (simp add: model_eval interval_loop.simps)
  show ?thesis
    using split_by_range_subseq [OF run] run by simp
qed

text \<open>
  C3. Out-of-range pages above the document are dropped, never an error: the only
  exception split by range can raise is the copy of a negative page index.
\<close>

theorem split_by_range_error_negative:
  "split_by_range src s = Inl e \<Longrightarrow> \<exists>i < 0. e = Type_error i"
  by (auto simp: split_by_range_map_result dest!: map_result_Inl range_part_Inl)

theorem split_by_range_error_negative_witness:
  "split_by_range \<lparr>pages = [10, 20, 30 :: nat]\<rparr> ''2, 0-1'' = Inl (Type_error (-1))
   \<and> (-1 :: int) < 0"
proof -
  have run: "split_by_range \<lparr>pages = [10, 20, 30 :: nat]\<rparr> ''2, 0-1'' = Inl (Type_error (-1))"
    by (simp add: model_eval interval_loop.simps)
  show ?thesis
    using split_by_range_error_negative [OF run] run by auto
qed

text \<open>
  C4. A successful split by range produces one document per comma-separated token,
  empty ones included: one more than there are commas in the expression.
\<close>

theorem split_by_range_count:
  "split_by_range src s = Inr parts \<Longrightarrow> length parts = Suc (count_list s CHR '','')"
  by (auto simp: split_by_range_map_result parse_ranges_def length_js_split
      dest!: map_result_Inr_length)

theorem split_by_range_count_witness:
  "split_by_range \<lparr>pages = [10, 20, 30 :: nat]\<rparr> ''7, 1,'' = Inr [pdf_create, \<lparr>pages = [10]\<rparr>, pdf_create]
   \<and> length [pdf_create, \<lparr>pages = [10 :: nat]\<rparr>, pdf_create] = Suc (count_list ''7, 1,'' CHR '','')"
proof -
  have run: "split_by_range \<lparr>pages = [10, 20, 30 :: nat]\<rparr> ''7, 1,''
               = Inr [pdf_create, \<lparr>pages = [10]\<rparr>, pdf_create]"
    by (simp add: model_eval interval_loop.simps)
  show ?thesis
    using split_by_range_count [OF run] run by simp
qed

lemma split_by_range_spec:
  "split_by_range src s = map_result (\<lambda>tok. spec_result src (token_spec tok)) (parse_ranges s)"
proof -
  have "range_part src (get_page_count src) = (\<lambda>tok. spec_result src (token_spec tok))"
    by (rule ext) (rule range_part_spec)
  then show ?thesis
    by (simp add: split_by_range_map_result)
qed

lemma split_by_range_one_token:
  "CHR '','' \<notin> set tok \<Longrightarrow> js_trim tok = tok \<Longrightarrow>
   split_by_range src tok = map_sum id (\<lambda>d. [d]) (range_part src (get_page_count src) tok)"
  by (simp add: split_by_range_map_result parse_ranges_single_token split: sum.split)

text \<open>
  C5. A single page number \<open>n\<close> with \<open>1 \<le> n \<le> totalPages\<close> gives exactly one
  document holding page \<open>n\<close> of the source (index \<open>n - 1\<close>).
\<close>

theorem split_single_in_range:
  assumes "1 \<le> n" and "n \<le> get_page_count src"
  shows "split_by_range src (dec_string n) = Inr [\<lparr>pages = [pages src ! (n - 1)]\<rparr>]"
  using assms
  by (simp add: split_by_range_one_token range_part_spec token_spec_dec_string nat_diff_distrib)

theorem split_single_in_range_witness:
  "1 \<le> (2::nat) \<and> 2 \<le> get_page_count \<lparr>pages = [10, 20, 30 :: nat]\<rparr>
   \<and> split_by_range \<lparr>pages = [10, 20, 30 :: nat]\<rparr> ''2'' = Inr [\<lparr>pages = [20]\<rparr>]"
proof -
  have h: "1 \<le> (2::nat)" "2 \<le> get_page_count \<lparr>pages = [10, 20, 30 :: nat]\<rparr>"
    by (simp_all add: get_page_count_def)
  have "dec_string 2 = ''2''"
    by (simp add: dec_string.simps dec_digit_def)
  then show ?thesis
    using split_single_in_range [OF h] h by simp
qed

text \<open>
  C6. A single page number beyond the document is not an error: the token gives one
  empty document.
\<close>

theorem split_single_above_range:
  assumes "get_page_count src < n"
  shows "split_by_range src (dec_string n) = Inr [pdf_create]"
  using assms
  by (simp add: split_by_range_one_token range_part_spec token_spec_dec_string)

theorem split_single_above_range_witness:
  "get_page_count \<lparr>pages = [10, 20, 30 :: nat]\<rparr> < 7
   \<and> split_by_range \<lparr>pages = [10, 20, 30 :: nat]\<rparr> ''7'' = Inr [pdf_create]"
proof -
  have h: "get_page_count \<lparr>pages = [10, 20, 30 :: nat]\<rparr> < 7"
    by (simp add: get_page_count_def)
  have "dec_string 7 = ''7''"
    by (simp add: dec_string.simps dec_digit_def)
  then show ?thesis
    using split_single_above_range [OF h] h by simp
qed

text \<open>
  C7. The page number 0 is not dropped as out of range, as spec sections 3 and 8 require
  for every number outside \<open>[1, totalPages]\<close>: the single-page guard is only
  \<open>pageNum < totalPages\<close>, so the code copies index -1 and throws, on every document.
\<close>

theorem split_single_zero_throws:
  "split_by_range src ''0'' = Inl (Type_error (-1))"
proof -
  have "''0'' = dec_string 0"
    by (simp add: dec_string.simps dec_digit_def)
  then show ?thesis
    by (simp add: split_by_range_one_token range_part_spec token_spec_dec_string)
qed

text \<open>
  C8. An interval \<open>a-b\<close> with \<open>a \<ge> 1\<close> gives one document holding source pages
  \<open>a\<close> to \<open>min b totalPages\<close> in ascending order; pages past the end are dropped,
  and \<open>a > b\<close> gives an empty document.
\<close>

lemma range_part_interval_token:
  assumes "1 \<le> a"
  shows "range_part src (get_page_count src) (dec_string a @ CHR ''-'' # dec_string b) =
           Inr \<lparr>pages = take (Suc (min b (get_page_count src)) - a) (drop (a - 1) (pages src))\<rparr>"
proof -
  let ?T = "get_page_count src"
  have ok: "\<not> spec_throws (Interval (int a) (int b))"
    using assms by simp
  have sl: "map (\<lambda>i. pages src ! nat i) [int a - 1..min (int b - 1) (int ?T - 1)]
        = take (Suc (min b ?T) - a) (drop (a - 1) (pages src))"
    using assms
    by (subst map_nth_upto_slice) (auto simp: get_page_count_def nat_diff_distrib min_def)
  show ?thesis
    using ok sl
    by (simp add: range_part_spec token_spec_interval resolve_Interval_upto comp_def
        del: resolve.simps spec_throws.simps)
qed

theorem split_interval:
  assumes "1 \<le> a"
  shows "split_by_range src (dec_string a @ ''-'' @ dec_string b) =
           Inr [\<lparr>pages = take (Suc (min b (get_page_count src)) - a) (drop (a - 1) (pages src))\<rparr>]"
  using range_part_interval_token [OF assms, of src b]
  by (simp add: split_by_range_one_token interval_token_trim)

theorem split_interval_witness:
  "1 \<le> (2::nat)
   \<and> split_by_range \<lparr>pages = [10, 20, 30 :: nat]\<rparr> ''2-9'' = Inr [\<lparr>pages = [20, 30]\<rparr>]"
proof -
  have h: "1 \<le> (2::nat)" by simp
  have "dec_string 2 @ ''-'' @ dec_string 9 = ''2-9''"
    by (simp add: dec_string.simps dec_digit_def)
  then show ?thesis
    using split_interval [OF h, of "\<lparr>pages = [10, 20, 30 :: nat]\<rparr>" 9]
    by (simp add: get_page_count_def)
qed

text \<open>
  C9. An interval starting at 0 throws on every document, whatever its end: the loop
  starts at index -1, which the code never checks (spec section 9, open question).
\<close>

theorem split_interval_from_zero_throws:
  "split_by_range src (''0-'' @ dec_string b) = Inl (Type_error (-1))"
proof -
  have tok: "''0-'' @ dec_string b = dec_string 0 @ CHR ''-'' # dec_string b"
    by (simp add: dec_string.simps dec_digit_def)
  show ?thesis
    unfolding tok
    by (simp add: split_by_range_one_token interval_token_trim range_part_spec
        token_spec_interval)
qed

text \<open>
  Spec section 8: the expression \<^verbatim>\<open>"1-3, 5, 7-10"\<close> over a 10-page document
  gives three documents, with pages 1 to 3, page 5 and pages 7 to 10.
\<close>

theorem split_scenario_three_parts:
  assumes "get_page_count src = 10"
  shows "split_by_range src ''1-3, 5, 7-10'' =
           Inr [\<lparr>pages = [pages src ! 0, pages src ! 1, pages src ! 2]\<rparr>,
                \<lparr>pages = [pages src ! 4]\<rparr>,
                \<lparr>pages = [pages src ! 6, pages src ! 7, pages src ! 8, pages src ! 9]\<rparr>]"
  using assms
  by (simp add: split_by_range_spec model_eval upto.simps del: range_part_def)

theorem split_scenario_three_parts_witness:
  "get_page_count \<lparr>pages = [1..<11]\<rparr> = 10
   \<and> split_by_range \<lparr>pages = [1..<11]\<rparr> ''1-3, 5, 7-10''
       = Inr [\<lparr>pages = [1, 2, 3]\<rparr>, \<lparr>pages = [5]\<rparr>, \<lparr>pages = [7, 8, 9, 10]\<rparr>]"
proof -
  have h: "get_page_count \<lparr>pages = [1..<11]\<rparr> = 10"
    by (simp add: get_page_count_def)
  show ?thesis
    using split_scenario_three_parts [OF h] h by (simp add: upt_rec)
qed

text \<open>
  Spec section 8: \<^verbatim>\<open>"9-12"\<close> over a 10-page document gives one document with
  pages 9 and 10; pages 11 and 12 are dropped.
\<close>

theorem split_scenario_clipped:
  assumes "get_page_count src = 10"
  shows "split_by_range src ''9-12'' = Inr [\<lparr>pages = [pages src ! 8, pages src ! 9]\<rparr>]"
  using assms
  by (simp add: split_by_range_spec model_eval upto.simps del: range_part_def)

theorem split_scenario_clipped_witness:
  "get_page_count \<lparr>pages = [1..<11]\<rparr> = 10
   \<and> split_by_range \<lparr>pages = [1..<11]\<rparr> ''9-12'' = Inr [\<lparr>pages = [9, 10]\<rparr>]"
proof -
  have h: "get_page_count \<lparr>pages = [1..<11]\<rparr> = 10"
    by (simp add: get_page_count_def)
  show ?thesis
    using split_scenario_clipped [OF h] h by (simp add: upt_rec)
qed

end
