(* ===== verification/Size_Split.thy ===== *)
theory Size_Split
  imports JS_Builtins Pdf_Doc
begin

text \<open>
  Split by size, the \<^verbatim>\<open>splitOption === 'size'\<close> branch of the
  \<^verbatim>\<open>/api/split\<close> handler (\<^verbatim>\<open>src/server.js\<close>, lines 239 to 258). The part
  count is read with \<^verbatim>\<open>parseInt\<close>, the part length is
  \<^verbatim>\<open>Math.ceil(totalPages / parts)\<close>, and part \<open>i\<close> copies the pages from
  \<open>i * pagesPerPart\<close> up to the smaller of the next multiple and the page count.
  The lemmas give every part in closed form as a slice of the source, show that the
  parts never fail and concatenate back to the source, and count them.
\<close>

subsection \<open>The code\<close>

text \<open>
  \<^verbatim>\<open>Math.ceil(totalPages / parts)\<close>. The quotient by 0 is \<^verbatim>\<open>Infinity\<close> or
  \<^verbatim>\<open>NaN\<close> in JavaScript and 0 here; the value is then never used, since the loop
  \<open>i < parts\<close> does not run.
\<close>

definition js_ceil_div :: "nat \<Rightarrow> int \<Rightarrow> int" where
  "js_ceil_div totalPages parts = \<lceil>real totalPages / real_of_int parts\<rceil>"

text \<open>The inner loop, lines 248 to 251: \<^verbatim>\<open>for (let p = startPage; p < endPage; p++)\<close>.\<close>

function page_loop :: "'pg pdf_doc \<Rightarrow> int \<Rightarrow> int \<Rightarrow> 'pg pdf_doc \<Rightarrow> 'pg pdf_doc result" where
  "page_loop pdfDoc p endPage newPdf =
     (if p < endPage then
        (case copy_pages pdfDoc [p] of
           Inl e \<Rightarrow> Inl e
         | Inr copied \<Rightarrow> page_loop pdfDoc (p + 1) endPage (add_page newPdf (hd copied)))
      else Inr newPdf)"
  by pat_completeness auto
termination
  by (relation "measure (\<lambda>(_, p, e, _). nat (e - p))") auto

declare page_loop.simps [simp del]

text \<open>
  The outer loop, lines 243 to 258: \<^verbatim>\<open>for (let i = 0; i < parts; i++)\<close>, one new
  document per iteration.
\<close>

function size_loop ::
  "'pg pdf_doc \<Rightarrow> nat \<Rightarrow> int \<Rightarrow> int \<Rightarrow> int \<Rightarrow> 'pg pdf_doc list result" where
  "size_loop pdfDoc totalPages parts pagesPerPart i =
     (if i < parts then
        (let newPdf = pdf_create;
             startPage = i * pagesPerPart;
             endPage = min (startPage + pagesPerPart) (int totalPages)
         in case page_loop pdfDoc startPage endPage newPdf of
              Inl e \<Rightarrow> Inl e
            | Inr part \<Rightarrow>
                (case size_loop pdfDoc totalPages parts pagesPerPart (i + 1) of
                   Inl e \<Rightarrow> Inl e
                 | Inr rest \<Rightarrow> Inr (part # rest)))
      else Inr [])"
  by pat_completeness auto
termination
  by (relation "measure (\<lambda>(_, _, parts, _, i). nat (parts - i))") auto

declare size_loop.simps [simp del]

text \<open>
  Lines 240 to 258. A part count that \<^verbatim>\<open>parseInt\<close> cannot read is \<^verbatim>\<open>NaN\<close>,
  and \<open>i < NaN\<close> is false, so no part is made.
\<close>

definition split_by_size :: "'pg pdf_doc \<Rightarrow> string \<Rightarrow> 'pg pdf_doc list result" where
  "split_by_size pdfDoc numParts =
     (let totalPages = get_page_count pdfDoc in
      case js_parseInt numParts of
        None \<Rightarrow> Inr []
      | Some parts \<Rightarrow>
          size_loop pdfDoc totalPages parts (js_ceil_div totalPages parts) 0)"

declare js_ceil_div_def [model_eval] split_by_size_def [model_eval]

subsection \<open>The part length\<close>

lemma js_ceil_div_int: "js_ceil_div T P = - (- int T div P)"
  using ceiling_divide_eq_div [of "int T" P] by (simp add: js_ceil_div_def)

lemma js_ceil_div_nonneg: "0 < P \<Longrightarrow> 0 \<le> js_ceil_div T P"
proof -
  assume "0 < P"
  then have "0 \<le> real T / real_of_int P"
    by simp
  then have "-1 < real T / real_of_int P"
    by linarith
  then show ?thesis
    by (simp add: js_ceil_div_def)
qed

lemma js_ceil_div_covers: "0 < P \<Longrightarrow> int T \<le> P * js_ceil_div T P"
proof -
  assume P: "0 < P"
  have "real T / real_of_int P \<le> real_of_int (js_ceil_div T P)"
    by (simp add: js_ceil_div_def)
  then have "real T \<le> real_of_int P * real_of_int (js_ceil_div T P)"
    using P by (simp add: divide_le_eq mult.commute)
  then show ?thesis
    by (simp flip: of_int_mult)
qed

subsection \<open>The loops in closed form\<close>

lemma page_loop_closed:
  "page_loop src p e acc = add_copies acc (copy_pages src [p..e - 1])"
proof (induction src p e acc rule: page_loop.induct)
  case (1 src p e acc)
  show ?case
  proof (cases "p < e")
    case True
    then have rng: "[p..e - 1] = p # [p + 1..e - 1]"
      by (simp add: upto_rec1)
    have "page_loop src p e acc =
      (case copy_pages src [p] of
         Inl err \<Rightarrow> Inl err
       | Inr copied \<Rightarrow> page_loop src (p + 1) e (add_page acc (hd copied)))"
      using True by (simp add: page_loop.simps [of src p e acc])
    also have "\<dots> = add_copies acc (copy_pages src (p # [p + 1..e - 1]))"
      by (rule add_copies_step) (use "1" True in \<open>simp add: copy_page_def\<close>)
    finally show ?thesis
      by (simp add: rng)
  next
    case False
    then show ?thesis
      by (simp add: page_loop.simps [of src p e acc] add_copies_def)
  qed
qed

text \<open>One part: the slice of \<open>k\<close> pages from \<open>a\<close>, shorter at the end.\<close>

lemma size_part_closed:
  assumes "0 \<le> k" and "0 \<le> a"
  shows "page_loop src a (min (a + k) (int (length (pages src)))) pdf_create =
           Inr \<lparr>pages = take (nat k) (drop (nat a) (pages src))\<rparr>"
proof -
  let ?T = "int (length (pages src))"
  let ?c = "min (a + k) ?T - 1"
  have "copy_pages src [a..?c] = Inr (map (\<lambda>i. pages src ! nat i) [a..?c])"
    using assms by (intro copy_pages_valid) auto
  moreover have "map (\<lambda>i. pages src ! nat i) [a..?c]
                   = take (nat (?c + 1) - nat a) (drop (nat a) (pages src))"
    using assms by (intro map_nth_upto_slice) auto
  moreover have "nat (?c + 1) - nat a = min (nat a + nat k) (length (pages src)) - nat a"
    using assms by (simp add: min_def nat_add_distrib)
  ultimately show ?thesis
    by (simp add: page_loop_closed add_copies_def pdf_create_eq take_min_drop)
qed

lemma size_loop_closed:
  "T = length (pages src) \<Longrightarrow> 0 \<le> k \<Longrightarrow> 0 \<le> i \<Longrightarrow>
   size_loop src T parts k i =
     Inr (map (\<lambda>j. \<lparr>pages = take (nat k) (drop (nat (j * k)) (pages src))\<rparr>) [i..parts - 1])"
proof (induction src T parts k i rule: size_loop.induct)
  case (1 src T parts k i)
  show ?case
  proof (cases "i < parts")
    case True
    have part: "page_loop src (i * k) (min (i * k + k) (int T)) pdf_create
                  = Inr \<lparr>pages = take (nat k) (drop (nat (i * k)) (pages src))\<rparr>"
      using "1.prems" size_part_closed [of k "i * k" src] by simp
    have rng: "[i..parts - 1] = i # [i + 1..parts - 1]"
      using True by (simp add: upto_rec1)
    have IH: "size_loop src T parts k (i + 1) =
      Inr (map (\<lambda>j. \<lparr>pages = take (nat k) (drop (nat (j * k)) (pages src))\<rparr>) [i + 1..parts - 1])"
      using "1"(1) [OF True refl refl refl part] "1.prems" by simp
    show ?thesis
      unfolding size_loop.simps [of src T parts k i]
      using True by (simp add: part rng IH)
  next
    case False
    then show ?thesis
      by (simp add: size_loop.simps [of src T parts k i])
  qed
qed

subsection \<open>Split by size in closed form\<close>

text \<open>\<^verbatim>\<open>pagesPerPart\<close> as a count, for a positive part count.\<close>

abbreviation pages_per_part :: "'pg pdf_doc \<Rightarrow> int \<Rightarrow> nat" where
  "pages_per_part src P \<equiv> nat (js_ceil_div (get_page_count src) P)"

lemma split_by_size_closed:
  assumes "js_parseInt numParts = Some P" and "0 < P"
  shows "split_by_size src numParts =
           Inr (map (\<lambda>j. \<lparr>pages = take (pages_per_part src P)
                                   (drop (j * pages_per_part src P) (pages src))\<rparr>) [0..<nat P])"
proof -
  let ?k = "js_ceil_div (get_page_count src) P"
  let ?f = "\<lambda>j. \<lparr>pages = take (nat ?k) (drop (j * nat ?k) (pages src))\<rparr>"
  have k: "0 \<le> ?k"
    using assms(2) by (rule js_ceil_div_nonneg)
  have "split_by_size src numParts =
          Inr (map (\<lambda>j. \<lparr>pages = take (nat ?k) (drop (nat (j * ?k)) (pages src))\<rparr>) [0..P - 1])"
    using assms k by (simp add: split_by_size_def size_loop_closed get_page_count_def Let_def)
  also have "map (\<lambda>j. \<lparr>pages = take (nat ?k) (drop (nat (j * ?k)) (pages src))\<rparr>) [0..P - 1]
               = map ?f (map nat [0..P - 1])"
    using k by (auto simp: nat_mult_distrib)
  also have "map nat [0..P - 1] = [0..<nat P]"
    using map_nat_upto [of 0 "P - 1"] by simp
  finally show ?thesis .
qed

lemma split_by_size_nonpositive:
  "js_parseInt numParts = Some P \<Longrightarrow> P \<le> 0 \<Longrightarrow> split_by_size src numParts = Inr []"
  by (simp add: split_by_size_def size_loop.simps)

lemma split_by_size_nan:
  "js_parseInt numParts = None \<Longrightarrow> split_by_size src numParts = Inr []"
  by (simp add: split_by_size_def)

lemma pages_per_part_covers:
  "0 < P \<Longrightarrow> get_page_count src \<le> nat P * pages_per_part src P"
proof -
  assume P: "0 < P"
  have "int (get_page_count src) \<le> P * js_ceil_div (get_page_count src) P"
    using P by (rule js_ceil_div_covers)
  then show ?thesis
    using P js_ceil_div_nonneg [OF P, of "get_page_count src"]
    by (simp add: nat_mult_distrib [symmetric] le_nat_iff)
qed

lemma split_by_size_lengths:
  assumes "js_parseInt numParts = Some P" and "0 < P"
  shows "split_by_size src numParts =
           Inr parts \<Longrightarrow> map (\<lambda>p. length (pages p)) parts
             = map (\<lambda>j. min (pages_per_part src P) (get_page_count src - j * pages_per_part src P))
                   [0..<nat P]"
  using assms by (auto simp: split_by_size_closed get_page_count_def)

subsection \<open>Properties of split by size\<close>

text \<open>
  C12. For a part count \<open>P \<ge> 1\<close>, split by size makes exactly \<open>P\<close> documents;
  document \<open>j\<close> holds the \<open>pagesPerPart = ceil(totalPages / P)\<close> source pages from
  \<open>j * pagesPerPart\<close> on, fewer at the end of the source, none past it.
\<close>

theorem split_by_size_slices:
  assumes "js_parseInt numParts = Some P" and "0 < P"
  shows "split_by_size src numParts =
           Inr (map (\<lambda>j. \<lparr>pages = take (pages_per_part src P)
                                   (drop (j * pages_per_part src P) (pages src))\<rparr>) [0..<nat P])"
  using assms by (rule split_by_size_closed)

theorem split_by_size_slices_witness:
  "js_parseInt ''2'' = Some 2 \<and> (0::int) < 2
   \<and> split_by_size \<lparr>pages = [10, 20, 30 :: nat]\<rparr> ''2''
       = Inr [\<lparr>pages = [10, 20]\<rparr>, \<lparr>pages = [30]\<rparr>]"
proof -
  have h: "js_parseInt ''2'' = Some 2" "(0::int) < 2"
    by (simp_all add: model_eval)
  show ?thesis
    using split_by_size_slices [OF h, of "\<lparr>pages = [10, 20, 30 :: nat]\<rparr>"] h
    by (simp add: js_ceil_div_int get_page_count_def upt_rec)
qed

lemma concat_split_by_size:
  assumes "split_by_size src numParts = Inr parts"
    and "js_parseInt numParts = Some P" and "0 < P"
  shows "concat (map pages parts) = pages src"
proof -
  let ?k = "pages_per_part src P"
  have "parts = map (\<lambda>j. \<lparr>pages = take ?k (drop (j * ?k) (pages src))\<rparr>) [0..<nat P]"
    using assms(1) by (auto simp: split_by_size_closed [OF assms(2,3)])
  then have "concat (map pages parts) = take (nat P * ?k) (pages src)"
    by (simp add: comp_def concat_chunks)
  also have "\<dots> = pages src"
    using pages_per_part_covers [OF assms(3), of src] by (simp add: get_page_count_def)
  finally show ?thesis .
qed

text \<open>
  C13. Spec section 8: for a part count \<open>P \<ge> 1\<close>, the parts of split by size,
  joined in order, are the source's page sequence: every page once, in order.
\<close>

theorem split_by_size_concat:
  assumes "split_by_size src numParts = Inr parts"
    and "js_parseInt numParts = Some P" and "0 < P"
  shows "concat (map pages parts) = pages src"
  using assms by (rule concat_split_by_size)

theorem split_by_size_concat_witness:
  "split_by_size \<lparr>pages = [10, 20, 30 :: nat]\<rparr> ''2'' = Inr [\<lparr>pages = [10, 20]\<rparr>, \<lparr>pages = [30]\<rparr>]
   \<and> js_parseInt ''2'' = Some 2 \<and> (0::int) < 2
   \<and> concat (map pages [\<lparr>pages = [10, 20 :: nat]\<rparr>, \<lparr>pages = [30]\<rparr>]) = [10, 20, 30]"
proof -
  have h: "split_by_size \<lparr>pages = [10, 20, 30 :: nat]\<rparr> ''2''
             = Inr [\<lparr>pages = [10, 20]\<rparr>, \<lparr>pages = [30]\<rparr>]"
    "js_parseInt ''2'' = Some 2" "(0::int) < 2"
    by (simp_all add: model_eval js_ceil_div_int size_loop.simps page_loop.simps)
  show ?thesis
    using split_by_size_concat [OF h] h by simp
qed

text \<open>
  C14. Split by size never throws: every page index it copies lies inside the source,
  whatever the part count string is.
\<close>

theorem split_by_size_never_throws:
  "\<exists>parts. split_by_size src numParts = Inr parts"
proof (cases "js_parseInt numParts")
  case None
  then show ?thesis by (simp add: split_by_size_nan)
next
  case (Some P)
  then show ?thesis
    by (cases "0 < P") (simp_all add: split_by_size_closed split_by_size_nonpositive)
qed

text \<open>
  C15. The number of documents split by size makes is the part count when it is
  positive, and 0 when \<^verbatim>\<open>parseInt\<close> reads a count of 0 or less or no number at
  all; the request still succeeds then, with an empty archive (the spec requires
  \<open>P \<ge> 1\<close> and does not say what happens otherwise).
\<close>

theorem split_by_size_count:
  "split_by_size src numParts = Inr parts \<Longrightarrow>
   length parts = (case js_parseInt numParts of None \<Rightarrow> 0 | Some P \<Rightarrow> nat P)"
proof (cases "js_parseInt numParts")
  case None
  then show "split_by_size src numParts = Inr parts \<Longrightarrow> ?thesis"
    by (simp add: split_by_size_nan)
next
  case (Some P)
  then show "split_by_size src numParts = Inr parts \<Longrightarrow> ?thesis"
    by (cases "0 < P") (auto simp: split_by_size_closed split_by_size_nonpositive)
qed

theorem split_by_size_count_witness:
  "split_by_size \<lparr>pages = [10, 20, 30 :: nat]\<rparr> ''0'' = Inr []
   \<and> length ([] :: nat pdf_doc list) = (case js_parseInt ''0'' of None \<Rightarrow> 0 | Some P \<Rightarrow> nat P)"
proof -
  have h: "split_by_size \<lparr>pages = [10, 20, 30 :: nat]\<rparr> ''0'' = Inr []"
    by (simp add: model_eval size_loop.simps)
  show ?thesis
    using split_by_size_count [OF h] h by simp
qed

text \<open>
  C16. Document \<open>j\<close> of split by size holds
  \<open>min pagesPerPart (totalPages - j * pagesPerPart)\<close> pages.
\<close>

theorem split_by_size_part_length:
  assumes "split_by_size src numParts = Inr parts"
    and "js_parseInt numParts = Some P" and "j < length parts"
  shows "length (pages (parts ! j)) =
           min (pages_per_part src P) (get_page_count src - j * pages_per_part src P)"
proof -
  have P: "0 < P"
  proof (rule ccontr)
    assume "\<not> 0 < P"
    then have "parts = []"
      using assms(1) split_by_size_nonpositive [OF assms(2), of src] by simp
    then show False
      using assms(3) by simp
  qed
  have "parts = map (\<lambda>j. \<lparr>pages = take (pages_per_part src P)
                                   (drop (j * pages_per_part src P) (pages src))\<rparr>) [0..<nat P]"
    using assms(1) by (auto simp: split_by_size_closed [OF assms(2) P])
  then show ?thesis
    using assms(3) by (simp add: get_page_count_def)
qed

theorem split_by_size_part_length_witness:
  "split_by_size \<lparr>pages = [10, 20, 30 :: nat]\<rparr> ''2'' = Inr [\<lparr>pages = [10, 20]\<rparr>, \<lparr>pages = [30]\<rparr>]
   \<and> js_parseInt ''2'' = Some 2 \<and> 1 < length [\<lparr>pages = [10, 20 :: nat]\<rparr>, \<lparr>pages = [30]\<rparr>]
   \<and> length (pages ([\<lparr>pages = [10, 20 :: nat]\<rparr>, \<lparr>pages = [30]\<rparr>] ! 1)) = min 2 (3 - 1 * 2)"
proof -
  have h: "split_by_size \<lparr>pages = [10, 20, 30 :: nat]\<rparr> ''2''
             = Inr [\<lparr>pages = [10, 20]\<rparr>, \<lparr>pages = [30]\<rparr>]"
    "js_parseInt ''2'' = Some 2" "1 < length [\<lparr>pages = [10, 20 :: nat]\<rparr>, \<lparr>pages = [30]\<rparr>]"
    by (simp_all add: model_eval js_ceil_div_int size_loop.simps page_loop.simps)
  show ?thesis
    using split_by_size_part_length [OF h] h by (simp add: js_ceil_div_int get_page_count_def)
qed

text \<open>
  Spec section 8: 4 parts of a 10-page document have 3, 3, 3 and 1 pages.
\<close>

theorem split_by_size_scenario:
  assumes "get_page_count src = 10" and "split_by_size src ''4'' = Inr parts"
  shows "map (\<lambda>p. length (pages p)) parts = [3, 3, 3, 1]"
proof -
  have "js_parseInt ''4'' = Some 4"
    by (simp add: model_eval)
  from split_by_size_lengths [OF this _ assms(2)] show ?thesis
    using assms(1) by (simp add: js_ceil_div_int upt_rec)
qed

theorem split_by_size_scenario_witness:
  "get_page_count \<lparr>pages = [1..<11]\<rparr> = 10
   \<and> split_by_size \<lparr>pages = [1..<11]\<rparr> ''4''
       = Inr [\<lparr>pages = [1, 2, 3]\<rparr>, \<lparr>pages = [4, 5, 6]\<rparr>, \<lparr>pages = [7, 8, 9]\<rparr>, \<lparr>pages = [10]\<rparr>]
   \<and> map (\<lambda>p. length (pages p))
       [\<lparr>pages = [1, 2, 3 :: nat]\<rparr>, \<lparr>pages = [4, 5, 6]\<rparr>, \<lparr>pages = [7, 8, 9]\<rparr>, \<lparr>pages = [10]\<rparr>]
     = [3, 3, 3, 1]"
proof -
  have h: "get_page_count \<lparr>pages = [1..<11]\<rparr> = 10"
    "split_by_size \<lparr>pages = [1..<11]\<rparr> ''4''
       = Inr [\<lparr>pages = [1, 2, 3]\<rparr>, \<lparr>pages = [4, 5, 6]\<rparr>, \<lparr>pages = [7, 8, 9]\<rparr>, \<lparr>pages = [10]\<rparr>]"
    by (simp_all add: model_eval js_ceil_div_int size_loop.simps page_loop.simps upt_rec)
  show ?thesis
    using split_by_size_scenario [OF h] h by simp
qed

text \<open>
  Spec sections 4.2 and 8 say every part has \<open>ceil(T/P)\<close> pages except possibly
  the last. With 7 parts of a 10-page document the code makes parts of 2, 2, 2, 2, 2,
  0 and 0 pages: two parts, not one, fall short, though 7 does not exceed the page
  count.
\<close>

theorem split_by_size_two_empty_parts:
  assumes "get_page_count src = 10" and "split_by_size src ''7'' = Inr parts"
  shows "map (\<lambda>p. length (pages p)) parts = [2, 2, 2, 2, 2, 0, 0]"
proof -
  have "js_parseInt ''7'' = Some 7"
    by (simp add: model_eval)
  from split_by_size_lengths [OF this _ assms(2)] show ?thesis
    using assms(1) by (simp add: js_ceil_div_int upt_rec)
qed

theorem split_by_size_two_empty_parts_witness:
  "get_page_count \<lparr>pages = [1..<11]\<rparr> = 10
   \<and> split_by_size \<lparr>pages = [1..<11]\<rparr> ''7''
       = Inr [\<lparr>pages = [1, 2]\<rparr>, \<lparr>pages = [3, 4]\<rparr>, \<lparr>pages = [5, 6]\<rparr>, \<lparr>pages = [7, 8]\<rparr>,
              \<lparr>pages = [9, 10]\<rparr>, \<lparr>pages = []\<rparr>, \<lparr>pages = []\<rparr>]
   \<and> map (\<lambda>p. length (pages p))
       [\<lparr>pages = [1, 2 :: nat]\<rparr>, \<lparr>pages = [3, 4]\<rparr>, \<lparr>pages = [5, 6]\<rparr>, \<lparr>pages = [7, 8]\<rparr>,
        \<lparr>pages = [9, 10]\<rparr>, \<lparr>pages = []\<rparr>, \<lparr>pages = []\<rparr>]
     = [2, 2, 2, 2, 2, 0, 0]"
proof -
  have h: "get_page_count \<lparr>pages = [1..<11]\<rparr> = 10"
    "split_by_size \<lparr>pages = [1..<11]\<rparr> ''7''
       = Inr [\<lparr>pages = [1, 2]\<rparr>, \<lparr>pages = [3, 4]\<rparr>, \<lparr>pages = [5, 6]\<rparr>, \<lparr>pages = [7, 8]\<rparr>,
              \<lparr>pages = [9, 10]\<rparr>, \<lparr>pages = []\<rparr>, \<lparr>pages = []\<rparr>]"
    by (simp_all add: model_eval js_ceil_div_int size_loop.simps page_loop.simps upt_rec Let_def)
  show ?thesis
    using split_by_size_two_empty_parts [OF h] h by simp
qed

end
