(* ===== verification/Merge.thy ===== *)
theory Merge
  imports Pdf_Doc
begin

text \<open>
  Merge, the document part of the \<^verbatim>\<open>/api/merge\<close> handler (\<^verbatim>\<open>src/server.js\<close>,
  lines 154 to 192): fewer than two uploads are refused with status 400; otherwise each
  upload in turn is loaded, all its pages are copied, and they are appended to one new
  document. A file that does not load aborts the request. The lemmas show that the
  result is the concatenation of the sources' pages in upload order and characterise
  when the request fails.
\<close>

subsection \<open>The code\<close>

text \<open>
  The loop of lines 164 to 172: \<^verbatim>\<open>PDFDocument.load\<close>, \<^verbatim>\<open>copyPages\<close> of
  \<^verbatim>\<open>pdf.getPageIndices()\<close>, and \<^verbatim>\<open>addPage\<close> for each copied page.
\<close>

fun merge_loop :: "'pg pdf_doc \<Rightarrow> 'pg file_data list \<Rightarrow> 'pg pdf_doc result" where
  "merge_loop mergedPdf [] = Inr mergedPdf"
| "merge_loop mergedPdf (file # files) =
     (case pdf_load file of
        Inl e \<Rightarrow> Inl e
      | Inr pdf \<Rightarrow>
          (case copy_pages pdf (get_page_indices pdf) of
             Inl e \<Rightarrow> Inl e
           | Inr copiedPages \<Rightarrow> merge_loop (foldl add_page mergedPdf copiedPages) files))"

text \<open>Lines 158 to 162: the guard on the number of uploads, then the loop.\<close>

definition merge_message :: string where
  "merge_message = ''At least 2 files required for merging''"

definition merge_pdfs :: "'pg file_data list \<Rightarrow> 'pg pdf_doc result" where
  "merge_pdfs files =
     (if length files < 2 then Inl (Bad_request merge_message)
      else merge_loop pdf_create files)"

declare merge_pdfs_def [model_eval] merge_message_def [model_eval]

subsection \<open>The loop in closed form\<close>

text \<open>A document file is \<^verbatim>\<open>Pdf_bytes\<close>; anything else fails to load.\<close>

fun is_pdf :: "'pg file_data \<Rightarrow> bool" where
  "is_pdf (Pdf_bytes _) = True"
| "is_pdf (Other_bytes _) = False"

fun file_pages :: "'pg file_data \<Rightarrow> 'pg list" where
  "file_pages (Pdf_bytes ps) = ps"
| "file_pages (Other_bytes _) = []"

lemma pages_foldl_add_page: "pages (foldl add_page d ps) = pages d @ ps"
  by (induction ps arbitrary: d) auto

lemma foldl_add_page: "foldl add_page d ps = d\<lparr>pages := pages d @ ps\<rparr>"
  by (simp add: pages_foldl_add_page [symmetric])

lemma merge_loop_closed:
  "merge_loop acc files =
     (if list_all is_pdf files then Inr (acc\<lparr>pages := pages acc @ concat (map file_pages files)\<rparr>)
      else Inl Format_error)"
proof (induction files arbitrary: acc)
  case Nil
  then show ?case by simp
next
  case (Cons f fs)
  show ?case
  proof (cases f)
    case (Pdf_bytes ps)
    have "copy_pages \<lparr>pages = ps\<rparr> (get_page_indices \<lparr>pages = ps\<rparr>) = Inr ps"
      using copy_pages_all_pages [of "\<lparr>pages = ps\<rparr>"] by simp
    then show ?thesis
      using Cons Pdf_bytes by (simp add: pdf_load_def foldl_add_page)
  next
    case (Other_bytes s)
    then show ?thesis by (simp add: pdf_load_def)
  qed
qed

lemma merge_pdfs_closed:
  "merge_pdfs files =
     (if length files < 2 then Inl (Bad_request merge_message)
      else if list_all is_pdf files then Inr \<lparr>pages = concat (map file_pages files)\<rparr>
      else Inl Format_error)"
  by (simp add: merge_pdfs_def merge_loop_closed pdf_create_eq)

lemma file_pages_save [simp]: "file_pages (pdf_save d) = pages d"
  by (simp add: pdf_save_def)

lemma is_pdf_save [simp]: "is_pdf (pdf_save d)"
  by (simp add: pdf_save_def)

subsection \<open>Properties of merge\<close>

text \<open>
  C19. Merging two or more documents gives one document holding every page of every
  source, sources in upload order and each source's pages in their own order; the
  sources are not changed (they are values).
\<close>

theorem merge_concat:
  assumes "2 \<le> length docs"
  shows "merge_pdfs (map pdf_save docs) = Inr \<lparr>pages = concat (map pages docs)\<rparr>"
  using assms by (simp add: merge_pdfs_closed list_all_iff comp_def)

theorem merge_concat_witness:
  "2 \<le> length [\<lparr>pages = [1, 2 :: nat]\<rparr>, \<lparr>pages = []\<rparr>, \<lparr>pages = [3]\<rparr>]
   \<and> merge_pdfs [Pdf_bytes [1, 2 :: nat], Pdf_bytes [], Pdf_bytes [3]] = Inr \<lparr>pages = [1, 2, 3]\<rparr>"
proof -
  have h: "2 \<le> length [\<lparr>pages = [1, 2 :: nat]\<rparr>, \<lparr>pages = []\<rparr>, \<lparr>pages = [3]\<rparr>]"
    by simp
  show ?thesis
    using merge_concat [OF h] h by (simp add: pdf_save_def)
qed

text \<open>
  Spec section 8: merging documents A and B gives a document of exactly
  \<open>a + b\<close> pages, those of A and then those of B.
\<close>

theorem merge_two:
  "\<exists>m. merge_pdfs [pdf_save a, pdf_save b] = Inr m
       \<and> pages m = pages a @ pages b
       \<and> get_page_count m = get_page_count a + get_page_count b"
  by (simp add: merge_pdfs_closed get_page_count_def)

text \<open>
  C21. A merge request with fewer than two uploads is refused with the message
  \<^verbatim>\<open>At least 2 files required for merging\<close> (status 400), whatever the uploads.
\<close>

theorem merge_too_few:
  "length files < 2 \<Longrightarrow> merge_pdfs files = Inl (Bad_request ''At least 2 files required for merging'')"
  by (simp add: merge_pdfs_def merge_message_def)

theorem merge_too_few_witness:
  "length [Pdf_bytes [1, 2 :: nat]] < 2
   \<and> merge_pdfs [Pdf_bytes [1, 2 :: nat]] = Inl (Bad_request ''At least 2 files required for merging'')"
proof -
  have h: "length [Pdf_bytes [1, 2 :: nat]] < 2" by simp
  show ?thesis using merge_too_few [OF h] h by simp
qed

text \<open>
  C22. A merge of two or more uploads succeeds exactly when every upload is a PDF; if
  any is not, the request fails with the loader's exception and produces no document.
\<close>

theorem merge_fails_iff:
  assumes "2 \<le> length files"
  shows "merge_pdfs files = Inl Format_error \<longleftrightarrow> (\<exists>f \<in> set files. \<not> is_pdf f)"
  using assms by (auto simp: merge_pdfs_closed list_all_iff)

theorem merge_fails_iff_witness:
  "2 \<le> length [Pdf_bytes [1 :: nat], Other_bytes ''txt'']
   \<and> merge_pdfs [Pdf_bytes [1 :: nat], Other_bytes ''txt''] = Inl Format_error
   \<and> \<not> is_pdf (Other_bytes ''txt'' :: nat file_data)"
proof -
  have h: "2 \<le> length [Pdf_bytes [1 :: nat], Other_bytes ''txt'']" by simp
  show ?thesis using merge_fails_iff [OF h] h by simp
qed

end
