(* ===== verification/Node_Path.thy ===== *)
theory Node_Path
  imports JS_Builtins
begin

text \<open>
  The string functions the convert, compress and image handlers apply to the name of
  the upload: \<^verbatim>\<open>path.extname(file.originalname).slice(1).toLowerCase()\<close>
  (\<^verbatim>\<open>src/server.js\<close>, lines 77, 298 and 430). \<^verbatim>\<open>path.extname\<close> is Node's
  POSIX implementation, translated loop for loop: it scans the name from its end, skips
  trailing slashes, stops at the slash that begins the last component, and remembers the
  last dot and what lies before it. Case mapping is that of the ASCII letters; the
  characters of the model are bytes, so the Unicode case mapping of other letters is
  not modelled. The main lemma shows the loop equal, on a name without a slash, to a
  declarative reference: the suffix from the last dot, unless that dot begins the name
  or the name is \<^verbatim>\<open>..\<close>.
\<close>

subsection \<open>The code\<close>

text \<open>The variables of the loop of \<^verbatim>\<open>extname\<close>.\<close>

record extname_state =
  startDot :: int
  startPart :: int
  endPos :: int
  matchedSlash :: bool
  preDotState :: int

text \<open>The body of the loop for a character that is not a slash, at index \<open>i\<close>.\<close>

definition extname_body :: "char \<Rightarrow> nat \<Rightarrow> extname_state \<Rightarrow> extname_state" where
  "extname_body code i st =
     (let st1 = (if endPos st = -1 then st\<lparr>matchedSlash := False, endPos := int i + 1\<rparr> else st)
      in if code = CHR ''.'' then
           (if startDot st1 = -1 then st1\<lparr>startDot := int i\<rparr>
            else if preDotState st1 \<noteq> 1 then st1\<lparr>preDotState := 1\<rparr>
            else st1)
         else if startDot st1 \<noteq> -1 then st1\<lparr>preDotState := -1\<rparr>
         else st1)"

text \<open>\<^verbatim>\<open>for (let i = path.length - 1; i >= 0; --i)\<close>: the argument \<open>k\<close> counts the
  indices still to scan, so the next one is \<open>k - 1\<close>.\<close>

fun extname_loop :: "string \<Rightarrow> nat \<Rightarrow> extname_state \<Rightarrow> extname_state" where
  "extname_loop path 0 st = st"
| "extname_loop path (Suc i) st =
     (if path ! i = CHR ''/'' then
        (if \<not> matchedSlash st then st\<lparr>startPart := int i + 1\<rparr>
         else extname_loop path i st)
      else extname_loop path i (extname_body (path ! i) i st))"

definition extname_init :: extname_state where
  "extname_init = \<lparr>startDot = -1, startPart = 0, endPos = -1, matchedSlash = True, preDotState = 0\<rparr>"

text \<open>\<^verbatim>\<open>path.extname\<close>: the test after the loop and \<^verbatim>\<open>path.slice(startDot, end)\<close>.\<close>

definition js_extname :: "string \<Rightarrow> string" where
  "js_extname path =
     (let st = extname_loop path (length path) extname_init in
      if startDot st = -1 \<or> endPos st = -1 \<or> preDotState st = 0
         \<or> (preDotState st = 1 \<and> startDot st = endPos st - 1 \<and> startDot st = startPart st + 1)
      then ''''
      else take (nat (endPos st) - nat (startDot st)) (drop (nat (startDot st)) path))"

text \<open>\<^verbatim>\<open>String.prototype.toLowerCase\<close> and \<^verbatim>\<open>toUpperCase\<close> on ASCII letters.\<close>

definition ascii_upper :: string where
  "ascii_upper = ''ABCDEFGHIJKLMNOPQRSTUVWXYZ''"

definition ascii_lower :: string where
  "ascii_lower = ''abcdefghijklmnopqrstuvwxyz''"

definition js_lower_char :: "char \<Rightarrow> char" where
  "js_lower_char c = (case map_of (zip ascii_upper ascii_lower) c of Some l \<Rightarrow> l | None \<Rightarrow> c)"

definition js_upper_char :: "char \<Rightarrow> char" where
  "js_upper_char c = (case map_of (zip ascii_lower ascii_upper) c of Some u \<Rightarrow> u | None \<Rightarrow> c)"

definition js_toLowerCase :: "string \<Rightarrow> string" where
  "js_toLowerCase s = map js_lower_char s"

definition js_toUpperCase :: "string \<Rightarrow> string" where
  "js_toUpperCase s = map js_upper_char s"

text \<open>Line 77 (and 298, 430): the extension of the upload's name, without its dot,
  in lower case.\<close>

definition file_ext :: "string \<Rightarrow> string" where
  "file_ext originalname = js_toLowerCase (drop 1 (js_extname originalname))"

text \<open>The reference: the indices of the dots of a name, and the suffix from the last.\<close>

definition dot_indices :: "string \<Rightarrow> nat \<Rightarrow> nat list" where
  "dot_indices path m = filter (\<lambda>i. path ! i = CHR ''.'') [m..<length path]"

definition ext_ref :: "string \<Rightarrow> string" where
  "ext_ref name =
     (case dot_indices name 0 of
        [] \<Rightarrow> ''''
      | ds \<Rightarrow> if last ds = 0 \<or> name = ''..'' then '''' else drop (last ds) name)"

text \<open>The state of the loop once it has scanned the indices from \<open>m\<close> on, for a name
  without a slash.\<close>

definition ext_closed :: "string \<Rightarrow> nat \<Rightarrow> extname_state" where
  "ext_closed path m =
     (let D = dot_indices path m in
      \<lparr>startDot = (if D = [] then -1 else int (last D)), startPart = 0,
       endPos = (if m < length path then int (length path) else -1),
       matchedSlash = (length path \<le> m),
       preDotState = (if D = [] \<or> last D = m then 0 else if path ! m = CHR ''.'' then 1 else -1)\<rparr>)"

declare ascii_upper_def [model_eval] ascii_lower_def [model_eval] extname_body_def [model_eval] extname_init_def [model_eval] js_extname_def [model_eval]
  js_lower_char_def [model_eval] js_upper_char_def [model_eval] js_toLowerCase_def [model_eval]
  js_toUpperCase_def [model_eval] file_ext_def [model_eval]

subsection \<open>The loop against the reference\<close>

lemma extname_loop_foldr:
  "CHR ''/'' \<notin> set (take k path) \<Longrightarrow> k \<le> length path \<Longrightarrow>
   extname_loop path k st = foldr (\<lambda>i. extname_body (path ! i) i) [0..<k] st"
proof (induction k arbitrary: st)
  case 0
  then show ?case by simp
next
  case (Suc k)
  have "path ! k \<noteq> CHR ''/''"
    using Suc.prems by (auto simp: take_Suc_conv_app_nth)
  moreover have "CHR ''/'' \<notin> set (take k path)"
    using Suc.prems by (auto simp: take_Suc_conv_app_nth)
  ultimately show ?case
    using Suc by simp
qed

lemma dot_indices_Cons:
  "m < length path \<Longrightarrow> dot_indices path m =
     (if path ! m = CHR ''.'' then m # dot_indices path (Suc m) else dot_indices path (Suc m))"
  by (simp add: dot_indices_def upt_conv_Cons)

lemma dot_indices_ge: "i \<in> set (dot_indices path m) \<Longrightarrow> m \<le> i \<and> i < length path \<and> path ! i = CHR ''.''"
  by (simp add: dot_indices_def)

lemma last_dot_indices_ge:
  "dot_indices path m \<noteq> [] \<Longrightarrow> m \<le> last (dot_indices path m) \<and> last (dot_indices path m) < length path
     \<and> path ! last (dot_indices path m) = CHR ''.''"
  using dot_indices_ge last_in_set by blast

lemma ext_closed_step:
  assumes "m < length path"
  shows "extname_body (path ! m) m (ext_closed path (Suc m)) = ext_closed path m"
proof -
  let ?D = "dot_indices path (Suc m)"
  have D: "dot_indices path m = (if path ! m = CHR ''.'' then m # ?D else ?D)"
    using assms by (rule dot_indices_Cons)
  have ge: "?D \<noteq> [] \<Longrightarrow> Suc m \<le> last ?D"
    using last_dot_indices_ge by blast
  show ?thesis
  proof (cases "path ! m = CHR ''.''")
    case True
    then show ?thesis
      using assms D ge by (cases "?D = []") (auto simp: extname_body_def ext_closed_def Let_def)
  next
    case False
    then show ?thesis
      using assms D ge by (cases "?D = []") (auto simp: extname_body_def ext_closed_def Let_def)
  qed
qed

lemma ext_closed_end: "ext_closed path (length path) = extname_init"
  by (simp add: ext_closed_def extname_init_def dot_indices_def)

lemma foldr_extname_body:
  "m \<le> length path \<Longrightarrow>
   foldr (\<lambda>i. extname_body (path ! i) i) [m..<length path] extname_init = ext_closed path m"
proof (induction "length path - m" arbitrary: m)
  case 0
  then have "m = length path" by simp
  then show ?case by (simp add: ext_closed_end)
next
  case (Suc k)
  then have "m < length path" by simp
  then show ?case
    using Suc ext_closed_step [of m path] by (simp add: upt_conv_Cons)
qed

lemma extname_loop_closed:
  "CHR ''/'' \<notin> set path \<Longrightarrow> extname_loop path (length path) extname_init = ext_closed path 0"
  using extname_loop_foldr [of "length path" path extname_init] foldr_extname_body [of 0 path]
  by simp

lemma two_dots:
  assumes "length path = 2" "path ! 0 = CHR ''.''" "path ! 1 = CHR ''.''"
  shows "path = ''..''"
proof -
  obtain a b where "path = [a, b]"
    using assms(1) by (cases path; cases "tl path") auto
  then show ?thesis using assms by simp
qed

lemma ext_ref_dots:
  "dot_indices name 0 \<noteq> [] \<Longrightarrow>
   ext_ref name = (if last (dot_indices name 0) = 0 \<or> name = ''..'' then '''' else drop (last (dot_indices name 0)) name)"
  by (simp add: ext_ref_def split: list.split)

lemma dot_dot_last:
  assumes "dot_indices name 0 \<noteq> []" "last (dot_indices name 0) \<noteq> 0"
  shows "(name ! 0 = CHR ''.'' \<and> int (last (dot_indices name 0)) = int (length name) - 1
           \<and> int (last (dot_indices name 0)) = 0 + 1) \<longleftrightarrow> name = ''..''"
proof
  assume h: "name ! 0 = CHR ''.'' \<and> int (last (dot_indices name 0)) = int (length name) - 1
           \<and> int (last (dot_indices name 0)) = 0 + 1"
  have "name ! last (dot_indices name 0) = CHR ''.''"
    using last_dot_indices_ge [OF assms(1)] by blast
  then show "name = ''..''"
    using h by (intro two_dots) simp_all
next
  assume "name = ''..''"
  then show "name ! 0 = CHR ''.'' \<and> int (last (dot_indices name 0)) = int (length name) - 1
           \<and> int (last (dot_indices name 0)) = 0 + 1"
    by (simp add: dot_indices_def upt_rec)
qed


subsection \<open>Equivalence with the reference\<close>

lemma js_extname_ref: "CHR ''/'' \<notin> set name \<Longrightarrow> js_extname name = ext_ref name"
proof -
  assume ns: "CHR ''/'' \<notin> set name"
  have st: "extname_loop name (length name) extname_init = ext_closed name 0"
    using ns by (rule extname_loop_closed)
  show ?thesis
  proof (cases "dot_indices name 0 = []")
    case True
    then show ?thesis by (simp add: js_extname_def st ext_closed_def ext_ref_def)
  next
    case False
    let ?d = "last (dot_indices name 0)"
    have d: "?d < length name"
      using last_dot_indices_ge [OF False] by blast
    show ?thesis
    proof (cases "?d = 0")
      case True
      then show ?thesis
        using False d by (simp add: js_extname_def st ext_closed_def ext_ref_dots Let_def)
    next
      case nz: False
      have j: "js_extname name = (if name ! 0 = CHR ''.'' \<and> int ?d = int (length name) - 1
          \<and> int ?d = 0 + 1 then '''' else drop ?d name)"
        using False d nz by (simp add: js_extname_def st ext_closed_def Let_def, cases name, simp_all)
      show ?thesis
        unfolding j dot_dot_last [OF False nz] ext_ref_dots [OF False] using nz by simp
    qed
  qed
qed

text \<open>C36. The extension the convert, compress and image handlers route on
  (line 77): on a name without a slash it is the lower-cased suffix after the last dot,
  and empty when the name has no dot, when its last dot is its first character, or
  when it is \<^verbatim>\<open>..\<close>.\<close>

theorem file_ext_ref:
  "CHR ''/'' \<notin> set name \<Longrightarrow> file_ext name = js_toLowerCase (drop 1 (ext_ref name))"
  by (simp add: file_ext_def js_extname_ref)

theorem file_ext_ref_witness:
  "CHR ''/'' \<notin> set ''report.v2.PDF''
   \<and> file_ext ''report.v2.PDF'' = js_toLowerCase (drop 1 (ext_ref ''report.v2.PDF''))
   \<and> js_toLowerCase (drop 1 (ext_ref ''report.v2.PDF'')) = ''pdf''"
  using file_ext_ref [of "''report.v2.PDF''"]
  by (simp add: ext_ref_def dot_indices_def upt_rec js_toLowerCase_def js_lower_char_def
      ascii_upper_def ascii_lower_def)

end
