(* ===== verification/Sharp.thy ===== *)
theory Sharp
  imports Node_Path
begin

text \<open>
  The image library \<^verbatim>\<open>sharp\<close> as the handlers call it, modelled at its interface
  from its documentation: a pipeline \<^verbatim>\<open>sharp(input).op1(...).op2(...)\<close> is the
  list of its calls. Each call checks its parameters when it is made and throws on a bad
  one. The output format is set by the last call that selects one (\<^verbatim>\<open>toFormat\<close>,
  \<^verbatim>\<open>jpeg\<close>, \<^verbatim>\<open>png\<close>, \<^verbatim>\<open>webp\<close>); with none, \<^verbatim>\<open>toFile\<close> infers it from
  the extension of the output path and throws when it knows none. Pixel data and the
  geometry of images are not modelled: an output is the pipeline applied to its input.
\<close>

text \<open>The calls of the handlers: \<^verbatim>\<open>toFormat(f)\<close>, \<^verbatim>\<open>jpeg({ quality })\<close>,
  \<^verbatim>\<open>png({ quality })\<close>, \<^verbatim>\<open>webp({ quality })\<close> (an \<^verbatim>\<open>undefined\<close> quality is
  \<open>None\<close>), \<^verbatim>\<open>rotate(angle)\<close>, \<^verbatim>\<open>resize(width, height)\<close>,
  \<^verbatim>\<open>extract({ left, top, width, height })\<close>, \<^verbatim>\<open>grayscale()\<close>.\<close>

datatype sharp_op =
    To_format string
  | Jpeg_opts "int option"
  | Png_opts "int option"
  | Webp_opts "int option"
  | Rotate js_int
  | Resize js_int js_int
  | Extract int int int int
  | Grayscale

text \<open>The format names and file suffixes sharp maps to an output format.\<close>

definition sharp_formats :: "(string \<times> string) list" where
  "sharp_formats =
     [(''jpeg'', ''jpeg''), (''jpg'', ''jpeg''), (''jpe'', ''jpeg''), (''png'', ''png''),
      (''webp'', ''webp''), (''gif'', ''gif''), (''tiff'', ''tiff''), (''tif'', ''tiff''),
      (''avif'', ''avif''), (''heif'', ''heif''), (''heic'', ''heif''), (''jp2'', ''jp2''),
      (''jxl'', ''jxl'')]"

definition sharp_format_of :: "string \<Rightarrow> string option" where
  "sharp_format_of f = map_of sharp_formats (js_toLowerCase f)"

text \<open>The format a call selects, if any.\<close>

fun op_format :: "sharp_op \<Rightarrow> string option" where
  "op_format (To_format f) = sharp_format_of f"
| "op_format (Jpeg_opts _) = Some ''jpeg''"
| "op_format (Png_opts _) = Some ''png''"
| "op_format (Webp_opts _) = Some ''webp''"
| "op_format _ = None"

text \<open>The parameter checks of each call (\<^verbatim>\<open>is.integer\<close>, ranges); \<^verbatim>\<open>NaN\<close> is not
  an integer.\<close>

definition sharp_param_error :: "string \<Rightarrow> error" where
  "sharp_param_error name = Library_error (''Expected valid '' @ name)"

definition quality_ok :: "int option \<Rightarrow> bool" where
  "quality_ok q = (case q of None \<Rightarrow> True | Some n \<Rightarrow> 1 \<le> n \<and> n \<le> 100)"

fun op_check :: "sharp_op \<Rightarrow> error option" where
  "op_check (To_format f) = (if sharp_format_of f = None then Some (sharp_param_error ''format'') else None)"
| "op_check (Jpeg_opts q) = (if quality_ok q then None else Some (sharp_param_error ''quality''))"
| "op_check (Png_opts q) = (if quality_ok q then None else Some (sharp_param_error ''quality''))"
| "op_check (Webp_opts q) = (if quality_ok q then None else Some (sharp_param_error ''quality''))"
| "op_check (Rotate a) = (if a = None then Some (sharp_param_error ''angle'') else None)"
| "op_check (Resize w h) =
     (if (case w of Some n \<Rightarrow> 0 < n | None \<Rightarrow> False) then
        (if (case h of Some n \<Rightarrow> 0 < n | None \<Rightarrow> False) then None
         else Some (sharp_param_error ''height''))
      else Some (sharp_param_error ''width''))"
| "op_check (Extract l t w h) =
     (if 0 \<le> l \<and> 0 \<le> t \<and> 0 \<le> w \<and> 0 \<le> h then None else Some (sharp_param_error ''extract''))"
| "op_check Grayscale = None"

text \<open>The first call of a pipeline that throws.\<close>

fun sharp_check :: "sharp_op list \<Rightarrow> error option" where
  "sharp_check [] = None"
| "sharp_check (op # ops) = (case op_check op of Some e \<Rightarrow> Some e | None \<Rightarrow> sharp_check ops)"

text \<open>The format \<^verbatim>\<open>toFile(out)\<close> writes: that of the last selecting call, or the one
  the suffix of the output name gives.\<close>

definition explicit_format :: "sharp_op list \<Rightarrow> string option" where
  "explicit_format ops = (case rev (List.map_filter op_format ops) of [] \<Rightarrow> None | f # _ \<Rightarrow> Some f)"

definition output_format :: "sharp_op list \<Rightarrow> string \<Rightarrow> string option" where
  "output_format ops out =
     (case explicit_format ops of
        Some f \<Rightarrow> Some f
      | None \<Rightarrow> sharp_format_of (drop 1 (js_extname out)))"

definition unsupported_output :: error where
  "unsupported_output = Library_error ''Unsupported output format''"

declare sharp_formats_def [model_eval] sharp_format_of_def [model_eval] sharp_param_error_def [model_eval]
  quality_ok_def [model_eval] explicit_format_def [model_eval] output_format_def [model_eval]
  unsupported_output_def [model_eval]

subsection \<open>Formats\<close>

lemma explicit_format_append_select:
  "op_format op = Some f \<Longrightarrow> explicit_format (ops @ [op]) = Some f"
  by (simp add: explicit_format_def map_filter_def)

lemma output_format_select_last:
  "op_format op = Some f \<Longrightarrow> output_format (ops @ [op]) out = Some f"
  by (simp add: output_format_def explicit_format_append_select)

end
