(* ===== verification/File_Store.thy ===== *)
theory File_Store
  imports Sharp Pdf_Doc "HOL-Library.AList"
begin

text \<open>
  The server's file system and clock, as the handlers of \<^verbatim>\<open>src/server.js\<close> use
  them through \<^verbatim>\<open>fs.promises\<close> and \<^verbatim>\<open>Date.now()\<close>. A path is a directory and a
  file name (\<^verbatim>\<open>path.join(dir, name)\<close>); the store is an association list from paths
  to contents and modification time, the directories that exist are a set, and the clock
  is a number of milliseconds. A handler is a state transformer that may throw: it
  returns the new state and a result, and the state changes made before an exception
  persist, as the files a handler has written before it throws stay on disk. The
  operations are \<^verbatim>\<open>mkdir\<close> (recursive, so it never fails), \<^verbatim>\<open>readFile\<close>,
  \<^verbatim>\<open>writeFile\<close> (rejected with \<^verbatim>\<open>ENOENT\<close> when the directory does not exist),
  \<^verbatim>\<open>unlink\<close>, \<^verbatim>\<open>readdir\<close> and \<^verbatim>\<open>stat\<close>. The request fields and responses that
  all handlers share, and multer's disk storage of uploads (lines 21 to 37), are here.
\<close>

subsection \<open>Store, contents and state\<close>

type_synonym fpath = "string \<times> string"

text \<open>
  File contents: bytes the document codec reads, an archive written by archiver with
  the names of its entries, the output of a text library, named by the library call and
  the contents it was computed from, or an image sharp wrote in a format with a pipeline
  from its input.
\<close>

datatype 'pg blob =
    Bytes "'pg file_data"
  | Archive "string list"
  | Derived string "'pg blob"
  | Sharp_file string "sharp_op list" "'pg blob"

record 'pg fs_state =
  store :: "(fpath \<times> ('pg blob \<times> nat)) list"
  dirs :: "string set"
  clock :: nat

text \<open>\<^verbatim>\<open>PDFDocument.load\<close> and \<^verbatim>\<open>save\<close> on file contents.\<close>

definition blob_load :: "'pg blob \<Rightarrow> 'pg pdf_doc result" where
  "blob_load b = (case b of Bytes d \<Rightarrow> pdf_load d | _ \<Rightarrow> Inl Format_error)"

definition blob_save :: "'pg pdf_doc \<Rightarrow> 'pg blob" where
  "blob_save d = Bytes (pdf_save d)"

type_synonym ('pg, 'a) io = "'pg fs_state \<Rightarrow> 'pg fs_state \<times> 'a result"

subsection \<open>Sequencing with exceptions\<close>

definition io_return :: "'a \<Rightarrow> ('pg, 'a) io" where
  "io_return a = (\<lambda>s. (s, Inr a))"

definition io_lift :: "'a result \<Rightarrow> ('pg, 'a) io" where
  "io_lift r = (\<lambda>s. (s, r))"

definition io_bind :: "('pg, 'a) io \<Rightarrow> ('a \<Rightarrow> ('pg, 'b) io) \<Rightarrow> ('pg, 'b) io" where
  "io_bind m f = (\<lambda>s. case m s of (s', Inl e) \<Rightarrow> (s', Inl e) | (s', Inr a) \<Rightarrow> f a s')"

text \<open>\<^verbatim>\<open>Date.now()\<close>.\<close>

definition date_now :: "('pg, nat) io" where
  "date_now = (\<lambda>s. (s, Inr (clock s)))"

subsection \<open>File system calls\<close>

definition fs_mkdir :: "string \<Rightarrow> ('pg, unit) io" where
  "fs_mkdir d = (\<lambda>s. (s\<lparr>dirs := insert d (dirs s)\<rparr>, Inr ()))"

definition enoent :: error where
  "enoent = Io_error ''ENOENT''"

definition fs_readFile :: "fpath \<Rightarrow> ('pg, 'pg blob) io" where
  "fs_readFile p = (\<lambda>s. case map_of (store s) p of
       None \<Rightarrow> (s, Inl enoent)
     | Some (b, _) \<Rightarrow> (s, Inr b))"

definition fs_writeFile :: "fpath \<Rightarrow> 'pg blob \<Rightarrow> ('pg, unit) io" where
  "fs_writeFile p b = (\<lambda>s.
     if fst p \<in> dirs s then (s\<lparr>store := AList.update p (b, clock s) (store s)\<rparr>, Inr ())
     else (s, Inl enoent))"

definition fs_unlink :: "fpath \<Rightarrow> ('pg, unit) io" where
  "fs_unlink p = (\<lambda>s.
     if map_of (store s) p \<noteq> None then (s\<lparr>store := AList.delete p (store s)\<rparr>, Inr ())
     else (s, Inl enoent))"

definition fs_readdir :: "string \<Rightarrow> ('pg, string list) io" where
  "fs_readdir d = (\<lambda>s.
     if d \<in> dirs s then (s, Inr (map (\<lambda>f. snd (fst f)) (filter (\<lambda>f. fst (fst f) = d) (store s))))
     else (s, Inl enoent))"

text \<open>\<^verbatim>\<open>fs.stat(p).mtimeMs\<close>.\<close>

definition fs_stat_mtime :: "fpath \<Rightarrow> ('pg, nat) io" where
  "fs_stat_mtime p = (\<lambda>s. case map_of (store s) p of
       None \<Rightarrow> (s, Inl enoent)
     | Some (_, t) \<Rightarrow> (s, Inr t))"

text \<open>
  \<^verbatim>\<open>sharp(input).op1(...)...toFile(out)\<close>: the calls check their parameters,
  sharp reads the input, which must be an image (bytes that are not a PDF, or an image
  sharp wrote), and writes it in the output format of the pipeline.
\<close>

definition sharp_input :: "'pg blob \<Rightarrow> bool" where
  "sharp_input b = (case b of Bytes (Other_bytes _) \<Rightarrow> True | Sharp_file _ _ _ \<Rightarrow> True | _ \<Rightarrow> False)"

definition sharp_toFile :: "fpath \<Rightarrow> sharp_op list \<Rightarrow> fpath \<Rightarrow> ('pg, unit) io" where
  "sharp_toFile input ops out =
     (case sharp_check ops of
        Some e \<Rightarrow> io_lift (Inl e)
      | None \<Rightarrow>
          io_bind (fs_readFile input) (\<lambda>b.
          if \<not> sharp_input b then io_lift (Inl (Library_error ''Input file contains unsupported image format''))
          else (case output_format ops (snd out) of
                  None \<Rightarrow> io_lift (Inl unsupported_output)
                | Some f \<Rightarrow> fs_writeFile out (Sharp_file f ops b))))"

subsection \<open>Requests and responses\<close>

text \<open>
  A field of \<^verbatim>\<open>req.body\<close> is a string or \<^verbatim>\<open>undefined\<close> (\<open>None\<close>). It is truthy when
  it is a non-empty string, and a template literal prints \<^verbatim>\<open>undefined\<close> as such.
\<close>

definition js_truthy :: "string option \<Rightarrow> bool" where
  "js_truthy v = (case v of None \<Rightarrow> False | Some s \<Rightarrow> s \<noteq> [])"

definition js_str :: "string option \<Rightarrow> string" where
  "js_str v = (case v of None \<Rightarrow> ''undefined'' | Some s \<Rightarrow> s)"

text \<open>
  \<^verbatim>\<open>parseInt\<close> applied to a field: \<^verbatim>\<open>undefined\<close> is read as the string
  \<^verbatim>\<open>"undefined"\<close>, which is \<^verbatim>\<open>NaN\<close>.
\<close>

definition js_parseInt_field :: "string option \<Rightarrow> js_int" where
  "js_parseInt_field v = js_parseInt (js_str v)"

text \<open>The file object multer hands to a handler (\<^verbatim>\<open>req.file\<close>).\<close>

record upload =
  up_path :: fpath
  originalname :: string

text \<open>
  What a handler answers: \<^verbatim>\<open>res.status(400).json({ error })\<close>,
  \<^verbatim>\<open>res.status(500).json({ error: error.message })\<close> from the \<^verbatim>\<open>catch\<close> block,
  \<^verbatim>\<open>res.json({ success: true, fileName, downloadUrl, message })\<close>, the
  \<^verbatim>\<open>res.json({ status, message })\<close> of the health check, the file of
  \<^verbatim>\<open>downloads\<close> that the static middleware sends, or Express's 404.
\<close>

datatype response =
    Status_400 string
  | Status_500 error
  | Success string string string
  | Status_report string string
  | Static_file string
  | Status_404

definition download_url :: "string \<Rightarrow> string" where
  "download_url n = ''/downloads/'' @ n"

definition no_file_message :: string where
  "no_file_message = ''No file uploaded''"

text \<open>
  The \<^verbatim>\<open>try\<close>/\<^verbatim>\<open>catch\<close> around every handler body: an exception becomes a
  response with status 500, and what the body did before it stays done.
\<close>

definition catch_500 :: "('pg, response) io \<Rightarrow> 'pg fs_state \<Rightarrow> 'pg fs_state \<times> response" where
  "catch_500 body s = (case body s of (s', Inl e) \<Rightarrow> (s', Status_500 e) | (s', Inr r) \<Rightarrow> (s', r))"

subsection \<open>Uploads (multer disk storage)\<close>

text \<open>
  Lines 21 to 32: the destination callback creates \<^verbatim>\<open>uploads\<close> (ignoring errors) and
  the file is named \<^verbatim>\<open>Date.now() + '-' + file.originalname\<close>. The upload size limit
  of line 36 is not modelled (contents have no size).
\<close>

definition multer_store :: "string \<Rightarrow> 'pg blob \<Rightarrow> 'pg fs_state \<Rightarrow> 'pg fs_state \<times> upload" where
  "multer_store name b s =
     (let p = (''uploads'', dec_string (clock s) @ ''-'' @ name);
          s1 = s\<lparr>dirs := insert ''uploads'' (dirs s)\<rparr>
      in (s1\<lparr>store := AList.update p (b, clock s1) (store s1)\<rparr>,
          \<lparr>up_path = p, originalname = name\<rparr>))"

text \<open>\<^verbatim>\<open>upload.array('files')\<close>: the uploads of one request, stored in turn.\<close>

fun multer_store_all :: "(string \<times> 'pg blob) list \<Rightarrow> 'pg fs_state \<Rightarrow> 'pg fs_state \<times> upload list" where
  "multer_store_all [] s = (s, [])"
| "multer_store_all ((name, b) # rest) s =
     (let (s1, u) = multer_store name b s;
          (s2, us) = multer_store_all rest s1
      in (s2, u # us))"

text \<open>
  A response is a success when it is the \<^verbatim>\<open>success: true\<close> object; a run only
  deletes when no file is created or changed between two states.
\<close>

fun is_success :: "response \<Rightarrow> bool" where
  "is_success (Success _ _ _) = True"
| "is_success _ = False"

definition only_deletes :: "'pg fs_state \<Rightarrow> 'pg fs_state \<Rightarrow> bool" where
  "only_deletes s s' = (\<forall>p. map_of (store s') p = None \<or> map_of (store s') p = map_of (store s) p)"

text \<open>
  An action keeps the environment when it creates no directory and does not move the
  clock: every handler step but \<^verbatim>\<open>mkdir\<close> does so.
\<close>

definition keeps_env :: "('pg, 'a) io \<Rightarrow> bool" where
  "keeps_env m = (\<forall>s. dirs (fst (m s)) = dirs s \<and> clock (fst (m s)) = clock s)"

text \<open>
  The two directories the server writes to. A run is fresh when it keeps the clock,
  creates no directory outside them, keeps the paths of the store distinct, and every
  file it leaves that was not there before is new: stamped with the clock and in one of
  the two directories, which exists.
\<close>

definition server_dirs :: "string set" where
  "server_dirs = {''uploads'', ''downloads''}"

definition fresh_step :: "'pg fs_state \<Rightarrow> 'pg fs_state \<Rightarrow> bool" where
  "fresh_step s s' \<longleftrightarrow> clock s' = clock s \<and> dirs s \<subseteq> dirs s'
     \<and> (distinct (map fst (store s)) \<longrightarrow> distinct (map fst (store s')))
     \<and> (\<forall>p v. map_of (store s') p = Some v \<longrightarrow>
          map_of (store s) p = Some v \<or> (snd v = clock s \<and> fst p \<in> dirs s' \<and> fst p \<in> server_dirs))"

definition fresh :: "('pg, 'a) io \<Rightarrow> bool" where
  "fresh m \<longleftrightarrow> (\<forall>s. fresh_step s (fst (m s)))"

declare blob_load_def [model_eval] blob_save_def [model_eval] sharp_input_def [model_eval] sharp_toFile_def [model_eval]
  io_return_def [model_eval] io_lift_def [model_eval] io_bind_def [model_eval]
  date_now_def [model_eval] fs_mkdir_def [model_eval] enoent_def [model_eval]
  fs_readFile_def [model_eval] fs_writeFile_def [model_eval] fs_unlink_def [model_eval]
  fs_readdir_def [model_eval] fs_stat_mtime_def [model_eval] js_truthy_def [model_eval]
  js_str_def [model_eval] js_parseInt_field_def [model_eval] download_url_def [model_eval]
  no_file_message_def [model_eval] catch_500_def [model_eval] multer_store_def [model_eval]

subsection \<open>Well-formed responses\<close>

text \<open>A response has the shape the routes promise: a success names a file and its
  download URL, an error of status 400 has a message, and the health check reports OK;
  a static file and a 404 have no fields to check.\<close>

fun response_wf :: "response \<Rightarrow> bool" where
  "response_wf (Success fileName downloadUrl message) = (fileName \<noteq> [] \<and> downloadUrl = download_url fileName)"
| "response_wf (Status_400 message) = (message \<noteq> [])"
| "response_wf (Status_500 e) = True"
| "response_wf (Status_report status message) = (status = ''OK'')"
| "response_wf (Static_file name) = True"
| "response_wf Status_404 = True"

text \<open>A run whose normal results all satisfy \<open>P\<close>; for a handler body with
  \<open>P = response_wf\<close>, its exceptions become responses of status 500.\<close>

definition io_results :: "('a \<Rightarrow> bool) \<Rightarrow> ('pg, 'a) io \<Rightarrow> bool" where
  "io_results P m \<longleftrightarrow> (\<forall>s. case snd (m s) of Inr a \<Rightarrow> P a | Inl _ \<Rightarrow> True)"

subsection \<open>Sequencing lemmas\<close>

named_theorems io_simps "rewrites of the sequencing combinators"

lemma io_bind_return [io_simps]: "io_bind (io_return a) f = f a"
  by (simp add: io_bind_def io_return_def fun_eq_iff)

lemma io_bind_lift_Inr [io_simps]: "io_bind (io_lift (Inr a)) f = f a"
  by (simp add: io_bind_def io_lift_def fun_eq_iff)

lemma io_bind_lift_Inl [io_simps]: "io_bind (io_lift (Inl e)) f = io_lift (Inl e)"
  by (simp add: io_bind_def io_lift_def fun_eq_iff)

lemma io_bind_assoc [io_simps]:
  "io_bind (io_bind m f) g = io_bind m (\<lambda>a. io_bind (f a) g)"
  by (simp add: io_bind_def fun_eq_iff split: prod.split sum.split)

lemma io_bind_apply:
  "io_bind m f s = (case m s of (s', Inl e) \<Rightarrow> (s', Inl e) | (s', Inr a) \<Rightarrow> f a s')"
  by (simp add: io_bind_def)

lemma io_bind_Inr [io_simps]: "m s = (s', Inr a) \<Longrightarrow> io_bind m f s = f a s'"
  by (simp add: io_bind_def)

lemma io_bind_Inl [io_simps]: "m s = (s', Inl e) \<Longrightarrow> io_bind m f s = (s', Inl e)"
  by (simp add: io_bind_def)

lemma catch_500_Inr [io_simps]: "body s = (s', Inr r) \<Longrightarrow> catch_500 body s = (s', r)"
  by (simp add: catch_500_def)

lemma catch_500_Inl [io_simps]: "body s = (s', Inl e) \<Longrightarrow> catch_500 body s = (s', Status_500 e)"
  by (simp add: catch_500_def)

subsection \<open>File system lemmas\<close>

lemma map_of_update_alist [simp]:
  "map_of (AList.update k v al) = (map_of al)(k \<mapsto> v)"
  by (simp add: update_conv')

lemma map_of_delete_alist [simp]:
  "map_of (AList.delete k al) = (map_of al)(k := None)"
  by (simp add: delete_conv')

lemma blob_load_save [simp]: "blob_load (blob_save d) = Inr d"
  by (simp add: blob_load_def blob_save_def)

lemma fs_writeFile_ok [io_simps]:
  "fst p \<in> dirs s \<Longrightarrow>
   fs_writeFile p b s = (s\<lparr>store := AList.update p (b, clock s) (store s)\<rparr>, Inr ())"
  by (simp add: fs_writeFile_def)

lemma fs_writeFile_no_dir [io_simps]:
  "fst p \<notin> dirs s \<Longrightarrow> fs_writeFile p b s = (s, Inl enoent)"
  by (simp add: fs_writeFile_def)

lemma fs_readFile_ok [io_simps]:
  "map_of (store s) p = Some (b, t) \<Longrightarrow> fs_readFile p s = (s, Inr b)"
  by (simp add: fs_readFile_def)

lemma fs_unlink_ok [io_simps]:
  "map_of (store s) p \<noteq> None \<Longrightarrow>
   fs_unlink p s = (s\<lparr>store := AList.delete p (store s)\<rparr>, Inr ())"
  by (simp add: fs_unlink_def)

lemma fs_unlink_missing [io_simps]:
  "map_of (store s) p = None \<Longrightarrow> fs_unlink p s = (s, Inl enoent)"
  by (simp add: fs_unlink_def)

lemma fs_mkdir_apply [io_simps]: "fs_mkdir d s = (s\<lparr>dirs := insert d (dirs s)\<rparr>, Inr ())"
  by (simp add: fs_mkdir_def)

lemma date_now_apply [io_simps]: "date_now s = (s, Inr (clock s))"
  by (simp add: date_now_def)

lemma io_lift_apply [io_simps]: "io_lift r s = (s, r)"
  by (simp add: io_lift_def)

lemma io_return_apply [io_simps]: "io_return a s = (s, Inr a)"
  by (simp add: io_return_def)

lemma only_deletes_refl [intro, simp]: "only_deletes s s"
  by (simp add: only_deletes_def)

lemma only_deletes_trans [trans]: "only_deletes s1 s2 \<Longrightarrow> only_deletes s2 s3 \<Longrightarrow> only_deletes s1 s3"
  unfolding only_deletes_def by metis

lemma only_deletes_delete [intro]:
  "only_deletes s s' \<Longrightarrow> only_deletes s (s'\<lparr>store := AList.delete p (store s')\<rparr>)"
  unfolding only_deletes_def by auto

lemma only_deletes_unlink:
  "fs_unlink p s = (s', r) \<Longrightarrow> only_deletes s s'"
  by (auto simp: fs_unlink_def only_deletes_def split: if_splits)

subsection \<open>Actions that keep the environment\<close>

lemma keeps_env_return [intro, simp]: "keeps_env (io_return a)"
  by (simp add: keeps_env_def io_return_def)

lemma keeps_env_lift [intro, simp]: "keeps_env (io_lift r)"
  by (simp add: keeps_env_def io_lift_def)

lemma keeps_env_date_now [intro, simp]: "keeps_env date_now"
  by (simp add: keeps_env_def date_now_def)

lemma keeps_env_readFile [intro, simp]: "keeps_env (fs_readFile p)"
  by (simp add: keeps_env_def fs_readFile_def split: option.split prod.split)

lemma keeps_env_writeFile [intro, simp]: "keeps_env (fs_writeFile p b)"
  by (simp add: keeps_env_def fs_writeFile_def)

lemma keeps_env_unlink [intro, simp]: "keeps_env (fs_unlink p)"
  by (simp add: keeps_env_def fs_unlink_def)

lemma keeps_env_bind [intro]:
  "keeps_env m \<Longrightarrow> (\<And>a. keeps_env (f a)) \<Longrightarrow> keeps_env (io_bind m f)"
  unfolding keeps_env_def io_bind_def
  by (auto split: prod.split sum.split) (metis fst_conv)+

lemma keeps_env_apply:
  "keeps_env m \<Longrightarrow> m s = (s', r) \<Longrightarrow> dirs s' = dirs s \<and> clock s' = clock s"
  unfolding keeps_env_def by (metis fst_conv)

subsection \<open>Fresh runs\<close>

lemma fresh_step_refl [intro, simp]: "fresh_step s s"
  by (simp add: fresh_step_def)

lemma fresh_step_trans [trans]:
  assumes "fresh_step s1 s2" and "fresh_step s2 s3"
  shows "fresh_step s1 s3"
proof -
  have c: "clock s3 = clock s1" and d: "dirs s1 \<subseteq> dirs s3"
    using assms by (auto simp: fresh_step_def)
  have "map_of (store s1) p = Some v \<or> (snd v = clock s1 \<and> fst p \<in> dirs s3 \<and> fst p \<in> server_dirs)"
    if "map_of (store s3) p = Some v" for p v
  proof -
    have c12: "clock s2 = clock s1" and d23: "dirs s2 \<subseteq> dirs s3"
      using assms by (simp_all add: fresh_step_def)
    have m23: "map_of (store s2) p = Some v \<or> (snd v = clock s2 \<and> fst p \<in> dirs s3 \<and> fst p \<in> server_dirs)"
      using that assms(2) unfolding fresh_step_def by blast
    have m12: "map_of (store s1) p = Some v \<or> (snd v = clock s1 \<and> fst p \<in> dirs s2 \<and> fst p \<in> server_dirs)"
      if "map_of (store s2) p = Some v"
      using that assms(1) unfolding fresh_step_def by blast
    show ?thesis
    proof (cases "map_of (store s2) p = Some v")
      case True
      then show ?thesis
        using m12 [OF True] d23 by auto
    next
      case False
      then show ?thesis
        using m23 c12 by simp
    qed
  qed
  then show ?thesis
    using assms c d by (simp add: fresh_step_def)
qed

lemma fresh_stepI [intro]: "fresh m \<Longrightarrow> m s = (s', r) \<Longrightarrow> fresh_step s s'"
  unfolding fresh_def by (metis fst_conv)

lemma fresh_return [intro, simp]: "fresh (io_return a)"
  by (simp add: fresh_def io_return_def)

lemma fresh_lift [intro, simp]: "fresh (io_lift r)"
  by (simp add: fresh_def io_lift_def)

lemma fresh_date_now [intro, simp]: "fresh date_now"
  by (simp add: fresh_def date_now_def)

lemma fresh_readFile [intro, simp]: "fresh (fs_readFile p)"
  by (simp add: fresh_def fs_readFile_def split: option.split prod.split)

lemma fresh_stat [intro, simp]: "fresh (fs_stat_mtime p)"
  by (simp add: fresh_def fs_stat_mtime_def split: option.split prod.split)

lemma fresh_readdir [intro, simp]: "fresh (fs_readdir d)"
  by (simp add: fresh_def fs_readdir_def)

lemma fresh_mkdir [intro, simp]: "fresh (fs_mkdir d)"
  by (auto simp: fresh_def fresh_step_def fs_mkdir_def)

lemma fresh_unlink [intro, simp]: "fresh (fs_unlink p)"
  by (auto simp: fresh_def fresh_step_def fs_unlink_def distinct_delete split: if_split_asm)

lemma fresh_writeFile [intro]: "fst p \<in> server_dirs \<Longrightarrow> fresh (fs_writeFile p b)"
  by (auto simp: fresh_def fresh_step_def fs_writeFile_def distinct_update split: if_split_asm)

lemma fresh_bind [intro]:
  assumes "fresh m" and "\<And>a. fresh (f a)"
  shows "fresh (io_bind m f)"
  unfolding fresh_def
proof
  fix s
  obtain s1 r where m: "m s = (s1, r)" by fastforce
  have 1: "fresh_step s s1" using assms(1) m by blast
  show "fresh_step s (fst (io_bind m f s))"
  proof (cases r)
    case (Inl e)
    then show ?thesis using m 1 by (simp add: io_bind_def)
  next
    case (Inr a)
    obtain s2 r2 where f: "f a s1 = (s2, r2)" by fastforce
    have "fresh_step s1 s2" using assms(2) f by blast
    then show ?thesis using m f 1 Inr by (simp add: io_bind_def fresh_step_trans)
  qed
qed

lemma fresh_catch_500: "fresh body \<Longrightarrow> fresh_step s (fst (catch_500 body s))"
  by (cases "body s") (auto simp: catch_500_def split: sum.split)

lemma fresh_step_multer_store: "fresh_step s (fst (multer_store name b s))"
  by (auto simp: fresh_step_def multer_store_def Let_def server_dirs_def distinct_update
      split: if_split_asm)

lemma fresh_step_multer_store_all: "fresh_step s (fst (multer_store_all ups s))"
proof (induction ups arbitrary: s)
  case Nil
  then show ?case by simp
next
  case (Cons u ups)
  obtain name b where u: "u = (name, b)" by fastforce
  obtain s1 x where m: "multer_store name b s = (s1, x)" by fastforce
  have "fresh_step s s1" using fresh_step_multer_store [of s name b] m by simp
  moreover have "fresh_step s1 (fst (multer_store_all ups s1))" by (rule Cons.IH)
  ultimately show ?case
    using u m by (auto simp: split_def Let_def intro: fresh_step_trans)
qed

lemma keeps_env_sharp_toFile [intro, simp]: "keeps_env (sharp_toFile input ops out)"
  by (auto simp: sharp_toFile_def split: option.split intro!: keeps_env_bind)

lemma fresh_sharp_toFile [intro]: "fst out \<in> server_dirs \<Longrightarrow> fresh (sharp_toFile input ops out)"
  by (auto simp: sharp_toFile_def split: option.split intro!: fresh_bind fresh_writeFile)

subsection \<open>Runs with well-formed results\<close>

lemma io_results_return [intro]: "P a \<Longrightarrow> io_results P (io_return a)"
  by (simp add: io_results_def io_return_def)

lemma io_results_post:
  assumes "io_results P m" and "\<And>a. P a \<Longrightarrow> io_results Q (f a)"
  shows "io_results Q (io_bind m f)"
  unfolding io_results_def
proof
  fix s
  show "case snd (io_bind m f s) of Inr r \<Rightarrow> Q r | Inl _ \<Rightarrow> True"
  proof (cases "m s")
    case (Pair s' x)
    then show ?thesis
      using assms(1) assms(2) [of "projr x"] unfolding io_results_def
      by (cases x) (simp_all add: io_bind_def, metis snd_conv sum.case(2))
  qed
qed

lemma io_results_bind [intro]: "(\<And>a. io_results Q (f a)) \<Longrightarrow> io_results Q (io_bind m f)"
  by (rule io_results_post [of "\<lambda>_. True"]) (simp_all add: io_results_def split: sum.split)

lemma io_results_if [intro]: "io_results P a \<Longrightarrow> io_results P b \<Longrightarrow> io_results P (if c then a else b)"
  by simp

lemma wf_catch_500: "io_results response_wf body \<Longrightarrow> response_wf (snd (catch_500 body s))"
  unfolding io_results_def by (cases "body s") (auto simp: catch_500_def split: sum.splits dest: spec [of _ s])

end
