(* ===== verification/Cleanup.thy ===== *)
theory Cleanup
  imports File_Store
begin

text \<open>
  The periodic cleanup of \<^verbatim>\<open>src/server.js\<close> (lines 39 to 59):
  \<^verbatim>\<open>cleanupOldFiles\<close> lists \<^verbatim>\<open>uploads\<close> and then \<^verbatim>\<open>downloads\<close>, and deletes
  every file whose modification time is more than \<^verbatim>\<open>maxAge\<close> (one hour) before
  \<^verbatim>\<open>Date.now()\<close>; an exception (a directory that does not exist) abandons that
  directory and is swallowed. The lemmas give the store after a cleanup in closed form.
\<close>

subsection \<open>The code\<close>

definition max_age :: int where
  "max_age = 3600000"

text \<open>The inner loop, lines 47 to 53, over the names \<^verbatim>\<open>readdir\<close> returned.\<close>

fun cleanup_files :: "string \<Rightarrow> string list \<Rightarrow> ('pg, unit) io" where
  "cleanup_files dir [] = io_return ()"
| "cleanup_files dir (file # files) =
     io_bind (fs_stat_mtime (dir, file)) (\<lambda>mtimeMs.
     io_bind date_now (\<lambda>now.
     io_bind (if int now - int mtimeMs > max_age then fs_unlink (dir, file) else io_return ())
       (\<lambda>_. cleanup_files dir files)))"

text \<open>Lines 45 to 54: one directory inside \<^verbatim>\<open>try { ... } catch (err) {}\<close>.\<close>

definition cleanup_dir :: "string \<Rightarrow> 'pg fs_state \<Rightarrow> 'pg fs_state" where
  "cleanup_dir dir s = fst (io_bind (fs_readdir dir) (\<lambda>files. cleanup_files dir files) s)"

text \<open>Lines 40 to 56.\<close>

definition cleanupOldFiles :: "'pg fs_state \<Rightarrow> 'pg fs_state" where
  "cleanupOldFiles s = fold cleanup_dir [''uploads'', ''downloads''] s"

declare max_age_def [model_eval] cleanup_dir_def [model_eval] cleanupOldFiles_def [model_eval]

subsection \<open>A cleanup in closed form\<close>

text \<open>A file is stale at a time when it is older than \<^verbatim>\<open>maxAge\<close>.\<close>

definition stale :: "nat \<Rightarrow> nat \<Rightarrow> bool" where
  "stale now t \<longleftrightarrow> int now - int t > max_age"

definition stale_at :: "nat \<Rightarrow> ('pg blob \<times> nat) option \<Rightarrow> bool" where
  "stale_at now v = (case v of Some (b, t) \<Rightarrow> stale now t | None \<Rightarrow> False)"

lemma distinct_delete_keys:
  "distinct (map fst al) \<Longrightarrow> distinct (map fst (AList.delete k al))"
  by (simp add: distinct_delete)

lemma cleanup_files_closed:
  assumes "distinct ns" and "\<forall>n \<in> set ns. map_of (store s) (dir, n) \<noteq> None"
  shows "\<exists>s'. cleanup_files dir ns s = (s', Inr ()) \<and> dirs s' = dirs s \<and> clock s' = clock s
     \<and> (distinct (map fst (store s)) \<longrightarrow> distinct (map fst (store s')))
     \<and> (\<forall>p. map_of (store s') p =
           (if fst p = dir \<and> snd p \<in> set ns \<and> stale_at (clock s) (map_of (store s) p) then None
            else map_of (store s) p))"
  using assms
proof (induction ns arbitrary: s)
  case Nil
  then show ?case by (simp add: io_return_def)
next
  case (Cons n ns)
  obtain b t where bt: "map_of (store s) (dir, n) = Some (b, t)"
    using Cons.prems(2) by fastforce
  define s1 where "s1 = (if stale (clock s) t then s\<lparr>store := AList.delete (dir, n) (store s)\<rparr> else s)"
  have run: "cleanup_files dir (n # ns) s = cleanup_files dir ns s1"
    using bt by (simp add: s1_def io_bind_def fs_stat_mtime_def date_now_def fs_unlink_def
        io_return_def stale_def)
  have m1: "map_of (store s1) q = (if q = (dir, n) \<and> stale (clock s) t then None else map_of (store s) q)" for q
    by (simp add: s1_def)
  have pres: "\<forall>m \<in> set ns. map_of (store s1) (dir, m) \<noteq> None"
    using Cons.prems m1 by auto
  obtain s' where IH: "cleanup_files dir ns s1 = (s', Inr ())" "dirs s' = dirs s1" "clock s' = clock s1"
      "distinct (map fst (store s1)) \<longrightarrow> distinct (map fst (store s'))"
      "\<forall>p. map_of (store s') p =
         (if fst p = dir \<and> snd p \<in> set ns \<and> stale_at (clock s1) (map_of (store s1) p) then None
          else map_of (store s1) p)"
    using Cons.IH [OF _ pres] Cons.prems(1) by (simp only: distinct.simps) blast
  have env: "dirs s1 = dirs s" "clock s1 = clock s"
    by (simp_all add: s1_def)
  have dist: "distinct (map fst (store s)) \<longrightarrow> distinct (map fst (store s1))"
    by (simp add: s1_def distinct_delete)
  have "map_of (store s') p =
          (if fst p = dir \<and> snd p \<in> set (n # ns) \<and> stale_at (clock s) (map_of (store s) p) then None
           else map_of (store s) p)" for p
  proof (cases "p = (dir, n)")
    case True
    then show ?thesis
      using IH(5) env m1 bt Cons.prems(1) by (simp add: stale_at_def)
  next
    case False
    have a: "map_of (store s1) p = map_of (store s) p"
      using m1 False by simp
    have b: "map_of (store s') p =
        (if fst p = dir \<and> snd p \<in> set ns \<and> stale_at (clock s) (map_of (store s) p) then None
         else map_of (store s) p)"
      using IH(5) [rule_format, of p] env a by simp
    have c: "(fst p = dir \<and> snd p \<in> set (n # ns) \<and> stale_at (clock s) (map_of (store s) p))
        \<longleftrightarrow> (fst p = dir \<and> snd p \<in> set ns \<and> stale_at (clock s) (map_of (store s) p))"
      using False by (cases p) auto
    show ?thesis
      unfolding c by (rule b)
  qed
  then have mp: "\<forall>p. map_of (store s') p =
          (if fst p = dir \<and> snd p \<in> set (n # ns) \<and> stale_at (clock s) (map_of (store s) p) then None
           else map_of (store s) p)"
    by blast
  have r: "cleanup_files dir (n # ns) s = (s', Inr ())"
    using run IH(1) by (simp only:)
  have d: "dirs s' = dirs s" using IH(2) env(1) by (rule trans)
  have c: "clock s' = clock s" using IH(3) env(2) by (rule trans)
  have ds: "distinct (map fst (store s)) \<longrightarrow> distinct (map fst (store s'))"
    using dist IH(4) by blast
  show ?case
    using r d c ds mp by (intro exI [of _ s']) (simp only: simp_thms)
qed

text \<open>The names \<^verbatim>\<open>readdir\<close> lists are distinct and all present.\<close>

lemma readdir_names_distinct:
  assumes "distinct (map fst al)"
  shows "distinct (map (\<lambda>f. snd (fst f)) (filter (\<lambda>f. fst (fst f) = d) al))"
proof -
  let ?xs = "map fst (filter (\<lambda>f. fst (fst f) = d) al)"
  have "distinct ?xs"
    using assms by (simp add: distinct_map_filter)
  moreover have "inj_on snd (set ?xs)"
    by (auto simp: inj_on_def prod_eq_iff)
  ultimately have "distinct (map snd ?xs)"
    by (simp only: distinct_map)
  then show ?thesis
    by (simp add: comp_def)
qed

lemma readdir_names_present:
  "n \<in> set (map (\<lambda>f. snd (fst f)) (filter (\<lambda>f. fst (fst f) = d) al)) \<longleftrightarrow> map_of al (d, n) \<noteq> None"
proof -
  have "n \<in> set (map (\<lambda>f. snd (fst f)) (filter (\<lambda>f. fst (fst f) = d) al)) \<longleftrightarrow> (d, n) \<in> fst ` set al"
    by (auto simp: image_iff) (metis fst_conv)
  then show ?thesis
    by (simp add: map_of_eq_None_iff)
qed

lemma stale_at_present: "stale_at now v \<Longrightarrow> v \<noteq> None"
  by (auto simp: stale_at_def split: option.splits)

lemma cleanup_dir_closed:
  assumes "distinct (map fst (store s))"
  shows "dirs (cleanup_dir dir s) = dirs s \<and> clock (cleanup_dir dir s) = clock s
     \<and> distinct (map fst (store (cleanup_dir dir s)))
     \<and> (\<forall>p. map_of (store (cleanup_dir dir s)) p =
           (if fst p = dir \<and> dir \<in> dirs s \<and> stale_at (clock s) (map_of (store s) p) then None
            else map_of (store s) p))"
proof (cases "dir \<in> dirs s")
  case True
  let ?ns = "map (\<lambda>f. snd (fst f)) (filter (\<lambda>f. fst (fst f) = dir) (store s))"
  have dn: "distinct ?ns"
    by (rule readdir_names_distinct [OF assms])
  have pn: "\<forall>n \<in> set ?ns. map_of (store s) (dir, n) \<noteq> None"
  proof
    fix n
    assume "n \<in> set ?ns"
    then show "map_of (store s) (dir, n) \<noteq> None"
      by (rule readdir_names_present [THEN iffD1])
  qed
  from cleanup_files_closed [OF dn pn] obtain s' where
    s1: "cleanup_files dir ?ns s = (s', Inr ())" and s2: "dirs s' = dirs s" and s3: "clock s' = clock s"
    and s4: "distinct (map fst (store s)) \<longrightarrow> distinct (map fst (store s'))"
    and s5: "\<forall>p. map_of (store s') p =
       (if fst p = dir \<and> snd p \<in> set ?ns \<and> stale_at (clock s) (map_of (store s) p) then None
        else map_of (store s) p)"
    by blast
  have run: "cleanup_dir dir s = s'"
    using True s1 by (simp add: cleanup_dir_def io_bind_def fs_readdir_def)
  have eq: "map_of (store s') p =
      (if fst p = dir \<and> dir \<in> dirs s \<and> stale_at (clock s) (map_of (store s) p) then None
       else map_of (store s) p)" for p
  proof (cases "fst p = dir \<and> stale_at (clock s) (map_of (store s) p)")
    case st: True
    then have "snd p \<in> set ?ns"
      using readdir_names_present [of "snd p" dir "store s"] stale_at_present [of "clock s"]
      by (cases p) simp
    then have h: "(fst p = dir \<and> snd p \<in> set ?ns \<and> stale_at (clock s) (map_of (store s) p)) = True"
      using st by blast
    have g: "(fst p = dir \<and> dir \<in> dirs s \<and> stale_at (clock s) (map_of (store s) p)) = True"
      using st True by blast
    show ?thesis
      using s5 [rule_format, of p] by (simp only: g h if_True)
  next
    case False
    then have h: "(fst p = dir \<and> snd p \<in> set ?ns \<and> stale_at (clock s) (map_of (store s) p)) = False"
      by blast
    have g: "(fst p = dir \<and> dir \<in> dirs s \<and> stale_at (clock s) (map_of (store s) p)) = False"
      using False by blast
    show ?thesis
      using s5 [rule_format, of p] by (simp only: g h if_False)
  qed
  have d': "distinct (map fst (store s'))"
    using s4 assms by blast
  show ?thesis
    unfolding run by (intro conjI allI s2 s3 d' eq)
next
  case False
  then show ?thesis
    using assms by (simp add: cleanup_dir_def io_bind_def fs_readdir_def)
qed

lemma cleanupOldFiles_env:
  assumes "distinct (map fst (store s))"
  shows "dirs (cleanupOldFiles s) = dirs s \<and> clock (cleanupOldFiles s) = clock s
     \<and> distinct (map fst (store (cleanupOldFiles s)))"
  using cleanup_dir_closed [OF assms, of "''uploads''"]
    cleanup_dir_closed [of "cleanup_dir ''uploads'' s" "''downloads''"]
  by (simp add: cleanupOldFiles_def)

lemma cleanupOldFiles_map_of:
  assumes "distinct (map fst (store s))"
  shows "map_of (store (cleanupOldFiles s)) p =
           (if fst p \<in> {''uploads'', ''downloads''} \<and> fst p \<in> dirs s
               \<and> stale_at (clock s) (map_of (store s) p)
            then None else map_of (store s) p)"
proof -
  let ?s1 = "cleanup_dir ''uploads'' s"
  have u: "dirs ?s1 = dirs s" "clock ?s1 = clock s" "distinct (map fst (store ?s1))"
    "map_of (store ?s1) q =
       (if fst q = ''uploads'' \<and> ''uploads'' \<in> dirs s \<and> stale_at (clock s) (map_of (store s) q)
        then None else map_of (store s) q)" for q
    using cleanup_dir_closed [OF assms, of "''uploads''"] by blast+
  have d: "map_of (store (cleanup_dir ''downloads'' ?s1)) p =
       (if fst p = ''downloads'' \<and> ''downloads'' \<in> dirs ?s1 \<and> stale_at (clock ?s1) (map_of (store ?s1) p)
        then None else map_of (store ?s1) p)"
    using cleanup_dir_closed [OF u(3), of "''downloads''"] by blast
  show ?thesis
  proof (cases "fst p = ''uploads''")
    case True
    then show ?thesis using d u(4) [of p] by (simp add: cleanupOldFiles_def)
  next
    case False
    then show ?thesis using d u(1,2) u(4) [of p] by (auto simp: cleanupOldFiles_def)
  qed
qed

subsection \<open>Properties of the cleanup\<close>

text \<open>
  C33. On a store whose paths are distinct (as every store the server reaches), a
  cleanup deletes exactly the files of \<^verbatim>\<open>uploads\<close> and \<^verbatim>\<open>downloads\<close> that are
  older than one hour, in a directory that exists, and leaves every other file as it
  was.
\<close>

theorem cleanup_deletes_stale:
  assumes "distinct (map fst (store s))"
  shows "map_of (store (cleanupOldFiles s)) p =
           (if fst p \<in> {''uploads'', ''downloads''} \<and> fst p \<in> dirs s
               \<and> stale_at (clock s) (map_of (store s) p)
            then None else map_of (store s) p)"
  using assms by (rule cleanupOldFiles_map_of)

theorem cleanup_deletes_stale_witness:
  "distinct (map fst [((''uploads'', ''1-a.pdf''), (Bytes (Pdf_bytes [1 :: nat]), 0 :: nat)),
                      ((''downloads'', ''merged-7200000.pdf''), (Bytes (Pdf_bytes [2]), 7200000))])
   \<and> map_of (store (cleanupOldFiles
        \<lparr>store = [((''uploads'', ''1-a.pdf''), (Bytes (Pdf_bytes [1 :: nat]), 0 :: nat)),
                   ((''downloads'', ''merged-7200000.pdf''), (Bytes (Pdf_bytes [2]), 7200000))],
         dirs = {''uploads'', ''downloads''}, clock = 7200001\<rparr>)) (''uploads'', ''1-a.pdf'') = None
   \<and> map_of (store (cleanupOldFiles
        \<lparr>store = [((''uploads'', ''1-a.pdf''), (Bytes (Pdf_bytes [1 :: nat]), 0 :: nat)),
                   ((''downloads'', ''merged-7200000.pdf''), (Bytes (Pdf_bytes [2]), 7200000))],
         dirs = {''uploads'', ''downloads''}, clock = 7200001\<rparr>)) (''downloads'', ''merged-7200000.pdf'')
       = Some (Bytes (Pdf_bytes [2]), 7200000)"
proof -
  let ?s = "\<lparr>store = [((''uploads'', ''1-a.pdf''), (Bytes (Pdf_bytes [1 :: nat]), 0 :: nat)),
                   ((''downloads'', ''merged-7200000.pdf''), (Bytes (Pdf_bytes [2]), 7200000))],
         dirs = {''uploads'', ''downloads''}, clock = 7200001\<rparr>"
  have h: "distinct (map fst (store ?s))" by simp
  show ?thesis
    using cleanup_deletes_stale [OF h, of "(''uploads'', ''1-a.pdf'')"]
      cleanup_deletes_stale [OF h, of "(''downloads'', ''merged-7200000.pdf'')"]
    by (simp add: stale_at_def stale_def max_age_def)
qed

end
