(* ===== verification/Merge_Handler.thy ===== *)
theory Merge_Handler
  imports File_Store Merge
begin

text \<open>
  The \<^verbatim>\<open>/api/merge\<close> handler with its file effects (\<^verbatim>\<open>src/server.js\<close>, lines 154
  to 192): each upload is read, loaded, copied page by page into the merged document and
  then deleted; the merged document is saved under \<^verbatim>\<open>downloads/merged-<now>.pdf\<close>.
  The loop is shown to compute what the document-level \<open>merge_loop\<close> of theory
  \<open>Merge\<close> computes on the uploads' contents, and to delete exactly the uploads it
  has processed.
\<close>

subsection \<open>The code\<close>

text \<open>The loop of lines 164 to 172, with \<^verbatim>\<open>readFile\<close> and \<^verbatim>\<open>unlink\<close>.\<close>

fun merge_files :: "'pg pdf_doc \<Rightarrow> upload list \<Rightarrow> ('pg, 'pg pdf_doc) io" where
  "merge_files mergedPdf [] = io_return mergedPdf"
| "merge_files mergedPdf (file # files) =
     io_bind (fs_readFile (up_path file)) (\<lambda>pdfBytes.
     io_bind (io_lift (blob_load pdfBytes)) (\<lambda>pdf.
     io_bind (io_lift (copy_pages pdf (get_page_indices pdf))) (\<lambda>copiedPages.
     io_bind (fs_unlink (up_path file)) (\<lambda>_.
     merge_files (foldl add_page mergedPdf copiedPages) files))))"

text \<open>The handler, lines 154 to 192.\<close>

definition merge_handler :: "upload list \<Rightarrow> 'pg fs_state \<Rightarrow> 'pg fs_state \<times> response" where
  "merge_handler files = catch_500
     (if length files < 2 then io_return (Status_400 merge_message)
      else
        io_bind (merge_files pdf_create files) (\<lambda>mergedPdf.
        io_bind date_now (\<lambda>now.
        let outputFilename = ''merged-'' @ dec_string now @ ''.pdf'' in
        io_bind (fs_mkdir ''downloads'') (\<lambda>_.
        io_bind (fs_writeFile (''downloads'', outputFilename) (blob_save mergedPdf)) (\<lambda>_.
        io_return (Success outputFilename (download_url outputFilename)
          (''Merged '' @ dec_string (length files) @ '' PDFs successfully'')))))))"

text \<open>A merge request: multer stores the uploads, then the handler runs.\<close>

definition merge_request :: "(string \<times> 'pg blob) list \<Rightarrow> 'pg fs_state \<Rightarrow> 'pg fs_state \<times> response" where
  "merge_request uploads s = (let (s1, files) = multer_store_all uploads s in merge_handler files s1)"

declare merge_handler_def [model_eval] merge_request_def [model_eval]

subsection \<open>Reading the uploads\<close>

text \<open>The contents the loop reads for an upload, as the document library sees them.\<close>

definition upload_data :: "'pg fs_state \<Rightarrow> upload \<Rightarrow> 'pg file_data" where
  "upload_data s f = (case map_of (store s) (up_path f) of
       Some (Bytes d, _) \<Rightarrow> d
     | _ \<Rightarrow> Other_bytes [])"

definition stored_bytes :: "'pg fs_state \<Rightarrow> upload \<Rightarrow> bool" where
  "stored_bytes s f = (\<exists>d t. map_of (store s) (up_path f) = Some (Bytes d, t))"

lemma upload_data_delete [simp]:
  "up_path g \<noteq> up_path f \<Longrightarrow>
   upload_data (s\<lparr>store := AList.delete (up_path f) (store s)\<rparr>) g = upload_data s g"
  by (simp add: upload_data_def)

lemma stored_bytes_delete [simp]:
  "up_path g \<noteq> up_path f \<Longrightarrow>
   stored_bytes (s\<lparr>store := AList.delete (up_path f) (store s)\<rparr>) g = stored_bytes s g"
  by (simp add: stored_bytes_def)

text \<open>
  On distinct stored uploads the loop computes \<open>merge_loop\<close> on their contents, and
  when it succeeds it has deleted every upload and changed nothing else.
\<close>

lemma merge_files_refines:
  assumes "distinct (map up_path fs)" and "\<forall>f \<in> set fs. stored_bytes s f"
  shows "snd (merge_files acc fs s) = merge_loop acc (map (upload_data s) fs)
         \<and> (\<forall>d. merge_loop acc (map (upload_data s) fs) = Inr d \<longrightarrow>
              fst (merge_files acc fs s) = s\<lparr>store := fold AList.delete (map up_path fs) (store s)\<rparr>)"
  using assms
proof (induction fs arbitrary: acc s)
  case Nil
  then show ?case by (simp add: io_return_def)
next
  case (Cons f fs)
  obtain d t where st: "map_of (store s) (up_path f) = Some (Bytes d, t)"
    using Cons.prems(2) by (auto simp: stored_bytes_def)
  let ?s1 = "s\<lparr>store := AList.delete (up_path f) (store s)\<rparr>"
  have ne: "\<forall>g \<in> set fs. up_path g \<noteq> up_path f"
    using Cons.prems(1) by (auto simp: image_iff)
  have rest: "\<forall>g \<in> set fs. stored_bytes ?s1 g" and data: "map (upload_data ?s1) fs = map (upload_data s) fs"
    using Cons.prems(2) ne by auto
  have dist: "distinct (map up_path fs)"
    using Cons.prems(1) by simp
  show ?case
  proof (cases d)
    case (Pdf_bytes ps)
    have cp: "copy_pages \<lparr>pages = ps\<rparr> (get_page_indices \<lparr>pages = ps\<rparr>) = Inr ps"
      using copy_pages_all_pages [of "\<lparr>pages = ps\<rparr>"] by simp
    have ud: "upload_data s f = Pdf_bytes ps"
      using st Pdf_bytes by (simp add: upload_data_def)
    have step: "merge_files acc (f # fs) s = merge_files (foldl add_page acc ps) fs ?s1"
      using st Pdf_bytes cp by (simp add: io_bind_def fs_readFile_def io_lift_def blob_load_def
          pdf_load_def fs_unlink_def)
    show ?thesis
      using Cons.IH [OF dist rest, of "foldl add_page acc ps"] step ud data Pdf_bytes cp
      by (simp add: pdf_load_def fold_commute)
  next
    case (Other_bytes str)
    have "merge_files acc (f # fs) s = (s, Inl Format_error)"
      using st Other_bytes by (simp add: io_bind_def fs_readFile_def io_lift_def blob_load_def pdf_load_def)
    then show ?thesis
      using st Other_bytes by (simp add: upload_data_def pdf_load_def)
  qed
qed

text \<open>The loop changes the store only by deleting uploads, whatever happens.\<close>

lemma merge_files_only_deletes: "only_deletes s (fst (merge_files acc fs s))"
proof (induction fs arbitrary: acc s)
  case Nil
  then show ?case by (simp add: io_return_def)
next
  case (Cons f fs)
  show ?case
  proof (cases "map_of (store s) (up_path f)")
    case None
    then show ?thesis by (simp add: io_bind_def fs_readFile_def)
  next
    case (Some bt)
    obtain b t where bt: "bt = (b, t)" by (cases bt)
    show ?thesis
    proof (cases "blob_load b")
      case (Inl e)
      then show ?thesis using Some bt by (simp add: io_bind_def fs_readFile_def io_lift_def)
    next
      case (Inr pdf)
      let ?s1 = "s\<lparr>store := AList.delete (up_path f) (store s)\<rparr>"
      have cp: "copy_pages pdf (get_page_indices pdf) = Inr (pages pdf)"
        by (rule copy_pages_all_pages)
      have "merge_files acc (f # fs) s = merge_files (foldl add_page acc (pages pdf)) fs ?s1"
        using Some bt Inr cp by (simp add: io_bind_def fs_readFile_def io_lift_def fs_unlink_def)
      moreover have "only_deletes s ?s1"
        by (rule only_deletes_delete) simp
      ultimately show ?thesis
        using Cons.IH [where acc = "foldl add_page acc (pages pdf)" and s = ?s1] by (metis only_deletes_trans)
    qed
  qed
qed

text \<open>Stored PDF uploads are all PDFs, so the document-level merge succeeds on them.\<close>

lemma merge_loop_stored:
  assumes "\<forall>f \<in> set fs. \<exists>ps t. map_of (store s) (up_path f) = Some (Bytes (Pdf_bytes ps), t)"
  shows "merge_loop pdf_create (map (upload_data s) fs)
           = Inr \<lparr>pages = concat (map (file_pages \<circ> upload_data s) fs)\<rparr>"
proof -
  have "list_all is_pdf (map (upload_data s) fs)"
    using assms by (auto simp: list_all_iff upload_data_def)
  then show ?thesis
    by (simp add: merge_loop_closed pdf_create_eq comp_def)
qed

subsection \<open>Properties of the merge handler\<close>

text \<open>
  C25. A merge of two or more distinct stored PDF uploads answers success with the file
  \<^verbatim>\<open>merged-<now>.pdf\<close>, which holds every page of the uploads in upload order;
  the uploads are deleted, \<^verbatim>\<open>downloads\<close> exists, and nothing else changes.
\<close>

theorem merge_handler_success:
  assumes "2 \<le> length fs" and "distinct (map up_path fs)"
    and "\<forall>f \<in> set fs. \<exists>ps t. map_of (store s) (up_path f) = Some (Bytes (Pdf_bytes ps), t)"
  shows "merge_handler fs s =
     (s\<lparr>store := AList.update (''downloads'', ''merged-'' @ dec_string (clock s) @ ''.pdf'')
                    (Bytes (Pdf_bytes (concat (map (file_pages \<circ> upload_data s) fs))), clock s)
                    (fold AList.delete (map up_path fs) (store s)),
        dirs := insert ''downloads'' (dirs s)\<rparr>,
      Success (''merged-'' @ dec_string (clock s) @ ''.pdf'')
        (download_url (''merged-'' @ dec_string (clock s) @ ''.pdf''))
        (''Merged '' @ dec_string (length fs) @ '' PDFs successfully''))"
proof -
  have stored: "\<forall>f \<in> set fs. stored_bytes s f"
    using assms(3) by (auto simp: stored_bytes_def)
  have mf: "merge_files pdf_create fs s =
      (s\<lparr>store := fold AList.delete (map up_path fs) (store s)\<rparr>,
       Inr \<lparr>pages = concat (map (file_pages \<circ> upload_data s) fs)\<rparr>)"
    using merge_files_refines [OF assms(2) stored, of pdf_create] merge_loop_stored [OF assms(3)]
    by (simp add: prod_eq_iff)
  show ?thesis
    using assms(1) mf
    by (simp add: merge_handler_def catch_500_def io_bind_def date_now_def fs_mkdir_def
        fs_writeFile_def io_return_def blob_save_def pdf_save_def Let_def)
qed

text \<open>
  C26. A merge request that does not succeed writes no file and changes none: its only
  effect on the store is the deletion of the uploads it read before it failed.
\<close>

theorem merge_handler_failure_no_output:
  assumes "merge_handler fs s = (s', r)" and "\<not> is_success r"
  shows "only_deletes s s'"
proof (cases "length fs < 2")
  case True
  then show ?thesis using assms by (simp add: merge_handler_def catch_500_def io_return_def)
next
  case False
  obtain s1 x where mf: "merge_files pdf_create fs s = (s1, x)"
    by (cases "merge_files pdf_create fs s")
  have od: "only_deletes s s1"
    using merge_files_only_deletes [of s pdf_create fs] mf by simp
  show ?thesis
  proof (cases x)
    case (Inl e)
    then show ?thesis
      using assms False mf od by (simp add: merge_handler_def catch_500_def io_bind_def)
  next
    case (Inr d)
    then show ?thesis
      using assms False mf by (auto simp: merge_handler_def catch_500_def io_bind_def date_now_def
          fs_mkdir_def fs_writeFile_def io_return_def Let_def)
  qed
qed

text \<open>
  C27. Two uploads with the same name stored in the same millisecond get the same path
  (\<^verbatim>\<open>Date.now() + '-' + originalname\<close>): the second overwrites the first, the
  merge reads and deletes that path for the first upload, and the request fails with
  \<^verbatim>\<open>ENOENT\<close> when it reads the second.
\<close>

theorem merge_same_name_fails:
  "snd (merge_request [(n, Bytes (Pdf_bytes a)), (n, Bytes (Pdf_bytes b))] s)
     = Status_500 (Io_error ''ENOENT'')"
  by (simp add: merge_request_def multer_store_def merge_handler_def Let_def catch_500_def io_bind_def
      fs_readFile_def io_lift_def blob_load_def pdf_load_def fs_unlink_def enoent_def
      copy_pages_all_pages)

theorem merge_handler_success_witness:
  "2 \<le> length [\<lparr>up_path = (''uploads'', ''1-a.pdf''), originalname = ''a.pdf''\<rparr>,
                 \<lparr>up_path = (''uploads'', ''1-b.pdf''), originalname = ''b.pdf''\<rparr>]
   \<and> distinct (map up_path [\<lparr>up_path = (''uploads'', ''1-a.pdf''), originalname = ''a.pdf''\<rparr>,
                 \<lparr>up_path = (''uploads'', ''1-b.pdf''), originalname = ''b.pdf''\<rparr>])
   \<and> map_of [((''uploads'', ''1-a.pdf''), (Bytes (Pdf_bytes [1 :: nat]), 1)),
              ((''uploads'', ''1-b.pdf''), (Bytes (Pdf_bytes [2, 3]), 1))] (''uploads'', ''1-a.pdf'')
       = Some (Bytes (Pdf_bytes [1]), 1)
   \<and> map_of [((''uploads'', ''1-a.pdf''), (Bytes (Pdf_bytes [1 :: nat]), 1)),
              ((''uploads'', ''1-b.pdf''), (Bytes (Pdf_bytes [2, 3]), 1))] (''uploads'', ''1-b.pdf'')
       = Some (Bytes (Pdf_bytes [2, 3]), 1)
   \<and> merge_handler [\<lparr>up_path = (''uploads'', ''1-a.pdf''), originalname = ''a.pdf''\<rparr>,
                 \<lparr>up_path = (''uploads'', ''1-b.pdf''), originalname = ''b.pdf''\<rparr>]
       \<lparr>store = [((''uploads'', ''1-a.pdf''), (Bytes (Pdf_bytes [1 :: nat]), 1)),
                  ((''uploads'', ''1-b.pdf''), (Bytes (Pdf_bytes [2, 3]), 1))],
        dirs = {''uploads''}, clock = 7\<rparr>
     = (\<lparr>store = [((''downloads'', ''merged-7.pdf''), (Bytes (Pdf_bytes [1, 2, 3]), 7))],
         dirs = {''downloads'', ''uploads''}, clock = 7\<rparr>,
        Success ''merged-7.pdf'' ''/downloads/merged-7.pdf'' ''Merged 2 PDFs successfully'')"
proof -
  let ?fs = "[\<lparr>up_path = (''uploads'', ''1-a.pdf''), originalname = ''a.pdf''\<rparr>,
              \<lparr>up_path = (''uploads'', ''1-b.pdf''), originalname = ''b.pdf''\<rparr>]"
  let ?s = "\<lparr>store = [((''uploads'', ''1-a.pdf''), (Bytes (Pdf_bytes [1 :: nat]), 1)),
                  ((''uploads'', ''1-b.pdf''), (Bytes (Pdf_bytes [2, 3]), 1))],
        dirs = {''uploads''}, clock = 7\<rparr>"
  have h: "2 \<le> length ?fs" "distinct (map up_path ?fs)"
    "\<forall>f \<in> set ?fs. \<exists>ps t. map_of (store ?s) (up_path f) = Some (Bytes (Pdf_bytes ps), t)"
    by simp_all
  show ?thesis
    using merge_handler_success [OF h] h
    by (simp add: upload_data_def download_url_def dec_string.simps dec_digit_def insert_commute)
qed

theorem merge_handler_failure_no_output_witness:
  "merge_handler [\<lparr>up_path = (''uploads'', ''1-a.pdf''), originalname = ''a.pdf''\<rparr>,
                  \<lparr>up_path = (''uploads'', ''1-b.txt''), originalname = ''b.txt''\<rparr>]
     \<lparr>store = [((''uploads'', ''1-a.pdf''), (Bytes (Pdf_bytes [1 :: nat]), 1)),
                ((''uploads'', ''1-b.txt''), (Bytes (Other_bytes ''hello''), 1))],
      dirs = {''uploads''}, clock = 7\<rparr>
     = (\<lparr>store = [((''uploads'', ''1-b.txt''), (Bytes (Other_bytes ''hello''), 1))],
         dirs = {''uploads''}, clock = 7\<rparr>, Status_500 Format_error)
   \<and> \<not> is_success (Status_500 Format_error)
   \<and> only_deletes
       \<lparr>store = [((''uploads'', ''1-a.pdf''), (Bytes (Pdf_bytes [1 :: nat]), 1)),
                  ((''uploads'', ''1-b.txt''), (Bytes (Other_bytes ''hello''), 1))],
        dirs = {''uploads''}, clock = 7\<rparr>
       \<lparr>store = [((''uploads'', ''1-b.txt''), (Bytes (Other_bytes ''hello''), 1))],
        dirs = {''uploads''}, clock = 7\<rparr>"
proof -
  have h: "merge_handler [\<lparr>up_path = (''uploads'', ''1-a.pdf''), originalname = ''a.pdf''\<rparr>,
                  \<lparr>up_path = (''uploads'', ''1-b.txt''), originalname = ''b.txt''\<rparr>]
     \<lparr>store = [((''uploads'', ''1-a.pdf''), (Bytes (Pdf_bytes [1 :: nat]), 1)),
                ((''uploads'', ''1-b.txt''), (Bytes (Other_bytes ''hello''), 1))],
      dirs = {''uploads''}, clock = 7\<rparr>
     = (\<lparr>store = [((''uploads'', ''1-b.txt''), (Bytes (Other_bytes ''hello''), 1))],
         dirs = {''uploads''}, clock = 7\<rparr>, Status_500 Format_error)"
    "\<not> is_success (Status_500 Format_error)"
    by (simp_all add: merge_handler_def catch_500_def io_bind_def fs_readFile_def io_lift_def
        blob_load_def pdf_load_def fs_unlink_def copy_pages_all_pages)
  show ?thesis
    using merge_handler_failure_no_output [OF h] h by simp
qed

subsection \<open>Well-formed responses\<close>

lemma wf_merge_handler: "response_wf (snd (merge_handler fs s))"
  unfolding merge_handler_def
  by (rule wf_catch_500) (auto simp: Let_def merge_message_def intro!: io_results_bind io_results_return)

lemma wf_merge_request: "response_wf (snd (merge_request ups s))"
  by (simp add: merge_request_def split_def Let_def wf_merge_handler)

end
