(* ===== verification/Split_Handler.thy ===== *)
theory Split_Handler
  imports File_Store Range_Split Size_Split
begin

text \<open>
  The \<^verbatim>\<open>/api/split\<close> handler with its file effects (\<^verbatim>\<open>src/server.js\<close>, lines
  195 to 287). The upload is read and loaded; in page-range mode each token's document
  (\<open>range_part\<close> of theory \<open>Range_Split\<close>) and in size mode each part's document
  (\<open>page_loop\<close> of theory \<open>Size_Split\<close>) is saved as
  \<^verbatim>\<open>downloads/split-part<i+1>-<now>.pdf\<close> as soon as it is built; then the upload is
  deleted and an archive \<^verbatim>\<open>split-files-<now>.zip\<close> listing the parts is written. The
  lemmas show the handler writes exactly the documents of \<open>split_by_range\<close> and
  \<open>split_by_size\<close>, that a failing token leaves the parts before it on disk, and that
  the handler needs a \<^verbatim>\<open>downloads\<close> directory it never creates. The archive goes
  through a write stream whose open error ends the process instead of reaching the
  \<^verbatim>\<open>catch\<close> block: without \<^verbatim>\<open>downloads\<close>, a split with no part answers success
  and crashes.
\<close>

subsection \<open>The code\<close>

text \<open>\<^verbatim>\<open>split-part${i + 1}-${Date.now()}.pdf\<close>, lines 232 and 253.\<close>

definition part_filename :: "nat \<Rightarrow> nat \<Rightarrow> string" where
  "part_filename n now = ''split-part'' @ dec_string n @ ''-'' @ dec_string now @ ''.pdf''"

text \<open>\<^verbatim>\<open>split-files-${Date.now()}.zip\<close>, line 265.\<close>

definition zip_filename :: "nat \<Rightarrow> string" where
  "zip_filename now = ''split-files-'' @ dec_string now @ ''.zip''"

text \<open>Lines 232 to 236 (and 253 to 257): save the part, write it, record its name.\<close>

definition write_part :: "nat \<Rightarrow> 'pg pdf_doc \<Rightarrow> string list \<Rightarrow> ('pg, string list) io" where
  "write_part i newPdf outputFiles =
     io_bind date_now (\<lambda>now.
     let filename = part_filename (i + 1) now in
     io_bind (fs_writeFile (''downloads'', filename) (blob_save newPdf)) (\<lambda>_.
     io_return (outputFiles @ [filename])))"

text \<open>The loop of lines 214 to 237 over the range tokens.\<close>

fun range_files :: "'pg pdf_doc \<Rightarrow> nat \<Rightarrow> string list \<Rightarrow> nat \<Rightarrow> string list \<Rightarrow> ('pg, string list) io" where
  "range_files pdfDoc totalPages [] i outputFiles = io_return outputFiles"
| "range_files pdfDoc totalPages (rng # ranges) i outputFiles =
     io_bind (io_lift (range_part pdfDoc totalPages rng)) (\<lambda>newPdf.
     io_bind (write_part i newPdf outputFiles) (\<lambda>outputFiles.
     range_files pdfDoc totalPages ranges (i + 1) outputFiles))"

text \<open>The loop of lines 243 to 258 over the parts.\<close>

function size_files ::
  "'pg pdf_doc \<Rightarrow> nat \<Rightarrow> int \<Rightarrow> int \<Rightarrow> int \<Rightarrow> string list \<Rightarrow> ('pg, string list) io" where
  "size_files pdfDoc totalPages parts pagesPerPart i outputFiles =
     (if i < parts then
        (let startPage = i * pagesPerPart;
             endPage = min (startPage + pagesPerPart) (int totalPages)
         in io_bind (io_lift (page_loop pdfDoc startPage endPage pdf_create)) (\<lambda>newPdf.
            io_bind (write_part (nat i) newPdf outputFiles) (\<lambda>outputFiles.
            size_files pdfDoc totalPages parts pagesPerPart (i + 1) outputFiles)))
      else io_return outputFiles)"
  by pat_completeness auto
termination
  by (relation "measure (\<lambda>(_, _, parts, _, i, _). nat (parts - i))") auto

declare size_files.simps [simp del]

text \<open>Lines 210 to 259: the choice of mode and its loop, giving the part names.\<close>

definition split_outputs ::
  "string option \<Rightarrow> string option \<Rightarrow> string option \<Rightarrow> 'pg pdf_doc \<Rightarrow> nat \<Rightarrow>
   ('pg, string list) io" where
  "split_outputs splitOption pageRanges numParts pdfDoc totalPages =
     (if splitOption = Some ''pages'' \<and> js_truthy pageRanges then
        range_files pdfDoc totalPages (parse_ranges (js_str pageRanges)) 0 []
      else if splitOption = Some ''size'' \<and> js_truthy numParts then
        (case js_parseInt_field numParts of
           None \<Rightarrow> io_return []
         | Some parts \<Rightarrow> size_files pdfDoc totalPages parts (js_ceil_div totalPages parts) 0 [])
      else io_return [])"

text \<open>
  Lines 266 to 274: \<^verbatim>\<open>createWriteStream(zipPath)\<close> with archiver piped into it. The
  stream opens its file asynchronously. When \<^verbatim>\<open>downloads\<close> exists, the archive listing
  the parts is written there. When it does not, the open fails with \<^verbatim>\<open>ENOENT\<close> as an
  \<^verbatim>\<open>'error'\<close> event of the stream, which has no listener. That is not an exception
  of the \<^verbatim>\<open>try\<close> block, so \<^verbatim>\<open>archive.finalize()\<close> still resolves. Instead it is
  an uncaught exception that ends the process. The result says whether the stream failed.
\<close>

definition archive_toFile :: "fpath \<Rightarrow> string list \<Rightarrow> ('pg, bool) io" where
  "archive_toFile p names = (\<lambda>s.
     if fst p \<in> dirs s then (s\<lparr>store := AList.update p (Archive names, clock s) (store s)\<rparr>, Inr False)
     else (s, Inr True))"

text \<open>
  The \<^verbatim>\<open>try\<close> block of lines 196 to 281: its answer, with the flag of the archive
  stream's uncaught error.
\<close>

definition split_body ::
  "string option \<Rightarrow> string option \<Rightarrow> string option \<Rightarrow> upload option \<Rightarrow>
   ('pg, response \<times> bool) io" where
  "split_body splitOption pageRanges numParts file =
     (case file of
        None \<Rightarrow> io_return (Status_400 no_file_message, False)
      | Some file \<Rightarrow>
          io_bind (fs_readFile (up_path file)) (\<lambda>pdfBytes.
          io_bind (io_lift (blob_load pdfBytes)) (\<lambda>pdfDoc.
          let totalPages = get_page_count pdfDoc in
          io_bind (split_outputs splitOption pageRanges numParts pdfDoc totalPages) (\<lambda>outputFiles.
          io_bind (fs_unlink (up_path file)) (\<lambda>_.
          io_bind date_now (\<lambda>now.
          let zipFilename = zip_filename now in
          io_bind (archive_toFile (''downloads'', zipFilename) outputFiles) (\<lambda>streamError.
          io_return (Success zipFilename (download_url zipFilename)
            (''Split into '' @ dec_string (length outputFiles) @ '' files''), streamError))))))))"

text \<open>
  The handler, lines 195 to 287: the answer of the \<^verbatim>\<open>try\<close> block, or 500 from the
  \<^verbatim>\<open>catch\<close> block. A split crashes the process when the archive stream fails. Whether
  the answer reaches the client before the process ends depends on the order of the
  \<^verbatim>\<open>finalize\<close> and \<^verbatim>\<open>'error'\<close> events.
\<close>

definition split_handler ::
  "string option \<Rightarrow> string option \<Rightarrow> string option \<Rightarrow> upload option \<Rightarrow>
   'pg fs_state \<Rightarrow> 'pg fs_state \<times> response" where
  "split_handler splitOption pageRanges numParts file =
     catch_500 (io_bind (split_body splitOption pageRanges numParts file) (\<lambda>rc. io_return (fst rc)))"

definition split_crashes ::
  "string option \<Rightarrow> string option \<Rightarrow> string option \<Rightarrow> upload option \<Rightarrow> 'pg fs_state \<Rightarrow> bool" where
  "split_crashes splitOption pageRanges numParts file s =
     (case snd (split_body splitOption pageRanges numParts file s) of Inr (_, streamError) \<Rightarrow> streamError
      | Inl _ \<Rightarrow> False)"

declare part_filename_def [model_eval] zip_filename_def [model_eval] write_part_def [model_eval] split_outputs_def [model_eval]
  archive_toFile_def [model_eval] split_body_def [model_eval] split_handler_def [model_eval] split_crashes_def [model_eval]

subsection \<open>Writing the parts\<close>

text \<open>Writing a list of finished documents as parts \<open>i + 1\<close>, \<open>i + 2\<close>, \<dots>\<close>

fun write_all :: "nat \<Rightarrow> 'pg pdf_doc list \<Rightarrow> string list \<Rightarrow> ('pg, string list) io" where
  "write_all i [] acc = io_return acc"
| "write_all i (d # ds) acc = io_bind (write_part i d acc) (\<lambda>acc. write_all (i + 1) ds acc)"

definition part_names :: "nat \<Rightarrow> nat \<Rightarrow> nat \<Rightarrow> string list" where
  "part_names i n now = map (\<lambda>j. part_filename (j + 1) now) [i..<i + n]"

definition part_paths :: "nat \<Rightarrow> nat \<Rightarrow> nat \<Rightarrow> fpath list" where
  "part_paths i n now = map (\<lambda>x. (''downloads'', x)) (part_names i n now)"

lemma part_filename_inj [simp]: "part_filename m t = part_filename n t' \<longleftrightarrow> m = n \<and> t = t'"
  by (auto simp: part_filename_def dest: dec_string_dash_inj)

lemma part_filename_zip_filename [simp]: "part_filename n t \<noteq> zip_filename t'"
  by (simp add: part_filename_def zip_filename_def)

lemma keeps_env_write_part [intro, simp]: "keeps_env (write_part i d acc)"
  by (auto simp: write_part_def Let_def)

lemma keeps_env_write_all [intro, simp]: "keeps_env (write_all i ds acc)"
  by (induction ds arbitrary: i acc) auto

lemma write_part_ok:
  "''downloads'' \<in> dirs s \<Longrightarrow>
   write_part i d acc s =
     (s\<lparr>store := AList.update (''downloads'', part_filename (i + 1) (clock s)) (blob_save d, clock s) (store s)\<rparr>,
      Inr (acc @ [part_filename (i + 1) (clock s)]))"
  by (simp add: write_part_def io_bind_def date_now_def fs_writeFile_def io_return_def Let_def)

lemma write_part_no_dir:
  "''downloads'' \<notin> dirs s \<Longrightarrow> write_part i d acc s = (s, Inl enoent)"
  by (simp add: write_part_def io_bind_def date_now_def fs_writeFile_def Let_def)

text \<open>With the directory present, every part is written with the clock as its time.\<close>

lemma write_all_ok:
  assumes "''downloads'' \<in> dirs s"
  shows "\<exists>s'. write_all i ds acc s = (s', Inr (acc @ part_names i (length ds) (clock s)))
           \<and> map_of (store s') = (map_of (store s))
               (part_paths i (length ds) (clock s) [\<mapsto>] map (\<lambda>d. (blob_save d, clock s)) ds)
           \<and> dirs s' = dirs s \<and> clock s' = clock s"
  using assms
proof (induction ds arbitrary: i acc s)
  case Nil
  then show ?case by (simp add: io_return_def part_names_def part_paths_def)
next
  case (Cons d ds)
  let ?s1 = "s\<lparr>store := AList.update (''downloads'', part_filename (i + 1) (clock s)) (blob_save d, clock s) (store s)\<rparr>"
  let ?acc = "acc @ [part_filename (i + 1) (clock s)]"
  have "\<exists>s'. write_all (i + 1) ds ?acc ?s1 = (s', Inr (?acc @ part_names (i + 1) (length ds) (clock ?s1)))
      \<and> map_of (store s') = (map_of (store ?s1))
          (part_paths (i + 1) (length ds) (clock ?s1) [\<mapsto>] map (\<lambda>d. (blob_save d, clock ?s1)) ds)
      \<and> dirs s' = dirs ?s1 \<and> clock s' = clock ?s1"
    by (rule Cons.IH) (simp add: Cons.prems)
  then obtain s' where IH: "write_all (i + 1) ds ?acc ?s1 = (s', Inr (?acc @ part_names (i + 1) (length ds) (clock s)))"
    "map_of (store s') = (map_of (store ?s1))
       (part_paths (i + 1) (length ds) (clock s) [\<mapsto>] map (\<lambda>d. (blob_save d, clock s)) ds)"
    "dirs s' = dirs s" "clock s' = clock s"
    by auto
  have names: "part_names i (Suc (length ds)) (clock s)
      = part_filename (i + 1) (clock s) # part_names (i + 1) (length ds) (clock s)"
    by (simp add: part_names_def upt_rec)
  have paths: "part_paths i (Suc (length ds)) (clock s)
      = (''downloads'', part_filename (i + 1) (clock s)) # part_paths (i + 1) (length ds) (clock s)"
    by (simp add: part_paths_def names)
  show ?case
    using IH Cons.prems by (simp add: write_part_ok io_bind_def names paths)
qed

subsection \<open>The loops write the engine's documents\<close>

lemma range_files_ok:
  "range_parts src T rs = Inr docs \<Longrightarrow> range_files src T rs i acc = write_all i docs acc"
proof (induction rs arbitrary: docs i acc)
  case Nil
  then show ?case by simp
next
  case (Cons r rs)
  then obtain d ds where "range_part src T r = Inr d" "range_parts src T rs = Inr ds" "docs = d # ds"
    by (auto split: sum.splits)
  moreover have "range_files src T rs (Suc i) = write_all (Suc i) ds"
    using Cons.IH [OF \<open>range_parts src T rs = Inr ds\<close>] by (simp add: fun_eq_iff)
  ultimately show ?case
    by (simp add: io_bind_lift_Inr)
qed

lemma range_files_fail:
  assumes "range_parts src T xs = Inr docs" and "range_part src T y = Inl e"
  shows "range_files src T (xs @ y # ys) i acc = io_bind (write_all i docs acc) (\<lambda>_. io_lift (Inl e))"
  using assms
proof (induction xs arbitrary: docs i acc)
  case Nil
  then show ?case by (simp add: io_bind_lift_Inl io_bind_return)
next
  case (Cons x xs)
  then obtain d ds where "range_part src T x = Inr d" "range_parts src T xs = Inr ds" "docs = d # ds"
    by (auto split: sum.splits)
  moreover have "range_files src T (xs @ y # ys) (Suc i)
      = (\<lambda>a. io_bind (write_all (Suc i) ds a) (\<lambda>_. io_lift (Inl e)))"
    using Cons.IH [OF \<open>range_parts src T xs = Inr ds\<close> Cons.prems(2)] by (simp add: fun_eq_iff)
  ultimately show ?case
    by (simp add: io_bind_lift_Inr io_bind_assoc)
qed

lemma size_files_ok:
  "size_loop src T parts k i = Inr docs \<Longrightarrow> 0 \<le> i \<Longrightarrow>
   size_files src T parts k i acc = write_all (nat i) docs acc"
proof (induction src T parts k i acc arbitrary: docs rule: size_files.induct)
  case (1 src T parts k i acc)
  show ?case
  proof (cases "i < parts")
    case True
    let ?a = "i * k" and ?e = "min (i * k + k) (int T)"
    from "1.prems"(1) True obtain d ds where
      d: "page_loop src ?a ?e pdf_create = Inr d" and ds: "size_loop src T parts k (i + 1) = Inr ds"
      and docs: "docs = d # ds"
      by (subst (asm) size_loop.simps) (auto simp: Let_def split: sum.splits)
    have IH: "size_files src T parts k (i + 1) acc' = write_all (nat i + 1) ds acc'" for acc'
    proof -
      have "nat (i + 1) = nat i + 1"
        using "1.prems"(2) by simp
      then show ?thesis
        using "1.IH" [OF True refl refl] ds "1.prems"(2) by simp
    qed
    have "size_files src T parts k (i + 1) = write_all (nat i + 1) ds"
      using IH by (simp add: fun_eq_iff)
    then show ?thesis
      using True d docs by (subst size_files.simps) (simp add: io_bind_lift_Inr Let_def)
  next
    case False
    then show ?thesis
      using "1.prems" by (simp add: size_files.simps size_loop.simps)
  qed
qed

subsection \<open>Helpers for the handler\<close>

lemma part_paths_notin:
  "fst p \<noteq> ''downloads'' \<Longrightarrow> p \<notin> set (part_paths i n t)"
  by (auto simp: part_paths_def)

lemma zip_notin_part_paths [simp]:
  "(''downloads'', zip_filename t') \<notin> set (part_paths i n t)"
  by (auto simp: part_paths_def part_names_def dest: sym)

lemma length_part_names [simp]: "length (part_names i n t) = n"
  by (simp add: part_names_def)

lemma length_part_paths [simp]: "length (part_paths i n t) = n"
  by (simp add: part_paths_def part_names_def)

lemma keeps_env_range_files [intro, simp]: "keeps_env (range_files src T rs i acc)"
  by (induction rs arbitrary: i acc) auto

lemma keeps_env_size_files [intro, simp]: "keeps_env (size_files src T parts k i acc)"
proof (induction src T parts k i acc rule: size_files.induct)
  case (1 src T parts k i acc)
  show ?case
  proof (cases "i < parts")
    case True
    then have "keeps_env (size_files src T parts k (i + 1) a)" for a
      using "1" by blast
    then show ?thesis
      using True by (subst size_files.simps) (auto simp: Let_def intro!: keeps_env_bind)
  next
    case False
    then show ?thesis by (subst size_files.simps) simp
  qed
qed

lemma range_files_no_dir:
  "''downloads'' \<notin> dirs s \<Longrightarrow> fst (range_files src T rs i acc s) = s"
  by (cases rs) (auto simp: io_bind_def io_lift_def write_part_no_dir io_return_def split: sum.split)

lemma size_files_no_dir:
  "''downloads'' \<notin> dirs s \<Longrightarrow> fst (size_files src T parts k i acc s) = s"
  by (subst size_files.simps)
    (auto simp: io_bind_def io_lift_def write_part_no_dir io_return_def Let_def split: sum.split)

lemma keeps_env_split_outputs [intro, simp]: "keeps_env (split_outputs so pr np src T)"
  by (simp add: split_outputs_def split: option.split)

lemma split_outputs_no_dir:
  "''downloads'' \<notin> dirs s \<Longrightarrow> fst (split_outputs so pr np src T s) = s"
  by (simp add: split_outputs_def range_files_no_dir size_files_no_dir io_return_def split: option.split)

lemma split_handler_success_name:
  assumes "split_handler splitOption pageRanges numParts upl s = (s', Success z u m)"
  shows "z = zip_filename (clock s)"
proof (cases upl)
  case None
  then show ?thesis using assms by (simp add: split_handler_def split_body_def catch_500_def io_return_def io_bind_def)
next
  case (Some f)
  show ?thesis
  proof (cases "map_of (store s) (up_path f)")
    case None
    then show ?thesis
      using Some assms by (simp add: split_handler_def split_body_def catch_500_def io_bind_def fs_readFile_def)
  next
    case (Some bt)
    obtain b t where bt: "bt = (b, t)" by fastforce
    show ?thesis
    proof (cases "blob_load b")
      case (Inl e)
      then show ?thesis
        using \<open>upl = Some f\<close> Some bt assms
        by (simp add: split_handler_def split_body_def catch_500_def io_bind_def fs_readFile_def io_lift_def)
    next
      case (Inr src)
      obtain s1 r where so: "split_outputs splitOption pageRanges numParts src (get_page_count src) s = (s1, r)"
        by fastforce
      have c1: "clock s1 = clock s"
        using keeps_env_apply [OF keeps_env_split_outputs so] by simp
      show ?thesis
        using \<open>upl = Some f\<close> Some bt Inr so c1 assms
        by (cases r) (auto simp: split_handler_def split_body_def catch_500_def io_bind_def fs_readFile_def io_lift_def
            fs_unlink_def date_now_def archive_toFile_def io_return_def Let_def split: if_splits)
    qed
  qed
qed

text \<open>No part is built when neither mode applies, or the part count is not a positive
  number.\<close>

lemma split_outputs_no_parts:
  assumes "\<not> (splitOption = Some ''pages'' \<and> js_truthy pageRanges)"
    and "\<not> (splitOption = Some ''size'' \<and> js_truthy numParts \<and> (\<exists>P. js_parseInt_field numParts = Some P \<and> 0 < P))"
  shows "split_outputs splitOption pageRanges numParts src T s = (s, Inr [])"
  using assms
  by (auto simp: split_outputs_def io_return_def size_files.simps split: option.split)

subsection \<open>Properties of the split handler\<close>

text \<open>
  C10. A split that builds no part (no mode applies, e.g. an empty \<^verbatim>\<open>pageRanges\<close>,
  or the part count is \<^verbatim>\<open>0\<close>, negative or not a number) on a server without
  \<^verbatim>\<open>downloads\<close> deletes the upload and answers success with an archive name. The
  archive is never created, and its stream's uncaught error crashes the process.
\<close>

theorem split_no_parts_crashes:
  assumes nodir: "''downloads'' \<notin> dirs s"
    and up: "map_of (store s) (up_path f) = Some (Bytes (Pdf_bytes ps), t)"
    and nopages: "\<not> (splitOption = Some ''pages'' \<and> js_truthy pageRanges)"
    and nosize: "\<not> (splitOption = Some ''size'' \<and> js_truthy numParts \<and> (\<exists>P. js_parseInt_field numParts = Some P \<and> 0 < P))"
  shows "split_handler splitOption pageRanges numParts (Some f) s =
           (s\<lparr>store := AList.delete (up_path f) (store s)\<rparr>,
            Success (zip_filename (clock s)) (download_url (zip_filename (clock s))) ''Split into 0 files'')
         \<and> split_crashes splitOption pageRanges numParts (Some f) s"
proof -
  have so: "split_outputs splitOption pageRanges numParts \<lparr>pages = ps\<rparr> (get_page_count \<lparr>pages = ps\<rparr>) s = (s, Inr [])"
    by (rule split_outputs_no_parts [OF nopages nosize])
  have body: "split_body splitOption pageRanges numParts (Some f) s =
      (s\<lparr>store := AList.delete (up_path f) (store s)\<rparr>,
       Inr (Success (zip_filename (clock s)) (download_url (zip_filename (clock s))) ''Split into 0 files'', True))"
    using up nodir so
    by (simp add: split_body_def io_bind_def fs_readFile_def io_lift_def blob_load_def pdf_load_def
        fs_unlink_def date_now_def archive_toFile_def io_return_def Let_def dec_string.simps dec_digit_def)
  show ?thesis
    by (simp add: split_handler_def split_crashes_def catch_500_def io_bind_def io_return_def body)
qed

theorem split_no_parts_crashes_witness:
  "''downloads'' \<notin> dirs \<lparr>store = [((''uploads'', ''1-a.pdf''), (Bytes (Pdf_bytes [10, 20, 30 :: nat]), 1))],
                              dirs = {''uploads''}, clock = 7\<rparr>
   \<and> map_of (store \<lparr>store = [((''uploads'', ''1-a.pdf''), (Bytes (Pdf_bytes [10, 20, 30 :: nat]), 1))],
                     dirs = {''uploads''}, clock = 7\<rparr>) (''uploads'', ''1-a.pdf'') = Some (Bytes (Pdf_bytes [10, 20, 30]), 1)
   \<and> \<not> (Some ''size'' = Some ''pages'' \<and> js_truthy None)
   \<and> \<not> (Some ''size'' = Some ''size'' \<and> js_truthy (Some ''0'') \<and> (\<exists>P. js_parseInt_field (Some ''0'') = Some P \<and> 0 < P))
   \<and> split_handler (Some ''size'') None (Some ''0'') (Some \<lparr>up_path = (''uploads'', ''1-a.pdf''), originalname = ''a.pdf''\<rparr>)
       \<lparr>store = [((''uploads'', ''1-a.pdf''), (Bytes (Pdf_bytes [10, 20, 30 :: nat]), 1))], dirs = {''uploads''}, clock = 7\<rparr>
     = (\<lparr>store = [], dirs = {''uploads''}, clock = 7\<rparr>,
        Success ''split-files-7.zip'' ''/downloads/split-files-7.zip'' ''Split into 0 files'')
   \<and> split_crashes (Some ''size'') None (Some ''0'') (Some \<lparr>up_path = (''uploads'', ''1-a.pdf''), originalname = ''a.pdf''\<rparr>)
       \<lparr>store = [((''uploads'', ''1-a.pdf''), (Bytes (Pdf_bytes [10, 20, 30 :: nat]), 1))], dirs = {''uploads''}, clock = 7\<rparr>"
proof -
  have h: "''downloads'' \<notin> dirs \<lparr>store = [((''uploads'', ''1-a.pdf''), (Bytes (Pdf_bytes [10, 20, 30 :: nat]), 1))],
                              dirs = {''uploads''}, clock = 7\<rparr>"
    "map_of (store \<lparr>store = [((''uploads'', ''1-a.pdf''), (Bytes (Pdf_bytes [10, 20, 30 :: nat]), 1))],
                     dirs = {''uploads''}, clock = 7\<rparr>)
       (up_path \<lparr>up_path = (''uploads'', ''1-a.pdf''), originalname = ''a.pdf''\<rparr>) = Some (Bytes (Pdf_bytes [10, 20, 30]), 1)"
    "\<not> (Some ''size'' = Some ''pages'' \<and> js_truthy None)"
    "\<not> (Some ''size'' = Some ''size'' \<and> js_truthy (Some ''0'') \<and> (\<exists>P. js_parseInt_field (Some ''0'') = Some P \<and> 0 < P))"
    by (simp_all add: model_eval)
  show ?thesis
    using split_no_parts_crashes [OF h] h by (simp add: model_eval dec_string.simps dec_digit_def)
qed

text \<open>
  C28. With a \<^verbatim>\<open>downloads\<close> directory and a stored PDF upload, a split by page
  ranges that the engine performs answers success with \<^verbatim>\<open>split-files-<now>.zip\<close>:
  the store then holds, under \<^verbatim>\<open>split-part<i>-<now>.pdf\<close>, exactly the documents
  of \<open>split_by_range\<close> in token order, the archive lists them, and the upload is
  deleted.
\<close>

theorem split_handler_pages_success:
  assumes "''downloads'' \<in> dirs s" and "fst (up_path f) \<noteq> ''downloads''"
    and "map_of (store s) (up_path f) = Some (Bytes (Pdf_bytes ps), t)"
    and "r \<noteq> []" and "split_by_range \<lparr>pages = ps\<rparr> r = Inr docs"
  shows "\<exists>s'. split_handler (Some ''pages'') (Some r) numParts (Some f) s =
           (s', Success (zip_filename (clock s)) (download_url (zip_filename (clock s)))
                  (''Split into '' @ dec_string (length docs) @ '' files''))
         \<and> map_of (store s') =
             ((map_of (store s))
                (part_paths 0 (length docs) (clock s) [\<mapsto>] map (\<lambda>d. (blob_save d, clock s)) docs))
               (up_path f := None,
                (''downloads'', zip_filename (clock s)) \<mapsto>
                  (Archive (part_names 0 (length docs) (clock s)), clock s))"
proof -
  have rf: "range_files \<lparr>pages = ps\<rparr> (length ps) (parse_ranges r) 0 [] = write_all 0 docs []"
    using assms(5) by (intro range_files_ok) (simp add: split_by_range_def get_page_count_def)
  obtain s1 where s1: "write_all 0 docs [] s = (s1, Inr (part_names 0 (length docs) (clock s)))"
    "map_of (store s1) = (map_of (store s))
        (part_paths 0 (length docs) (clock s) [\<mapsto>] map (\<lambda>d. (blob_save d, clock s)) docs)"
    "dirs s1 = dirs s" "clock s1 = clock s"
    using write_all_ok [OF assms(1), of 0 docs "[]"] by auto
  have up: "map_of (store s1) (up_path f) = Some (Bytes (Pdf_bytes ps), t)"
    using s1(2) assms(3) part_paths_notin [OF assms(2)] by simp
  show ?thesis
    using assms(1,3,4) rf s1 up
    by (simp add: split_handler_def split_body_def split_outputs_def catch_500_def io_bind_def fs_readFile_def io_lift_def
        blob_load_def pdf_load_def js_truthy_def js_str_def get_page_count_def fs_unlink_def
        date_now_def archive_toFile_def io_return_def Let_def fun_upd_twist)
qed

theorem split_handler_pages_success_witness:
  "''downloads'' \<in> dirs \<lparr>store = [((''uploads'', ''1-a.pdf''), (Bytes (Pdf_bytes [10, 20, 30 :: nat]), 1))],
        dirs = {''downloads'', ''uploads''}, clock = 7\<rparr> \<and> fst (up_path \<lparr>up_path = (''uploads'', ''1-a.pdf''), originalname = ''a.pdf''\<rparr>) \<noteq> ''downloads''
   \<and> map_of (store \<lparr>store = [((''uploads'', ''1-a.pdf''), (Bytes (Pdf_bytes [10, 20, 30 :: nat]), 1))],
        dirs = {''downloads'', ''uploads''}, clock = 7\<rparr>) (up_path \<lparr>up_path = (''uploads'', ''1-a.pdf''), originalname = ''a.pdf''\<rparr>) = Some (Bytes (Pdf_bytes [10, 20, 30]), 1)
   \<and> ''1-2,3'' \<noteq> [] \<and> split_by_range \<lparr>pages = [10, 20, 30 :: nat]\<rparr> ''1-2,3'' = Inr [\<lparr>pages = [10, 20 :: nat]\<rparr>, \<lparr>pages = [30]\<rparr>]
   \<and> (\<exists>s'. split_handler (Some ''pages'') (Some ''1-2,3'') None (Some \<lparr>up_path = (''uploads'', ''1-a.pdf''), originalname = ''a.pdf''\<rparr>) \<lparr>store = [((''uploads'', ''1-a.pdf''), (Bytes (Pdf_bytes [10, 20, 30 :: nat]), 1))],
        dirs = {''downloads'', ''uploads''}, clock = 7\<rparr> =
           (s', Success (zip_filename (clock \<lparr>store = [((''uploads'', ''1-a.pdf''), (Bytes (Pdf_bytes [10, 20, 30 :: nat]), 1))],
        dirs = {''downloads'', ''uploads''}, clock = 7\<rparr>)) (download_url (zip_filename (clock \<lparr>store = [((''uploads'', ''1-a.pdf''), (Bytes (Pdf_bytes [10, 20, 30 :: nat]), 1))],
        dirs = {''downloads'', ''uploads''}, clock = 7\<rparr>)))
                  (''Split into '' @ dec_string (length [\<lparr>pages = [10, 20 :: nat]\<rparr>, \<lparr>pages = [30]\<rparr>]) @ '' files''))
         \<and> map_of (store s') =
             ((map_of (store \<lparr>store = [((''uploads'', ''1-a.pdf''), (Bytes (Pdf_bytes [10, 20, 30 :: nat]), 1))],
        dirs = {''downloads'', ''uploads''}, clock = 7\<rparr>))
                (part_paths 0 (length [\<lparr>pages = [10, 20 :: nat]\<rparr>, \<lparr>pages = [30]\<rparr>]) (clock \<lparr>store = [((''uploads'', ''1-a.pdf''), (Bytes (Pdf_bytes [10, 20, 30 :: nat]), 1))],
        dirs = {''downloads'', ''uploads''}, clock = 7\<rparr>) [\<mapsto>] map (\<lambda>d. (blob_save d, clock \<lparr>store = [((''uploads'', ''1-a.pdf''), (Bytes (Pdf_bytes [10, 20, 30 :: nat]), 1))],
        dirs = {''downloads'', ''uploads''}, clock = 7\<rparr>)) [\<lparr>pages = [10, 20 :: nat]\<rparr>, \<lparr>pages = [30]\<rparr>]))
               (up_path \<lparr>up_path = (''uploads'', ''1-a.pdf''), originalname = ''a.pdf''\<rparr> := None,
                (''downloads'', zip_filename (clock \<lparr>store = [((''uploads'', ''1-a.pdf''), (Bytes (Pdf_bytes [10, 20, 30 :: nat]), 1))],
        dirs = {''downloads'', ''uploads''}, clock = 7\<rparr>)) \<mapsto>
                  (Archive (part_names 0 (length [\<lparr>pages = [10, 20 :: nat]\<rparr>, \<lparr>pages = [30]\<rparr>]) (clock \<lparr>store = [((''uploads'', ''1-a.pdf''), (Bytes (Pdf_bytes [10, 20, 30 :: nat]), 1))],
        dirs = {''downloads'', ''uploads''}, clock = 7\<rparr>)), clock \<lparr>store = [((''uploads'', ''1-a.pdf''), (Bytes (Pdf_bytes [10, 20, 30 :: nat]), 1))],
        dirs = {''downloads'', ''uploads''}, clock = 7\<rparr>)))"
proof -
  have h: "''downloads'' \<in> dirs \<lparr>store = [((''uploads'', ''1-a.pdf''), (Bytes (Pdf_bytes [10, 20, 30 :: nat]), 1))],
        dirs = {''downloads'', ''uploads''}, clock = 7\<rparr>" "fst (up_path \<lparr>up_path = (''uploads'', ''1-a.pdf''), originalname = ''a.pdf''\<rparr>) \<noteq> ''downloads''"
    "map_of (store \<lparr>store = [((''uploads'', ''1-a.pdf''), (Bytes (Pdf_bytes [10, 20, 30 :: nat]), 1))],
        dirs = {''downloads'', ''uploads''}, clock = 7\<rparr>) (up_path \<lparr>up_path = (''uploads'', ''1-a.pdf''), originalname = ''a.pdf''\<rparr>) = Some (Bytes (Pdf_bytes [10, 20, 30]), 1)"
    "''1-2,3'' \<noteq> []" "split_by_range \<lparr>pages = [10, 20, 30 :: nat]\<rparr> ''1-2,3'' = Inr [\<lparr>pages = [10, 20 :: nat]\<rparr>, \<lparr>pages = [30]\<rparr>]"
    by (simp_all add: model_eval interval_loop.simps js_split_Cons)
  show ?thesis
    using split_handler_pages_success [OF h, of None] h by blast
qed

text \<open>
  C29. The same for a split by size: the stored parts are exactly the documents of
  \<open>split_by_size\<close>.
\<close>

theorem split_handler_size_success:
  assumes "''downloads'' \<in> dirs s" and "fst (up_path f) \<noteq> ''downloads''"
    and "map_of (store s) (up_path f) = Some (Bytes (Pdf_bytes ps), t)"
    and "n \<noteq> []" and "split_by_size \<lparr>pages = ps\<rparr> n = Inr docs"
  shows "\<exists>s'. split_handler (Some ''size'') pageRanges (Some n) (Some f) s =
           (s', Success (zip_filename (clock s)) (download_url (zip_filename (clock s)))
                  (''Split into '' @ dec_string (length docs) @ '' files''))
         \<and> map_of (store s') =
             ((map_of (store s))
                (part_paths 0 (length docs) (clock s) [\<mapsto>] map (\<lambda>d. (blob_save d, clock s)) docs))
               (up_path f := None,
                (''downloads'', zip_filename (clock s)) \<mapsto>
                  (Archive (part_names 0 (length docs) (clock s)), clock s))"
proof -
  have loop: "(case js_parseInt n of
                 None \<Rightarrow> io_return []
               | Some parts \<Rightarrow> size_files \<lparr>pages = ps\<rparr> (length ps) parts
                                 (js_ceil_div (length ps) parts) 0 []) = write_all 0 docs []"
  proof (cases "js_parseInt n")
    case None
    then show ?thesis using assms(5) by (simp add: split_by_size_def)
  next
    case (Some P)
    then show ?thesis
      using assms(5) size_files_ok [of "\<lparr>pages = ps\<rparr>" "length ps" P _ 0 docs "[]"]
      by (simp add: split_by_size_def get_page_count_def Let_def)
  qed
  obtain s1 where s1: "write_all 0 docs [] s = (s1, Inr (part_names 0 (length docs) (clock s)))"
    "map_of (store s1) = (map_of (store s))
        (part_paths 0 (length docs) (clock s) [\<mapsto>] map (\<lambda>d. (blob_save d, clock s)) docs)"
    "dirs s1 = dirs s" "clock s1 = clock s"
    using write_all_ok [OF assms(1), of 0 docs "[]"] by auto
  have up: "map_of (store s1) (up_path f) = Some (Bytes (Pdf_bytes ps), t)"
    using s1(2) assms(3) part_paths_notin [OF assms(2)] by simp
  show ?thesis
    using assms(1,3,4) loop s1 up
    by (simp add: split_handler_def split_body_def split_outputs_def catch_500_def io_bind_def fs_readFile_def io_lift_def
        blob_load_def pdf_load_def js_truthy_def js_parseInt_field_def js_str_def get_page_count_def
        fs_unlink_def date_now_def archive_toFile_def io_return_def Let_def fun_upd_twist
        cong: option.case_cong)
qed

theorem split_handler_size_success_witness:
  "''downloads'' \<in> dirs \<lparr>store = [((''uploads'', ''1-a.pdf''), (Bytes (Pdf_bytes [10, 20, 30 :: nat]), 1))],
        dirs = {''downloads'', ''uploads''}, clock = 7\<rparr> \<and> fst (up_path \<lparr>up_path = (''uploads'', ''1-a.pdf''), originalname = ''a.pdf''\<rparr>) \<noteq> ''downloads''
   \<and> map_of (store \<lparr>store = [((''uploads'', ''1-a.pdf''), (Bytes (Pdf_bytes [10, 20, 30 :: nat]), 1))],
        dirs = {''downloads'', ''uploads''}, clock = 7\<rparr>) (up_path \<lparr>up_path = (''uploads'', ''1-a.pdf''), originalname = ''a.pdf''\<rparr>) = Some (Bytes (Pdf_bytes [10, 20, 30]), 1)
   \<and> ''2'' \<noteq> [] \<and> split_by_size \<lparr>pages = [10, 20, 30 :: nat]\<rparr> ''2'' = Inr [\<lparr>pages = [10, 20 :: nat]\<rparr>, \<lparr>pages = [30]\<rparr>]
   \<and> (\<exists>s'. split_handler (Some ''size'') None (Some ''2'') (Some \<lparr>up_path = (''uploads'', ''1-a.pdf''), originalname = ''a.pdf''\<rparr>) \<lparr>store = [((''uploads'', ''1-a.pdf''), (Bytes (Pdf_bytes [10, 20, 30 :: nat]), 1))],
        dirs = {''downloads'', ''uploads''}, clock = 7\<rparr> =
           (s', Success (zip_filename (clock \<lparr>store = [((''uploads'', ''1-a.pdf''), (Bytes (Pdf_bytes [10, 20, 30 :: nat]), 1))],
        dirs = {''downloads'', ''uploads''}, clock = 7\<rparr>)) (download_url (zip_filename (clock \<lparr>store = [((''uploads'', ''1-a.pdf''), (Bytes (Pdf_bytes [10, 20, 30 :: nat]), 1))],
        dirs = {''downloads'', ''uploads''}, clock = 7\<rparr>)))
                  (''Split into '' @ dec_string (length [\<lparr>pages = [10, 20 :: nat]\<rparr>, \<lparr>pages = [30]\<rparr>]) @ '' files''))
         \<and> map_of (store s') =
             ((map_of (store \<lparr>store = [((''uploads'', ''1-a.pdf''), (Bytes (Pdf_bytes [10, 20, 30 :: nat]), 1))],
        dirs = {''downloads'', ''uploads''}, clock = 7\<rparr>))
                (part_paths 0 (length [\<lparr>pages = [10, 20 :: nat]\<rparr>, \<lparr>pages = [30]\<rparr>]) (clock \<lparr>store = [((''uploads'', ''1-a.pdf''), (Bytes (Pdf_bytes [10, 20, 30 :: nat]), 1))],
        dirs = {''downloads'', ''uploads''}, clock = 7\<rparr>) [\<mapsto>] map (\<lambda>d. (blob_save d, clock \<lparr>store = [((''uploads'', ''1-a.pdf''), (Bytes (Pdf_bytes [10, 20, 30 :: nat]), 1))],
        dirs = {''downloads'', ''uploads''}, clock = 7\<rparr>)) [\<lparr>pages = [10, 20 :: nat]\<rparr>, \<lparr>pages = [30]\<rparr>]))
               (up_path \<lparr>up_path = (''uploads'', ''1-a.pdf''), originalname = ''a.pdf''\<rparr> := None,
                (''downloads'', zip_filename (clock \<lparr>store = [((''uploads'', ''1-a.pdf''), (Bytes (Pdf_bytes [10, 20, 30 :: nat]), 1))],
        dirs = {''downloads'', ''uploads''}, clock = 7\<rparr>)) \<mapsto>
                  (Archive (part_names 0 (length [\<lparr>pages = [10, 20 :: nat]\<rparr>, \<lparr>pages = [30]\<rparr>]) (clock \<lparr>store = [((''uploads'', ''1-a.pdf''), (Bytes (Pdf_bytes [10, 20, 30 :: nat]), 1))],
        dirs = {''downloads'', ''uploads''}, clock = 7\<rparr>)), clock \<lparr>store = [((''uploads'', ''1-a.pdf''), (Bytes (Pdf_bytes [10, 20, 30 :: nat]), 1))],
        dirs = {''downloads'', ''uploads''}, clock = 7\<rparr>)))"
proof -
  have h: "''downloads'' \<in> dirs \<lparr>store = [((''uploads'', ''1-a.pdf''), (Bytes (Pdf_bytes [10, 20, 30 :: nat]), 1))],
        dirs = {''downloads'', ''uploads''}, clock = 7\<rparr>" "fst (up_path \<lparr>up_path = (''uploads'', ''1-a.pdf''), originalname = ''a.pdf''\<rparr>) \<noteq> ''downloads''"
    "map_of (store \<lparr>store = [((''uploads'', ''1-a.pdf''), (Bytes (Pdf_bytes [10, 20, 30 :: nat]), 1))],
        dirs = {''downloads'', ''uploads''}, clock = 7\<rparr>) (up_path \<lparr>up_path = (''uploads'', ''1-a.pdf''), originalname = ''a.pdf''\<rparr>) = Some (Bytes (Pdf_bytes [10, 20, 30]), 1)"
    "''2'' \<noteq> []" "split_by_size \<lparr>pages = [10, 20, 30 :: nat]\<rparr> ''2'' = Inr [\<lparr>pages = [10, 20 :: nat]\<rparr>, \<lparr>pages = [30]\<rparr>]"
    by (simp_all add: model_eval js_ceil_div_int size_loop.simps page_loop.simps)
  show ?thesis
    using split_handler_size_success [OF h, of None] h by blast
qed

text \<open>
  C30. When the token after the first \<open>k\<close> throws, the request answers 500 with
  that exception, but the \<open>k\<close> parts already built stay in \<^verbatim>\<open>downloads\<close> and
  the upload is not deleted (spec section 4.2 asks that no partial artifact be
  emitted).
\<close>

theorem split_handler_partial_parts:
  assumes "''downloads'' \<in> dirs s" and "fst (up_path f) \<noteq> ''downloads''"
    and "map_of (store s) (up_path f) = Some (Bytes (Pdf_bytes ps), t)" and "r \<noteq> []"
    and "parse_ranges r = xs @ y # ys"
    and "range_parts \<lparr>pages = ps\<rparr> (length ps) xs = Inr docs"
    and "range_part \<lparr>pages = ps\<rparr> (length ps) y = Inl e"
  shows "\<exists>s'. split_handler (Some ''pages'') (Some r) numParts (Some f) s = (s', Status_500 e)
         \<and> map_of (store s') = (map_of (store s))
             (part_paths 0 (length docs) (clock s) [\<mapsto>] map (\<lambda>d. (blob_save d, clock s)) docs)"
proof -
  obtain s1 where s1: "write_all 0 docs [] s = (s1, Inr (part_names 0 (length docs) (clock s)))"
    "map_of (store s1) = (map_of (store s))
        (part_paths 0 (length docs) (clock s) [\<mapsto>] map (\<lambda>d. (blob_save d, clock s)) docs)"
    using write_all_ok [OF assms(1), of 0 docs "[]"] by auto
  have "range_files \<lparr>pages = ps\<rparr> (length ps) (parse_ranges r) 0 []
          = io_bind (write_all 0 docs []) (\<lambda>_. io_lift (Inl e))"
    unfolding assms(5) by (rule range_files_fail [OF assms(6,7)])
  then show ?thesis
    using assms(3,4) s1
    by (simp add: split_handler_def split_body_def split_outputs_def catch_500_def io_bind_def fs_readFile_def io_lift_def
        blob_load_def pdf_load_def js_truthy_def js_str_def get_page_count_def)
qed

theorem split_handler_partial_parts_witness:
  "''downloads'' \<in> dirs \<lparr>store = [((''uploads'', ''1-a.pdf''), (Bytes (Pdf_bytes [10, 20, 30 :: nat]), 1))],
        dirs = {''downloads'', ''uploads''}, clock = 7\<rparr> \<and> fst (up_path \<lparr>up_path = (''uploads'', ''1-a.pdf''), originalname = ''a.pdf''\<rparr>) \<noteq> ''downloads''
   \<and> map_of (store \<lparr>store = [((''uploads'', ''1-a.pdf''), (Bytes (Pdf_bytes [10, 20, 30 :: nat]), 1))],
        dirs = {''downloads'', ''uploads''}, clock = 7\<rparr>) (up_path \<lparr>up_path = (''uploads'', ''1-a.pdf''), originalname = ''a.pdf''\<rparr>) = Some (Bytes (Pdf_bytes [10, 20, 30]), 1)
   \<and> ''1,0'' \<noteq> [] \<and> parse_ranges ''1,0'' = [''1''] @ ''0'' # []
   \<and> range_parts \<lparr>pages = [10, 20, 30 :: nat]\<rparr> (length [10, 20, 30 :: nat]) [''1''] = Inr [\<lparr>pages = [10 :: nat]\<rparr>]
   \<and> range_part \<lparr>pages = [10, 20, 30 :: nat]\<rparr> (length [10, 20, 30 :: nat]) ''0'' = Inl (Type_error (-1))
   \<and> (\<exists>s'. split_handler (Some ''pages'') (Some ''1,0'') None (Some \<lparr>up_path = (''uploads'', ''1-a.pdf''), originalname = ''a.pdf''\<rparr>) \<lparr>store = [((''uploads'', ''1-a.pdf''), (Bytes (Pdf_bytes [10, 20, 30 :: nat]), 1))],
        dirs = {''downloads'', ''uploads''}, clock = 7\<rparr>
             = (s', Status_500 (Type_error (-1)))
         \<and> map_of (store s') = (map_of (store \<lparr>store = [((''uploads'', ''1-a.pdf''), (Bytes (Pdf_bytes [10, 20, 30 :: nat]), 1))],
        dirs = {''downloads'', ''uploads''}, clock = 7\<rparr>))
             (part_paths 0 (length [\<lparr>pages = [10 :: nat]\<rparr>]) (clock \<lparr>store = [((''uploads'', ''1-a.pdf''), (Bytes (Pdf_bytes [10, 20, 30 :: nat]), 1))],
        dirs = {''downloads'', ''uploads''}, clock = 7\<rparr>) [\<mapsto>] map (\<lambda>d. (blob_save d, clock \<lparr>store = [((''uploads'', ''1-a.pdf''), (Bytes (Pdf_bytes [10, 20, 30 :: nat]), 1))],
        dirs = {''downloads'', ''uploads''}, clock = 7\<rparr>)) [\<lparr>pages = [10 :: nat]\<rparr>]))"
proof -
  have h: "''downloads'' \<in> dirs \<lparr>store = [((''uploads'', ''1-a.pdf''), (Bytes (Pdf_bytes [10, 20, 30 :: nat]), 1))],
        dirs = {''downloads'', ''uploads''}, clock = 7\<rparr>" "fst (up_path \<lparr>up_path = (''uploads'', ''1-a.pdf''), originalname = ''a.pdf''\<rparr>) \<noteq> ''downloads''"
    "map_of (store \<lparr>store = [((''uploads'', ''1-a.pdf''), (Bytes (Pdf_bytes [10, 20, 30 :: nat]), 1))],
        dirs = {''downloads'', ''uploads''}, clock = 7\<rparr>) (up_path \<lparr>up_path = (''uploads'', ''1-a.pdf''), originalname = ''a.pdf''\<rparr>) = Some (Bytes (Pdf_bytes [10, 20, 30]), 1)"
    "''1,0'' \<noteq> []" "parse_ranges ''1,0'' = [''1''] @ ''0'' # []"
    "range_parts \<lparr>pages = [10, 20, 30 :: nat]\<rparr> (length [10, 20, 30 :: nat]) [''1''] = Inr [\<lparr>pages = [10 :: nat]\<rparr>]"
    "range_part \<lparr>pages = [10, 20, 30 :: nat]\<rparr> (length [10, 20, 30 :: nat]) ''0'' = Inl (Type_error (-1))"
    by (simp_all add: model_eval js_split_Cons)
  show ?thesis
    using split_handler_partial_parts [OF h, of None] h by blast
qed

text \<open>
  C31. The split handler never creates \<^verbatim>\<open>downloads\<close> (the other handlers that
  write there call \<^verbatim>\<open>mkdir\<close> first). So on a server where it does not exist yet, no
  split request completes normally. Every split that answers success there crashes the
  process through its archive stream; the others answer 400 or 500.
\<close>

theorem split_handler_needs_downloads:
  assumes "''downloads'' \<notin> dirs s"
    and "is_success (snd (split_handler splitOption pageRanges numParts upl s))"
  shows "split_crashes splitOption pageRanges numParts upl s"
proof (cases upl)
  case None
  then show ?thesis using assms(2) by (simp add: split_handler_def split_body_def catch_500_def io_return_def io_bind_def)
next
  case (Some f)
  show ?thesis
  proof (cases "map_of (store s) (up_path f)")
    case None
    then show ?thesis
      using Some assms(2) by (simp add: split_handler_def split_body_def catch_500_def io_bind_def fs_readFile_def)
  next
    case (Some bt)
    obtain b t where bt: "bt = (b, t)" by fastforce
    show ?thesis
    proof (cases "blob_load b")
      case (Inl e)
      then show ?thesis
        using \<open>upl = Some f\<close> Some bt assms(2)
        by (simp add: split_handler_def split_body_def catch_500_def io_bind_def fs_readFile_def io_lift_def
            split: prod.split)
    next
      case (Inr src)
      obtain s1 r where so: "split_outputs splitOption pageRanges numParts src (get_page_count src) s = (s1, r)"
        by fastforce
      have s1: "s1 = s"
        using split_outputs_no_dir [OF assms(1)] so by (metis fst_conv)
      show ?thesis
        using \<open>upl = Some f\<close> Some bt Inr so s1 assms
        by (cases r) (auto simp: split_handler_def split_crashes_def split_body_def catch_500_def
            io_bind_def fs_readFile_def io_lift_def fs_unlink_def date_now_def archive_toFile_def
            io_return_def Let_def split: prod.split if_splits)
    qed
  qed
qed

theorem split_handler_needs_downloads_witness:
  "''downloads'' \<notin> dirs \<lparr>store = [((''uploads'', ''1-a.pdf''), (Bytes (Pdf_bytes [10, 20, 30 :: nat]), 1))],
                              dirs = {''uploads''}, clock = 7\<rparr>
   \<and> is_success (snd (split_handler (Some ''size'') None (Some ''0'') (Some \<lparr>up_path = (''uploads'', ''1-a.pdf''), originalname = ''a.pdf''\<rparr>)
        \<lparr>store = [((''uploads'', ''1-a.pdf''), (Bytes (Pdf_bytes [10, 20, 30 :: nat]), 1))],
         dirs = {''uploads''}, clock = 7\<rparr>))
   \<and> split_crashes (Some ''size'') None (Some ''0'') (Some \<lparr>up_path = (''uploads'', ''1-a.pdf''), originalname = ''a.pdf''\<rparr>)
        \<lparr>store = [((''uploads'', ''1-a.pdf''), (Bytes (Pdf_bytes [10, 20, 30 :: nat]), 1))],
         dirs = {''uploads''}, clock = 7\<rparr>"
proof -
  have h: "''downloads'' \<notin> dirs \<lparr>store = [((''uploads'', ''1-a.pdf''), (Bytes (Pdf_bytes [10, 20, 30 :: nat]), 1))],
                              dirs = {''uploads''}, clock = 7\<rparr>"
    "is_success (snd (split_handler (Some ''size'') None (Some ''0'') (Some \<lparr>up_path = (''uploads'', ''1-a.pdf''), originalname = ''a.pdf''\<rparr>)
        \<lparr>store = [((''uploads'', ''1-a.pdf''), (Bytes (Pdf_bytes [10, 20, 30 :: nat]), 1))],
         dirs = {''uploads''}, clock = 7\<rparr>))"
    by (simp_all add: model_eval size_files.simps Let_def)
  show ?thesis
    using split_handler_needs_downloads [OF h] h by simp
qed

text \<open>
  C32. The archive name depends only on the clock: two split requests that succeed at
  the same millisecond answer with the same file name, so the later archive replaces the
  earlier one (spec section 6 requires names unique per artifact).
\<close>

theorem split_archive_names_collide:
  assumes "split_handler so1 pr1 np1 upl1 s1 = (s1', Success z1 u1 m1)"
    and "split_handler so2 pr2 np2 upl2 s2 = (s2', Success z2 u2 m2)"
    and "clock s1 = clock s2"
  shows "z1 = z2"
  using split_handler_success_name [OF assms(1)] split_handler_success_name [OF assms(2)] assms(3)
  by simp

theorem split_archive_names_collide_witness:
  "split_handler (Some ''pages'') (Some ''1'') None (Some \<lparr>up_path = (''uploads'', ''1-a.pdf''), originalname = ''a.pdf''\<rparr>) \<lparr>store = [((''uploads'', ''1-a.pdf''), (Bytes (Pdf_bytes [10, 20, 30 :: nat]), 1))],
        dirs = {''downloads'', ''uploads''}, clock = 7\<rparr>
     = (\<lparr>store = [((''downloads'', ''split-part1-7.pdf''), (Bytes (Pdf_bytes [10]), 7)),
                   ((''downloads'', ''split-files-7.zip''), (Archive [''split-part1-7.pdf''], 7))],
         dirs = {''downloads'', ''uploads''}, clock = 7\<rparr>,
        Success ''split-files-7.zip'' ''/downloads/split-files-7.zip'' ''Split into 1 files'')
   \<and> split_handler (Some ''size'') None (Some ''1'') (Some \<lparr>up_path = (''uploads'', ''1-a.pdf''), originalname = ''a.pdf''\<rparr>) \<lparr>store = [((''uploads'', ''1-a.pdf''), (Bytes (Pdf_bytes [10, 20, 30 :: nat]), 1))],
        dirs = {''downloads'', ''uploads''}, clock = 7\<rparr>
     = (\<lparr>store = [((''downloads'', ''split-part1-7.pdf''), (Bytes (Pdf_bytes [10, 20, 30]), 7)),
                   ((''downloads'', ''split-files-7.zip''), (Archive [''split-part1-7.pdf''], 7))],
         dirs = {''downloads'', ''uploads''}, clock = 7\<rparr>,
        Success ''split-files-7.zip'' ''/downloads/split-files-7.zip'' ''Split into 1 files'')
   \<and> clock \<lparr>store = [((''uploads'', ''1-a.pdf''), (Bytes (Pdf_bytes [10, 20, 30 :: nat]), 1))],
        dirs = {''downloads'', ''uploads''}, clock = 7\<rparr> = clock \<lparr>store = [((''uploads'', ''1-a.pdf''), (Bytes (Pdf_bytes [10, 20, 30 :: nat]), 1))],
        dirs = {''downloads'', ''uploads''}, clock = 7\<rparr>
   \<and> ''split-files-7.zip'' = ''split-files-7.zip''"
proof -
  have h: "split_handler (Some ''pages'') (Some ''1'') None (Some \<lparr>up_path = (''uploads'', ''1-a.pdf''), originalname = ''a.pdf''\<rparr>) \<lparr>store = [((''uploads'', ''1-a.pdf''), (Bytes (Pdf_bytes [10, 20, 30 :: nat]), 1))],
        dirs = {''downloads'', ''uploads''}, clock = 7\<rparr>
     = (\<lparr>store = [((''downloads'', ''split-part1-7.pdf''), (Bytes (Pdf_bytes [10]), 7)),
                   ((''downloads'', ''split-files-7.zip''), (Archive [''split-part1-7.pdf''], 7))],
         dirs = {''downloads'', ''uploads''}, clock = 7\<rparr>,
        Success ''split-files-7.zip'' ''/downloads/split-files-7.zip'' ''Split into 1 files'')"
    "split_handler (Some ''size'') None (Some ''1'') (Some \<lparr>up_path = (''uploads'', ''1-a.pdf''), originalname = ''a.pdf''\<rparr>) \<lparr>store = [((''uploads'', ''1-a.pdf''), (Bytes (Pdf_bytes [10, 20, 30 :: nat]), 1))],
        dirs = {''downloads'', ''uploads''}, clock = 7\<rparr>
     = (\<lparr>store = [((''downloads'', ''split-part1-7.pdf''), (Bytes (Pdf_bytes [10, 20, 30]), 7)),
                   ((''downloads'', ''split-files-7.zip''), (Archive [''split-part1-7.pdf''], 7))],
         dirs = {''downloads'', ''uploads''}, clock = 7\<rparr>,
        Success ''split-files-7.zip'' ''/downloads/split-files-7.zip'' ''Split into 1 files'')"
    "clock \<lparr>store = [((''uploads'', ''1-a.pdf''), (Bytes (Pdf_bytes [10, 20, 30 :: nat]), 1))],
        dirs = {''downloads'', ''uploads''}, clock = 7\<rparr> = clock \<lparr>store = [((''uploads'', ''1-a.pdf''), (Bytes (Pdf_bytes [10, 20, 30 :: nat]), 1))],
        dirs = {''downloads'', ''uploads''}, clock = 7\<rparr>"
    by (simp_all add: model_eval size_files.simps js_ceil_div_int page_loop.simps
        dec_string.simps js_split_Cons Let_def)
  show ?thesis
    using split_archive_names_collide [OF h] h by simp
qed

subsection \<open>Well-formed responses\<close>

lemma split_body_wf: "io_results (\<lambda>rc. response_wf (fst rc)) (split_body so pr np up)"
  unfolding split_body_def
  by (auto simp: Let_def no_file_message_def zip_filename_def split: option.split
      intro!: io_results_bind io_results_return)

lemma wf_split_handler: "response_wf (snd (split_handler so pr np up s))"
  unfolding split_handler_def
  by (rule wf_catch_500, rule io_results_post [OF split_body_wf], rule io_results_return)

end
