(* ===== verification/Convert.thy ===== *)
theory Convert
  imports File_Store
begin

text \<open>
  The \<^verbatim>\<open>/api/convert\<close> handler (\<^verbatim>\<open>src/server.js\<close>, lines 62 to 151). It names the
  output \<^verbatim>\<open>converted-<now>.<toFormat>\<close>, creates \<^verbatim>\<open>downloads\<close>, and picks a
  conversion from the lower-cased extension of the upload and the requested format:
  image to image through sharp's \<^verbatim>\<open>toFormat\<close>, PDF to image refused with 400, text
  to PDF, DOCX to text and text to DOCX through the text libraries, anything else
  refused with 400. A conversion that succeeds deletes the upload; the early 400 returns
  leave it, and the directory, behind. The text libraries are named by their calls
  (\<open>Derived\<close> contents): their own failures on malformed input are not modelled.
\<close>

subsection \<open>The code\<close>

text \<open>The lists of line 80 and \<^verbatim>\<open>[...].includes(toFormat)\<close>, where an
  \<^verbatim>\<open>undefined\<close> field is in no list.\<close>

definition image_formats :: "string list" where
  "image_formats = [''jpg'', ''jpeg'', ''png'', ''webp'', ''gif'', ''bmp'']"

definition includes_field :: "string list \<Rightarrow> string option \<Rightarrow> bool" where
  "includes_field xs v = (case v of None \<Rightarrow> False | Some f \<Rightarrow> f \<in> set xs)"

text \<open>Lines 79 to 135: the chain of conversions. The result is the message of an early
  \<^verbatim>\<open>res.status(400)\<close> return, or \<open>None\<close> when the output was written.\<close>

definition convert_output ::
  "string \<Rightarrow> string option \<Rightarrow> fpath \<Rightarrow> fpath \<Rightarrow> ('pg, string option) io" where
  "convert_output fromExt toFormat inputPath outputPath =
     (if fromExt \<in> set image_formats \<and> includes_field image_formats toFormat then
        io_bind (sharp_toFile inputPath
                   [To_format (if toFormat = Some ''jpg'' then ''jpeg'' else js_str toFormat)] outputPath)
          (\<lambda>_. io_return None)
      else if fromExt = ''pdf'' \<and> includes_field [''jpg'', ''png''] toFormat then
        io_return (Some ''PDF to image conversion requires additional setup'')
      else if fromExt = ''txt'' \<and> toFormat = Some ''pdf'' then
        io_bind (fs_readFile inputPath) (\<lambda>content.
        io_bind (fs_writeFile outputPath
                   (Derived ''PDFDocument.create, addPage, drawText(content.slice(0, 500)), save'' content))
          (\<lambda>_. io_return None))
      else if fromExt = ''docx'' \<and> toFormat = Some ''txt'' then
        io_bind (fs_readFile inputPath) (\<lambda>docx.
        io_bind (fs_writeFile outputPath (Derived ''mammoth.extractRawText'' docx)) (\<lambda>_. io_return None))
      else if fromExt = ''txt'' \<and> toFormat = Some ''docx'' then
        io_bind (fs_readFile inputPath) (\<lambda>content.
        io_bind (fs_writeFile outputPath (Derived ''Packer.toBuffer'' content)) (\<lambda>_. io_return None))
      else io_return (Some (''Conversion from '' @ fromExt @ '' to '' @ js_str toFormat @ '' not supported'')))"

definition converted_filename :: "nat \<Rightarrow> string option \<Rightarrow> string" where
  "converted_filename now toFormat = ''converted-'' @ dec_string now @ ''.'' @ js_str toFormat"

definition converted_message :: "string option \<Rightarrow> string" where
  "converted_message toFormat = ''Converted to '' @ js_toUpperCase (js_str toFormat)"

text \<open>The handler, lines 62 to 151. \<^verbatim>\<open>toFormat.toUpperCase()\<close> is reached only when a
  conversion matched, so \<^verbatim>\<open>toFormat\<close> is a string there.\<close>

definition convert_handler ::
  "string option \<Rightarrow> upload option \<Rightarrow> 'pg fs_state \<Rightarrow> 'pg fs_state \<times> response" where
  "convert_handler toFormat file = catch_500
     (case file of
        None \<Rightarrow> io_return (Status_400 no_file_message)
      | Some file \<Rightarrow>
          io_bind date_now (\<lambda>now.
          let outputFilename = converted_filename now toFormat;
              outputPath = (''downloads'', outputFilename)
          in io_bind (fs_mkdir ''downloads'') (\<lambda>_.
             let fromExt = file_ext (originalname file) in
             io_bind (convert_output fromExt toFormat (up_path file) outputPath) (\<lambda>refused.
             case refused of
               Some msg \<Rightarrow> io_return (Status_400 msg)
             | None \<Rightarrow>
                 io_bind (fs_unlink (up_path file)) (\<lambda>_.
                 io_return (Success outputFilename (download_url outputFilename)
                   (converted_message toFormat)))))))"

declare image_formats_def [model_eval] includes_field_def [model_eval] convert_output_def [model_eval]
  converted_filename_def [model_eval] converted_message_def [model_eval] convert_handler_def [model_eval]

subsection \<open>Image conversions\<close>

text \<open>The state after the handler created \<^verbatim>\<open>downloads\<close> and sharp wrote the output.\<close>

definition with_downloads :: "'pg fs_state \<Rightarrow> 'pg fs_state" where
  "with_downloads s = s\<lparr>dirs := insert ''downloads'' (dirs s)\<rparr>"

lemma sharp_toFile_written:
  assumes "sharp_check ops = None" "map_of (store s) input = Some (b, t)" "sharp_input b"
    "output_format ops (snd out) = Some f" "fst out \<in> dirs s"
  shows "sharp_toFile input ops out s = (s\<lparr>store := AList.update out (Sharp_file f ops b, clock s) (store s)\<rparr>, Inr ())"
  using assms by (simp add: sharp_toFile_def io_bind_def fs_readFile_def fs_writeFile_def)

lemma sharp_toFile_bad_format:
  assumes "op_check op = Some e"
  shows "sharp_toFile input (op # ops) out s = (s, Inl e)"
  using assms by (simp add: sharp_toFile_def io_lift_def)


text \<open>The format sharp writes for a requested image format.\<close>

lemma image_format_cases:
  "f \<in> set image_formats \<longleftrightarrow> f = ''jpg'' \<or> f = ''jpeg'' \<or> f = ''png'' \<or> f = ''webp'' \<or> f = ''gif'' \<or> f = ''bmp''"
  by (auto simp: image_formats_def)

lemma convert_output_image:
  "fromExt \<in> set image_formats \<Longrightarrow> f \<in> set image_formats \<Longrightarrow>
   convert_output fromExt (Some f) inp out =
     io_bind (sharp_toFile inp [To_format (if f = ''jpg'' then ''jpeg'' else f)] out) (\<lambda>_. io_return None)"
  by (simp add: convert_output_def includes_field_def js_str_def)

lemma image_target_format:
  assumes "f \<in> set image_formats" "f \<noteq> ''bmp''"
  shows "sharp_format_of (if f = ''jpg'' then ''jpeg'' else f) = sharp_format_of f
       \<and> sharp_format_of f \<noteq> None"
  using assms unfolding image_format_cases by (elim disjE) (simp_all add: model_eval)

lemma bmp_format: "sharp_format_of ''bmp'' = None"
  by (simp add: model_eval)


lemma sharp_check_to_format:
  "sharp_format_of g = Some fmt \<Longrightarrow> sharp_check [To_format g] = None"
  by simp

lemma output_format_to_format:
  "sharp_format_of g = Some fmt \<Longrightarrow> output_format [To_format g] out = Some fmt"
  by (simp add: output_format_def explicit_format_def map_filter_def)

text \<open>The handler up to the conversion: the clock is read, \<^verbatim>\<open>downloads\<close> created.\<close>

lemma convert_handler_unfold:
  "convert_handler toFormat (Some u) s =
     catch_500 (\<lambda>s. io_bind (convert_output (file_ext (originalname u)) toFormat (up_path u)
                    (''downloads'', converted_filename (clock s) toFormat))
        (\<lambda>refused. case refused of
            Some msg \<Rightarrow> io_return (Status_400 msg)
          | None \<Rightarrow> io_bind (fs_unlink (up_path u)) (\<lambda>_.
              io_return (Success (converted_filename (clock s) toFormat)
                (download_url (converted_filename (clock s) toFormat))
                (converted_message toFormat)))) (with_downloads s)) s"
  by (simp add: convert_handler_def catch_500_def io_bind_apply date_now_def fs_mkdir_def
      with_downloads_def Let_def)

text \<open>C37. An image upload converted to one of the image formats of line 80 is written
  by sharp in that format and deleted, and the handler answers success; except for
  \<^verbatim>\<open>bmp\<close>, which the list offers but sharp cannot write: \<^verbatim>\<open>toFormat('bmp')\<close>
  throws, the handler answers 500 and the upload stays, with \<^verbatim>\<open>downloads\<close>
  created.\<close>

theorem convert_image_to_image:
  assumes up: "map_of (store s) (up_path u) = Some (b, t)" and img: "sharp_input b"
    and ext: "file_ext (originalname u) \<in> set image_formats" and f: "f \<in> set image_formats"
    and ul: "fst (up_path u) = ''uploads''"
  shows "convert_handler (Some f) (Some u) s =
    (if f = ''bmp'' then (with_downloads s, Status_500 (sharp_param_error ''format''))
     else ((with_downloads s)\<lparr>store := AList.delete (up_path u)
              (AList.update (''downloads'', converted_filename (clock s) (Some f))
                 (Sharp_file (the (sharp_format_of f)) [To_format (if f = ''jpg'' then ''jpeg'' else f)] b,
                  clock s) (store s))\<rparr>,
           Success (converted_filename (clock s) (Some f))
             (download_url (converted_filename (clock s) (Some f))) (converted_message (Some f))))"
proof (cases "f = ''bmp''")
  case True
  let ?out = "(''downloads'', converted_filename (clock s) (Some f))"
  have "op_check (To_format (if f = ''jpg'' then ''jpeg'' else f)) = Some (sharp_param_error ''format'')"
    using True bmp_format by simp
  then have "sharp_toFile (up_path u) [To_format (if f = ''jpg'' then ''jpeg'' else f)] ?out (with_downloads s)
      = (with_downloads s, Inl (sharp_param_error ''format''))"
    by (rule sharp_toFile_bad_format)
  then have "convert_output (file_ext (originalname u)) (Some f) (up_path u) ?out (with_downloads s)
      = (with_downloads s, Inl (sharp_param_error ''format''))"
    unfolding convert_output_image [OF ext f] io_bind_apply by simp
  then show ?thesis
    using True by (simp add: convert_handler_unfold catch_500_def io_bind_apply)
next
  case False
  obtain fmt where fmt: "sharp_format_of f = Some fmt"
    using image_target_format [OF f False] by blast
  let ?g = "if f = ''jpg'' then ''jpeg'' else f"
  let ?out = "(''downloads'', converted_filename (clock s) (Some f))"
  have g: "sharp_format_of ?g = Some fmt"
    using image_target_format [OF f False] fmt by simp
  have w: "sharp_toFile (up_path u) [To_format ?g] ?out (with_downloads s) =
      ((with_downloads s)\<lparr>store := AList.update ?out (Sharp_file fmt [To_format ?g] b, clock s) (store s)\<rparr>, Inr ())"
    using sharp_toFile_written [of "[To_format ?g]" "with_downloads s" "up_path u" b t ?out fmt]
      sharp_check_to_format [OF g] output_format_to_format [OF g] up img
    by (simp add: with_downloads_def)
  have ne: "up_path u \<noteq> ?out"
    using ul by auto
  show ?thesis
    using False fmt w ne up
    by (simp add: convert_handler_unfold convert_output_image [OF ext f] io_bind_def catch_500_def
        fs_unlink_def io_return_def update_conv' js_str_def)
qed


theorem convert_image_to_image_witness:
  "map_of (store \<lparr>store = [((''uploads'', ''1-cat.PNG''), (Bytes (Other_bytes ''img'') :: unit blob, 1))],
                  dirs = {''uploads''}, clock = 2\<rparr>) (''uploads'', ''1-cat.PNG'')
     = Some (Bytes (Other_bytes ''img''), 1)
   \<and> sharp_input (Bytes (Other_bytes ''img'') :: unit blob)
   \<and> file_ext ''cat.PNG'' \<in> set image_formats \<and> ''webp'' \<in> set image_formats
   \<and> convert_handler (Some ''webp'') (Some \<lparr>up_path = (''uploads'', ''1-cat.PNG''), originalname = ''cat.PNG''\<rparr>)
       \<lparr>store = [((''uploads'', ''1-cat.PNG''), (Bytes (Other_bytes ''img'') :: unit blob, 1))],
        dirs = {''uploads''}, clock = 2\<rparr>
     = (\<lparr>store = [((''downloads'', ''converted-2.webp''),
                    (Sharp_file ''webp'' [To_format ''webp''] (Bytes (Other_bytes ''img'')), 2))],
         dirs = {''downloads'', ''uploads''}, clock = 2\<rparr>,
        Success ''converted-2.webp'' ''/downloads/converted-2.webp'' ''Converted to WEBP'')"
proof -
  have h: "map_of (store \<lparr>store = [((''uploads'', ''1-cat.PNG''), (Bytes (Other_bytes ''img'') :: unit blob, 1))],
                  dirs = {''uploads''}, clock = 2\<rparr>)
             (up_path \<lparr>up_path = (''uploads'', ''1-cat.PNG''), originalname = ''cat.PNG''\<rparr>)
             = Some (Bytes (Other_bytes ''img''), 1)"
    "sharp_input (Bytes (Other_bytes ''img'') :: unit blob)"
    "file_ext (originalname \<lparr>up_path = (''uploads'', ''1-cat.PNG''), originalname = ''cat.PNG''\<rparr>) \<in> set image_formats"
    "''webp'' \<in> set image_formats"
    "fst (up_path \<lparr>up_path = (''uploads'', ''1-cat.PNG''), originalname = ''cat.PNG''\<rparr>) = ''uploads''"
    by (simp_all add: model_eval)
  show ?thesis
    using convert_image_to_image [OF h] h
    by (simp add: model_eval with_downloads_def dec_string.simps insert_commute)
qed

subsection \<open>Well-formed responses\<close>

text \<open>The conversion refuses only with a message.\<close>

lemma convert_output_refusals: "io_results (\<lambda>r. r \<noteq> Some []) (convert_output e f i out)"
  unfolding convert_output_def by (intro io_results_if io_results_bind io_results_return) simp_all

lemma wf_convert_handler: "response_wf (snd (convert_handler f up s))"
  unfolding convert_handler_def
  by (rule wf_catch_500)
    (auto simp: Let_def no_file_message_def converted_filename_def split: option.split
      intro!: io_results_bind io_results_return io_results_post [OF convert_output_refusals])

end
