(* ===== verification/Compress.thy ===== *)
theory Compress
  imports Convert
begin

text \<open>
  The \<^verbatim>\<open>/api/compress\<close> handler (\<^verbatim>\<open>src/server.js\<close>, lines 290 to 363). The
  output is \<^verbatim>\<open>compressed-<now>.<ext>\<close> in \<^verbatim>\<open>downloads\<close>, which it creates; the
  quality comes from the \<^verbatim>\<open>switch\<close> on \<^verbatim>\<open>compressionLevel\<close>. An image goes through
  the sharp chain \<^verbatim>\<open>.jpeg(...).png(...).webp(...)\<close>, a PDF is loaded and saved again,
  anything else is refused with 400 (the upload stays). The \<^verbatim>\<open>size\<close> field of the
  response, computed from the two file sizes, is not modelled (contents have no size);
  the two \<^verbatim>\<open>fs.stat\<close> calls are, as the reads that may fail. The lemmas show that
  every compressed image is a WebP, whatever its extension, since the last of the three
  format calls wins, and that a compressed PDF has the pages of the upload.
\<close>

subsection \<open>The code\<close>

text \<open>Lines 305 to 312.\<close>

definition compress_quality :: "string option \<Rightarrow> int" where
  "compress_quality compressionLevel =
     (if compressionLevel = Some ''low'' then 90
      else if compressionLevel = Some ''medium'' then 75
      else if compressionLevel = Some ''high'' then 60
      else if compressionLevel = Some ''extreme'' then 40
      else 75)"

text \<open>Lines 315 to 319: the quality is passed to the call of the upload's own format
  only, the others get \<^verbatim>\<open>undefined\<close>.\<close>

definition compress_ops :: "string \<Rightarrow> int \<Rightarrow> sharp_op list" where
  "compress_ops ext quality =
     [Jpeg_opts (if ext = ''jpeg'' \<or> ext = ''jpg'' then Some quality else None),
      Png_opts (if ext = ''png'' then Some quality else None),
      Webp_opts (if ext = ''webp'' then Some quality else None)]"

definition compressed_filename :: "nat \<Rightarrow> string \<Rightarrow> string" where
  "compressed_filename now ext = ''compressed-'' @ dec_string now @ ''.'' @ ext"

definition compress_message :: "string option \<Rightarrow> string" where
  "compress_message compressionLevel = ''Compressed with '' @ js_str compressionLevel @ '' quality''"

definition compress_image_exts :: "string list" where
  "compress_image_exts = [''jpg'', ''jpeg'', ''png'', ''webp'']"

text \<open>The handler, lines 290 to 363.\<close>

definition compress_handler ::
  "string option \<Rightarrow> upload option \<Rightarrow> 'pg fs_state \<Rightarrow> 'pg fs_state \<times> response" where
  "compress_handler compressionLevel file = catch_500
     (case file of
        None \<Rightarrow> io_return (Status_400 no_file_message)
      | Some file \<Rightarrow>
          let ext = file_ext (originalname file) in
          io_bind date_now (\<lambda>now.
          let outputFilename = compressed_filename now ext;
              outputPath = (''downloads'', outputFilename)
          in io_bind (fs_mkdir ''downloads'') (\<lambda>_.
             let quality = compress_quality compressionLevel in
             if ext \<in> set compress_image_exts then
               io_bind (sharp_toFile (up_path file) (compress_ops ext quality) outputPath) (\<lambda>_.
               io_bind (fs_stat_mtime (up_path file)) (\<lambda>_.
               io_bind (fs_stat_mtime outputPath) (\<lambda>_.
               io_bind (fs_unlink (up_path file)) (\<lambda>_.
               io_return (Success outputFilename (download_url outputFilename)
                 (compress_message compressionLevel))))))
             else if ext = ''pdf'' then
               io_bind (fs_readFile (up_path file)) (\<lambda>pdfBytes.
               io_bind (io_lift (blob_load pdfBytes)) (\<lambda>pdfDoc.
               io_bind (fs_writeFile outputPath (blob_save pdfDoc)) (\<lambda>_.
               io_bind (fs_stat_mtime (up_path file)) (\<lambda>_.
               io_bind (fs_unlink (up_path file)) (\<lambda>_.
               io_return (Success outputFilename (download_url outputFilename) ''Compressed PDF''))))))
             else io_return (Status_400 ''Unsupported file format for compression''))))"

declare compress_quality_def [model_eval] compress_ops_def [model_eval] compressed_filename_def [model_eval]
  compress_message_def [model_eval] compress_image_exts_def [model_eval] compress_handler_def [model_eval]

subsection \<open>The sharp chain\<close>

lemma compress_quality_ok: "quality_ok (Some (compress_quality lvl))"
  by (simp add: compress_quality_def quality_ok_def)

lemma sharp_check_compress_ops: "sharp_check (compress_ops ext (compress_quality lvl)) = None"
  using compress_quality_ok [of lvl] by (simp add: compress_ops_def quality_ok_def)

lemma output_format_compress_ops: "output_format (compress_ops ext q) out = Some ''webp''"
  by (simp add: output_format_def explicit_format_def compress_ops_def map_filter_def)

text \<open>The handler up to the choice of branch.\<close>

lemma compress_handler_unfold:
  "compress_handler lvl (Some u) s =
     catch_500 (\<lambda>s.
       if file_ext (originalname u) \<in> set compress_image_exts then
         io_bind (sharp_toFile (up_path u) (compress_ops (file_ext (originalname u)) (compress_quality lvl))
                   (''downloads'', compressed_filename (clock s) (file_ext (originalname u)))) (\<lambda>_.
         io_bind (fs_stat_mtime (up_path u)) (\<lambda>_.
         io_bind (fs_stat_mtime (''downloads'', compressed_filename (clock s) (file_ext (originalname u)))) (\<lambda>_.
         io_bind (fs_unlink (up_path u)) (\<lambda>_.
         io_return (Success (compressed_filename (clock s) (file_ext (originalname u)))
           (download_url (compressed_filename (clock s) (file_ext (originalname u))))
           (compress_message lvl)))))) (with_downloads s)
       else if file_ext (originalname u) = ''pdf'' then
         io_bind (fs_readFile (up_path u)) (\<lambda>pdfBytes.
         io_bind (io_lift (blob_load pdfBytes)) (\<lambda>pdfDoc.
         io_bind (fs_writeFile (''downloads'', compressed_filename (clock s) (file_ext (originalname u)))
                   (blob_save pdfDoc)) (\<lambda>_.
         io_bind (fs_stat_mtime (up_path u)) (\<lambda>_.
         io_bind (fs_unlink (up_path u)) (\<lambda>_.
         io_return (Success (compressed_filename (clock s) (file_ext (originalname u)))
           (download_url (compressed_filename (clock s) (file_ext (originalname u)))) ''Compressed PDF''))))))
           (with_downloads s)
       else (with_downloads s, Inr (Status_400 ''Unsupported file format for compression''))) s"
  by (simp add: compress_handler_def catch_500_def io_bind_apply date_now_def fs_mkdir_def
      with_downloads_def Let_def io_return_def)


text \<open>A PDF upload is loaded and saved again: the output is a PDF with the pages of
  the upload, and the upload is deleted.\<close>

lemma compress_pdf_same_pages:
  assumes up: "map_of (store s) (up_path u) = Some (b, t)" and pdf: "blob_load b = Inr doc"
    and ext: "file_ext (originalname u) = ''pdf''" and ul: "fst (up_path u) = ''uploads''"
  shows "compress_handler lvl (Some u) s =
    ((with_downloads s)\<lparr>store := AList.delete (up_path u)
        (AList.update (''downloads'', compressed_filename (clock s) ''pdf'') (blob_save doc, clock s) (store s))\<rparr>,
     Success (compressed_filename (clock s) ''pdf'') (download_url (compressed_filename (clock s) ''pdf''))
       ''Compressed PDF'')"
proof -
  have ne: "up_path u \<noteq> (''downloads'', compressed_filename (clock s) ''pdf'')"
    using ul by auto
  have ni: "''pdf'' \<notin> set compress_image_exts"
    by (simp add: compress_image_exts_def)
  show ?thesis
    using ext ni ne up pdf
    by (simp add: compress_handler_unfold io_bind_apply catch_500_def fs_readFile_def io_lift_def
        fs_writeFile_def fs_stat_mtime_def fs_unlink_def io_return_def with_downloads_def update_conv')
qed

subsection \<open>Properties of the handler\<close>

text \<open>C38. An image upload (extension \<^verbatim>\<open>jpg\<close>, \<^verbatim>\<open>jpeg\<close>, \<^verbatim>\<open>png\<close> or
  \<^verbatim>\<open>webp\<close>) is always written as a WebP image under its own extension: the chain
  \<^verbatim>\<open>.jpeg().png().webp()\<close> selects WebP last, so the quality given to the JPEG or PNG
  call is dropped, and only a \<^verbatim>\<open>.webp\<close> upload gets the requested quality. The
  upload is deleted and the handler answers success.\<close>

theorem compress_image_is_webp:
  assumes up: "map_of (store s) (up_path u) = Some (b, t)" and img: "sharp_input b"
    and ext: "file_ext (originalname u) \<in> set compress_image_exts"
    and ul: "fst (up_path u) = ''uploads''"
  shows "compress_handler lvl (Some u) s =
    ((with_downloads s)\<lparr>store := AList.delete (up_path u)
        (AList.update (''downloads'', compressed_filename (clock s) (file_ext (originalname u)))
           (Sharp_file ''webp'' (compress_ops (file_ext (originalname u)) (compress_quality lvl)) b, clock s)
           (store s))\<rparr>,
     Success (compressed_filename (clock s) (file_ext (originalname u)))
       (download_url (compressed_filename (clock s) (file_ext (originalname u)))) (compress_message lvl))"
proof -
  let ?ops = "compress_ops (file_ext (originalname u)) (compress_quality lvl)"
  let ?out = "(''downloads'', compressed_filename (clock s) (file_ext (originalname u)))"
  have w: "sharp_toFile (up_path u) ?ops ?out (with_downloads s) =
      ((with_downloads s)\<lparr>store := AList.update ?out (Sharp_file ''webp'' ?ops b, clock s) (store s)\<rparr>, Inr ())"
    using sharp_toFile_written [of ?ops "with_downloads s" "up_path u" b t ?out "''webp''"]
      sharp_check_compress_ops output_format_compress_ops up img
    by (simp add: with_downloads_def)
  have ne: "up_path u \<noteq> ?out"
    using ul by auto
  show ?thesis
    using ext w ne up
    by (simp add: compress_handler_unfold io_bind_apply catch_500_def fs_stat_mtime_def
        fs_unlink_def io_return_def update_conv')
qed


theorem compress_image_is_webp_witness:
  "map_of (store \<lparr>store = [((''uploads'', ''1-p.JPG''), (Bytes (Other_bytes ''img'') :: unit blob, 1))],
                  dirs = {''uploads''}, clock = 3\<rparr>)
      (up_path \<lparr>up_path = (''uploads'', ''1-p.JPG''), originalname = ''p.JPG''\<rparr>)
     = Some (Bytes (Other_bytes ''img''), 1)
   \<and> sharp_input (Bytes (Other_bytes ''img'') :: unit blob)
   \<and> file_ext ''p.JPG'' \<in> set compress_image_exts
   \<and> compress_handler (Some ''high'') (Some \<lparr>up_path = (''uploads'', ''1-p.JPG''), originalname = ''p.JPG''\<rparr>)
       \<lparr>store = [((''uploads'', ''1-p.JPG''), (Bytes (Other_bytes ''img'') :: unit blob, 1))],
        dirs = {''uploads''}, clock = 3\<rparr>
     = (\<lparr>store = [((''downloads'', ''compressed-3.jpg''),
                    (Sharp_file ''webp'' [Jpeg_opts (Some 60), Png_opts None, Webp_opts None]
                       (Bytes (Other_bytes ''img'')), 3))],
         dirs = {''downloads'', ''uploads''}, clock = 3\<rparr>,
        Success ''compressed-3.jpg'' ''/downloads/compressed-3.jpg'' ''Compressed with high quality'')"
proof -
  have h: "map_of (store \<lparr>store = [((''uploads'', ''1-p.JPG''), (Bytes (Other_bytes ''img'') :: unit blob, 1))],
                  dirs = {''uploads''}, clock = 3\<rparr>)
             (up_path \<lparr>up_path = (''uploads'', ''1-p.JPG''), originalname = ''p.JPG''\<rparr>)
             = Some (Bytes (Other_bytes ''img''), 1)"
    "sharp_input (Bytes (Other_bytes ''img'') :: unit blob)"
    "file_ext (originalname \<lparr>up_path = (''uploads'', ''1-p.JPG''), originalname = ''p.JPG''\<rparr>) \<in> set compress_image_exts"
    "fst (up_path \<lparr>up_path = (''uploads'', ''1-p.JPG''), originalname = ''p.JPG''\<rparr>) = ''uploads''"
    by (simp_all add: model_eval)
  show ?thesis
    using compress_image_is_webp [OF h, of "Some ''high''"] h
    by (simp add: model_eval with_downloads_def dec_string.simps insert_commute)
qed

subsection \<open>Well-formed responses\<close>

lemma wf_compress_handler: "response_wf (snd (compress_handler lvl up s))"
  unfolding compress_handler_def
  by (rule wf_catch_500)
    (auto simp: Let_def no_file_message_def compressed_filename_def split: option.split
      intro!: io_results_bind io_results_return)

end
