(* ===== verification/Security.thy ===== *)
theory Security
  imports File_Store
begin

text \<open>
  The \<^verbatim>\<open>/api/security\<close> handler (\<^verbatim>\<open>src/server.js\<close>, lines 366 to 417). It reads
  and loads the upload, names the output \<^verbatim>\<open><securityAction>-<now>.pdf\<close>, refuses
  \<^verbatim>\<open>encrypt\<close> with 400, and for \<^verbatim>\<open>watermark\<close> with a non-empty text draws the text
  on every page, at a position computed from the size of the first page, and writes the
  document to \<^verbatim>\<open>downloads\<close> (which it does not create). In every other case it writes
  nothing. It then deletes the upload and answers success with the output's name. Page
  contents are opaque, so \<^verbatim>\<open>page.drawText\<close> is a parameter of the model: the page
  after drawing the text at the centre of a page of the first page's size. The
  \<^verbatim>\<open>password\<close> field is read but never used.
\<close>

subsection \<open>The code\<close>

definition security_filename :: "nat \<Rightarrow> string option \<Rightarrow> string" where
  "security_filename now securityAction = js_str securityAction @ ''-'' @ dec_string now @ ''.pdf''"

definition encrypt_message :: string where
  "encrypt_message = ''PDF encryption requires additional setup with qpdf or similar tools''"

definition security_message :: "string option \<Rightarrow> string" where
  "security_message securityAction = js_str securityAction @ '' applied successfully''"

text \<open>Lines 387 to 398: \<^verbatim>\<open>pages[0].getSize()\<close> throws on a document without pages
  (\<^verbatim>\<open>pages[0]\<close> is \<^verbatim>\<open>undefined\<close>); otherwise every page gets the text.\<close>

definition watermark_pages ::
  "(string \<Rightarrow> 'pg \<Rightarrow> 'pg \<Rightarrow> 'pg) \<Rightarrow> string \<Rightarrow> 'pg pdf_doc \<Rightarrow> 'pg pdf_doc result" where
  "watermark_pages drawText watermarkText pdfDoc =
     (case pages pdfDoc of
        [] \<Rightarrow> Inl (Type_error 0)
      | firstPage # _ \<Rightarrow> Inr (pdfDoc\<lparr>pages := map (drawText watermarkText firstPage) (pages pdfDoc)\<rparr>))"

text \<open>The handler, lines 366 to 417.\<close>

definition security_handler ::
  "(string \<Rightarrow> 'pg \<Rightarrow> 'pg \<Rightarrow> 'pg) \<Rightarrow> string option \<Rightarrow> string option \<Rightarrow> upload option \<Rightarrow>
   'pg fs_state \<Rightarrow> 'pg fs_state \<times> response" where
  "security_handler drawText securityAction watermarkText file = catch_500
     (case file of
        None \<Rightarrow> io_return (Status_400 no_file_message)
      | Some file \<Rightarrow>
          io_bind (fs_readFile (up_path file)) (\<lambda>pdfBytes.
          io_bind (io_lift (blob_load pdfBytes)) (\<lambda>pdfDoc.
          io_bind date_now (\<lambda>now.
          let outputFilename = security_filename now securityAction;
              outputPath = (''downloads'', outputFilename)
          in if securityAction = Some ''encrypt'' then io_return (Status_400 encrypt_message)
             else
               io_bind (if securityAction = Some ''watermark'' \<and> js_truthy watermarkText then
                          io_bind (io_lift (watermark_pages drawText (js_str watermarkText) pdfDoc)) (\<lambda>doc.
                          fs_writeFile outputPath (blob_save doc))
                        else io_return ()) (\<lambda>_.
               io_bind (fs_unlink (up_path file)) (\<lambda>_.
               io_return (Success outputFilename (download_url outputFilename)
                 (security_message securityAction))))))))"

declare security_filename_def [model_eval] encrypt_message_def [model_eval]
  security_message_def [model_eval] watermark_pages_def [model_eval] security_handler_def [model_eval]

subsection \<open>The handler on a loaded upload\<close>

lemma security_handler_loaded:
  assumes "map_of (store s) (up_path u) = Some (b, t)" "blob_load b = Inr doc"
  shows "security_handler dT sa wt (Some u) s =
     catch_500 (\<lambda>s.
       if sa = Some ''encrypt'' then (s, Inr (Status_400 encrypt_message))
       else io_bind (if sa = Some ''watermark'' \<and> js_truthy wt then
                       io_bind (io_lift (watermark_pages dT (js_str wt) doc)) (\<lambda>doc.
                       fs_writeFile (''downloads'', security_filename (clock s) sa) (blob_save doc))
                     else io_return ()) (\<lambda>_.
            io_bind (fs_unlink (up_path u)) (\<lambda>_.
            io_return (Success (security_filename (clock s) sa)
              (download_url (security_filename (clock s) sa)) (security_message sa)))) s) s"
  using assms by (simp add: security_handler_def catch_500_def io_bind_apply fs_readFile_def
      io_lift_def date_now_def Let_def io_return_def)

lemma unlink_stored:
  "map_of (store s) p = Some v \<Longrightarrow> fs_unlink p s = (s\<lparr>store := AList.delete p (store s)\<rparr>, Inr ())"
  by (simp add: fs_unlink_def)

text \<open>A watermark with a text on a document with pages: every page gets the text,
  placed by the first page, the document is written and the upload deleted.\<close>

lemma security_watermark:
  assumes up: "map_of (store s) (up_path u) = Some (b, t)" and pdf: "blob_load b = Inr doc"
    and pg: "pages doc = p0 # ps" and wt: "js_truthy wt" and dl: "''downloads'' \<in> dirs s"
    and ul: "fst (up_path u) = ''uploads''"
  shows "security_handler dT (Some ''watermark'') wt (Some u) s =
     (s\<lparr>store := AList.delete (up_path u)
         (AList.update (''downloads'', security_filename (clock s) (Some ''watermark''))
            (blob_save (doc\<lparr>pages := map (dT (js_str wt) p0) (pages doc)\<rparr>), clock s) (store s))\<rparr>,
      Success (security_filename (clock s) (Some ''watermark''))
        (download_url (security_filename (clock s) (Some ''watermark''))) (security_message (Some ''watermark'')))"
proof -
  have ne: "up_path u \<noteq> (''downloads'', security_filename (clock s) (Some ''watermark''))"
    using ul by auto
  show ?thesis
    using pg wt dl ne up
    by (simp add: security_handler_loaded [OF up pdf] catch_500_def io_bind_apply io_return_def
        io_lift_def watermark_pages_def fs_writeFile_def fs_unlink_def update_conv')
qed

subsection \<open>Properties of the handler\<close>

text \<open>C39. For any action but \<^verbatim>\<open>encrypt\<close>, and for \<^verbatim>\<open>watermark\<close> without a text,
  the handler writes no file, deletes the upload and still answers success with the
  name and download URL of a file \<^verbatim>\<open><securityAction>-<now>.pdf\<close> it never wrote.\<close>

theorem security_success_without_output:
  assumes up: "map_of (store s) (up_path u) = Some (b, t)" and pdf: "blob_load b = Inr doc"
    and act: "sa \<noteq> Some ''encrypt''" and nowm: "\<not> (sa = Some ''watermark'' \<and> js_truthy wt)"
  shows "security_handler dT sa wt (Some u) s =
     (s\<lparr>store := AList.delete (up_path u) (store s)\<rparr>,
      Success (security_filename (clock s) sa) (download_url (security_filename (clock s) sa))
        (security_message sa))"
  unfolding security_handler_loaded [OF up pdf] if_not_P [OF act] if_not_P [OF nowm]
  by (simp add: catch_500_def io_bind_apply io_return_def unlink_stored [OF up])

theorem security_success_without_output_witness:
  "map_of (store \<lparr>store = [((''uploads'', ''1-a.pdf''), (Bytes (Pdf_bytes [7 :: nat]), 1))],
                  dirs = {''uploads'', ''downloads''}, clock = 5\<rparr>)
      (up_path \<lparr>up_path = (''uploads'', ''1-a.pdf''), originalname = ''a.pdf''\<rparr>)
     = Some (Bytes (Pdf_bytes [7]), 1)
   \<and> blob_load (Bytes (Pdf_bytes [7 :: nat])) = Inr \<lparr>pages = [7]\<rparr>
   \<and> Some ''sign'' \<noteq> Some ''encrypt'' \<and> \<not> (Some ''sign'' = Some ''watermark'' \<and> js_truthy None)
   \<and> security_handler (\<lambda>_ _ p. p) (Some ''sign'') None
       (Some \<lparr>up_path = (''uploads'', ''1-a.pdf''), originalname = ''a.pdf''\<rparr>)
       \<lparr>store = [((''uploads'', ''1-a.pdf''), (Bytes (Pdf_bytes [7 :: nat]), 1))],
        dirs = {''uploads'', ''downloads''}, clock = 5\<rparr>
     = (\<lparr>store = [], dirs = {''uploads'', ''downloads''}, clock = 5\<rparr>,
        Success ''sign-5.pdf'' ''/downloads/sign-5.pdf'' ''sign applied successfully'')"
proof -
  have h: "map_of (store \<lparr>store = [((''uploads'', ''1-a.pdf''), (Bytes (Pdf_bytes [7 :: nat]), 1))],
                  dirs = {''uploads'', ''downloads''}, clock = 5\<rparr>)
             (up_path \<lparr>up_path = (''uploads'', ''1-a.pdf''), originalname = ''a.pdf''\<rparr>)
             = Some (Bytes (Pdf_bytes [7]), 1)"
    "blob_load (Bytes (Pdf_bytes [7 :: nat])) = Inr \<lparr>pages = [7]\<rparr>"
    "Some ''sign'' \<noteq> Some ''encrypt''" "\<not> (Some ''sign'' = Some ''watermark'' \<and> js_truthy None)"
    by (simp_all add: model_eval)
  show ?thesis
    using security_success_without_output [OF h, of "\<lambda>_ _ p. p"] h
    by (simp add: model_eval dec_string.simps)
qed

subsection \<open>Well-formed responses\<close>

lemma wf_security_handler: "response_wf (snd (security_handler dT sa wt up s))"
  unfolding security_handler_def
  by (rule wf_catch_500)
    (auto simp: Let_def no_file_message_def encrypt_message_def security_filename_def
      split: option.split intro!: io_results_bind io_results_return)

end
