(* ===== verification/Image_Handler.thy ===== *)
theory Image_Handler
  imports Convert
begin

text \<open>
  The \<^verbatim>\<open>/api/image\<close> handler (\<^verbatim>\<open>src/server.js\<close>, lines 420 to 469). The output is
  \<^verbatim>\<open>edited-<now>.<ext>\<close> in \<^verbatim>\<open>downloads\<close>, which it creates. The operation adds at
  most one call to the sharp pipeline: \<^verbatim>\<open>rotate(parseInt(rotationAngle))\<close>,
  \<^verbatim>\<open>resize(parseInt(resizeWidth), parseInt(resizeHeight))\<close>, an \<^verbatim>\<open>extract\<close> at
  offset 100, 100 of size \<^verbatim>\<open>parseInt(...) || 400\<close>, or \<^verbatim>\<open>grayscale()\<close>; any other
  operation adds none. No call selects a format, so \<^verbatim>\<open>toFile\<close> takes it from the
  extension of the upload. On success the upload is deleted.
\<close>

subsection \<open>The code\<close>

text \<open>\<^verbatim>\<open>parseInt(x) || d\<close>: \<^verbatim>\<open>NaN\<close> and \<^verbatim>\<open>0\<close> are falsy.\<close>

definition js_or_default :: "js_int \<Rightarrow> int \<Rightarrow> int" where
  "js_or_default v d = (case v of Some n \<Rightarrow> if n = 0 then d else n | None \<Rightarrow> d)"

text \<open>Lines 435 to 453.\<close>

definition image_ops ::
  "string option \<Rightarrow> string option \<Rightarrow> string option \<Rightarrow> string option \<Rightarrow> sharp_op list" where
  "image_ops imageOperation rotationAngle resizeWidth resizeHeight =
     (if imageOperation = Some ''rotate'' then [Rotate (js_parseInt_field rotationAngle)]
      else if imageOperation = Some ''resize'' then
        [Resize (js_parseInt_field resizeWidth) (js_parseInt_field resizeHeight)]
      else if imageOperation = Some ''crop'' then
        [Extract 100 100 (js_or_default (js_parseInt_field resizeWidth) 400)
                         (js_or_default (js_parseInt_field resizeHeight) 400)]
      else if imageOperation = Some ''filter'' then [Grayscale]
      else [])"

definition edited_filename :: "nat \<Rightarrow> string \<Rightarrow> string" where
  "edited_filename now ext = ''edited-'' @ dec_string now @ ''.'' @ ext"

definition image_message :: "string option \<Rightarrow> string" where
  "image_message imageOperation = ''Image '' @ js_str imageOperation @ ''d successfully''"

text \<open>The handler, lines 420 to 469.\<close>

definition image_handler ::
  "string option \<Rightarrow> string option \<Rightarrow> string option \<Rightarrow> string option \<Rightarrow> upload option \<Rightarrow>
   'pg fs_state \<Rightarrow> 'pg fs_state \<times> response" where
  "image_handler imageOperation rotationAngle resizeWidth resizeHeight file = catch_500
     (case file of
        None \<Rightarrow> io_return (Status_400 no_file_message)
      | Some file \<Rightarrow>
          let ext = file_ext (originalname file) in
          io_bind date_now (\<lambda>now.
          let outputFilename = edited_filename now ext;
              outputPath = (''downloads'', outputFilename)
          in io_bind (fs_mkdir ''downloads'') (\<lambda>_.
             io_bind (sharp_toFile (up_path file)
                        (image_ops imageOperation rotationAngle resizeWidth resizeHeight) outputPath) (\<lambda>_.
             io_bind (fs_unlink (up_path file)) (\<lambda>_.
             io_return (Success outputFilename (download_url outputFilename)
               (image_message imageOperation)))))))"

declare js_or_default_def [model_eval] image_ops_def [model_eval] edited_filename_def [model_eval]
  image_message_def [model_eval] image_handler_def [model_eval]

subsection \<open>Properties of the handler\<close>

text \<open>A crop with a width or height that is missing, not a number or zero uses 400.\<close>

lemma crop_default_size:
  "image_ops (Some ''crop'') ra (Some ''0'') None = [Extract 100 100 400 400]"
  by (simp add: model_eval js_parseInt_def)

lemma image_ops_no_format: "explicit_format (image_ops op ra rw rh) = None"
  by (simp add: image_ops_def explicit_format_def map_filter_def)

text \<open>An upload whose extension names no format sharp writes (a \<^verbatim>\<open>.bmp\<close> or
  \<^verbatim>\<open>.txt\<close> file, or one without extension) fails in \<^verbatim>\<open>toFile\<close> once the pipeline
  is valid: the handler answers 500, \<^verbatim>\<open>downloads\<close> is created and the upload stays.\<close>

lemma image_unsupported_extension:
  assumes up: "map_of (store s) (up_path u) = Some (b, t)" and img: "sharp_input b"
    and ok: "sharp_check (image_ops op ra rw rh) = None"
    and fmt: "sharp_format_of (drop 1 (js_extname (edited_filename (clock s) (file_ext (originalname u))))) = None"
  shows "image_handler op ra rw rh (Some u) s = (with_downloads s, Status_500 unsupported_output)"
  using up img ok fmt image_ops_no_format [of op ra rw rh]
  by (simp add: image_handler_def catch_500_def io_bind_apply date_now_def fs_mkdir_def Let_def
      sharp_toFile_def fs_readFile_def output_format_def io_lift_def with_downloads_def)

subsection \<open>Well-formed responses\<close>

lemma wf_image_handler: "response_wf (snd (image_handler op ra rw rh up s))"
  unfolding image_handler_def
  by (rule wf_catch_500)
    (auto simp: Let_def no_file_message_def edited_filename_def split: option.split intro!: io_results_bind io_results_return)

end
