(* ===== verification/Server.thy ===== *)
theory Server
  imports Cleanup Merge_Handler Split_Handler Compress Security Image_Handler
begin

text \<open>
  The server process of \<^verbatim>\<open>src/server.js\<close> as a transition system. Its state is the
  file store with its clock and the time at which the \<^verbatim>\<open>setInterval\<close> timer of line
  59 next runs the cleanup. A step is either a request, handled to completion by one of
  the handlers (multer first stores its uploads), or one millisecond of the clock; when
  the clock reaches the timer, the cleanup runs and the timer is set 30 minutes later.
  The invariant of the reachable states bounds the age of every stored file: no upload
  or output is kept longer than the hour of \<^verbatim>\<open>maxAge\<close> plus the 30 minutes between
  two sweeps. The requests cover the six upload routes, with multer's 50 MB limit, the
  health check and the static serving of \<^verbatim>\<open>/downloads\<close>; every answer is
  well-formed, a file over the limit is refused before the handler runs, and on every
  route but the security one a success names a file that is then served, unless the
  request crashes the process (a split whose archive stream fails), which ends the run.
\<close>

subsection \<open>The process\<close>

definition cleanup_interval :: nat where
  "cleanup_interval = 1800000"

record 'pg server =
  disk :: "'pg fs_state"
  next_cleanup :: nat

text \<open>The requests of the six upload routes with their uploads and \<^verbatim>\<open>req.body\<close>
  fields, the health check, and a \<^verbatim>\<open>GET /downloads/<name>\<close> with its decoded
  file name. An upload is its original name, its contents and its size in bytes (the
  unused \<^verbatim>\<open>password\<close> field is left out).\<close>

type_synonym 'pg part = "string \<times> 'pg blob \<times> nat"

datatype 'pg request =
    Merge_request "'pg part list"
  | Split_request "string option" "string option" "string option" "'pg part option"
  | Convert_request "string option" "'pg part option"
  | Compress_request "string option" "'pg part option"
  | Security_request "string option" "string option" "'pg part option"
  | Image_request "string option" "string option" "string option" "string option" "'pg part option"
  | Health_request
  | Download_request string

text \<open>Line 36: multer accepts a file of at most 50 MB.\<close>

definition max_file_size :: nat where
  "max_file_size = 50 * 1024 * 1024"

definition within_limit :: "'pg part \<Rightarrow> bool" where
  "within_limit p = (snd (snd p) \<le> max_file_size)"

definition part_upload :: "'pg part \<Rightarrow> string \<times> 'pg blob" where
  "part_upload p = (fst p, fst (snd p))"

definition file_too_large :: error where
  "file_too_large = Library_error ''File too large''"

text \<open>
  A file over the limit: busboy signals the limit while the file is written, multer
  stops reading the request, removes (\<^verbatim>\<open>_removeFile\<close>, an unlink) every file of the
  request it has stored, the one over the limit included, and passes the
  \<^verbatim>\<open>MulterError\<close> to Express, whose default error handler answers 500 (with an error
  page, not the JSON of the handlers). The destination callback has created
  \<^verbatim>\<open>uploads\<close>; the route's handler does not run.
\<close>

definition multer_abort :: "(string \<times> 'pg blob) list \<Rightarrow> 'pg fs_state \<Rightarrow> 'pg fs_state \<times> response" where
  "multer_abort ups s =
     (let (s1, us) = multer_store_all ups s
      in (s1\<lparr>store := fold (\<lambda>u. AList.delete (up_path u)) us (store s1)\<rparr>, Status_500 file_too_large))"

text \<open>\<^verbatim>\<open>upload.single('file')\<close>: multer stores the upload, if any, then the handler
  runs on it.\<close>

definition single_upload ::
  "'pg part option \<Rightarrow> (upload option \<Rightarrow> 'pg fs_state \<Rightarrow> 'pg fs_state \<times> response) \<Rightarrow>
   'pg fs_state \<Rightarrow> 'pg fs_state \<times> response" where
  "single_upload up handler s =
     (case up of
        None \<Rightarrow> handler None s
      | Some p \<Rightarrow>
          if \<not> within_limit p then multer_abort [part_upload p] s
          else (let (s1, u) = multer_store (fst p) (fst (snd p)) s in handler (Some u) s1))"

text \<open>\<^verbatim>\<open>upload.array('files')\<close>: the files are stored in turn; the first over the
  limit aborts the request.\<close>

definition array_upload ::
  "'pg part list \<Rightarrow> ((string \<times> 'pg blob) list \<Rightarrow> 'pg fs_state \<Rightarrow> 'pg fs_state \<times> response) \<Rightarrow>
   'pg fs_state \<Rightarrow> 'pg fs_state \<times> response" where
  "array_upload ups handler s =
     (case dropWhile within_limit ups of
        [] \<Rightarrow> handler (map part_upload ups) s
      | big # _ \<Rightarrow> multer_abort (map part_upload (takeWhile within_limit ups @ [big])) s)"

text \<open>Lines 472 to 474.\<close>

definition health_handler :: "'pg fs_state \<Rightarrow> 'pg fs_state \<times> response" where
  "health_handler s = (s, Status_report ''OK'' ''Server is running'')"

text \<open>
  Line 18: \<^verbatim>\<open>express.static('downloads')\<close> mounted at \<^verbatim>\<open>/downloads\<close>. It
  sends the file \<^verbatim>\<open>downloads/<name>\<close> when it exists and the name is not a
  dot-file (serve-static ignores those by default); otherwise the request falls through
  to Express's final handler, which answers 404. Names are decoded; subdirectories do not
  occur, as no route creates one.
\<close>

definition static_handler :: "string \<Rightarrow> 'pg fs_state \<Rightarrow> 'pg fs_state \<times> response" where
  "static_handler name s =
     (s, if take 1 name = ''.'' \<or> map_of (store s) (''downloads'', name) = None then Status_404
         else Static_file name)"

text \<open>The routes of lines 18, 62, 154, 195, 290, 366, 420 and 472; \<open>drawText\<close> is the
  page operation of the document library the security handler calls.\<close>

definition handle_request ::
  "(string \<Rightarrow> 'pg \<Rightarrow> 'pg \<Rightarrow> 'pg) \<Rightarrow> 'pg request \<Rightarrow> 'pg fs_state \<Rightarrow> 'pg fs_state \<times> response" where
  "handle_request drawText r s =
     (case r of
        Merge_request uploads \<Rightarrow> array_upload uploads merge_request s
      | Split_request splitOption pageRanges numParts up \<Rightarrow>
          single_upload up (split_handler splitOption pageRanges numParts) s
      | Convert_request toFormat up \<Rightarrow> single_upload up (convert_handler toFormat) s
      | Compress_request compressionLevel up \<Rightarrow> single_upload up (compress_handler compressionLevel) s
      | Security_request securityAction watermarkText up \<Rightarrow>
          single_upload up (security_handler drawText securityAction watermarkText) s
      | Image_request imageOperation rotationAngle resizeWidth resizeHeight up \<Rightarrow>
          single_upload up (image_handler imageOperation rotationAngle resizeWidth resizeHeight) s
      | Health_request \<Rightarrow> health_handler s
      | Download_request name \<Rightarrow> static_handler name s)"

text \<open>The uploads a request carries.\<close>

definition opt_list :: "'a option \<Rightarrow> 'a list" where
  "opt_list x = (case x of None \<Rightarrow> [] | Some a \<Rightarrow> [a])"

definition request_uploads :: "'pg request \<Rightarrow> 'pg part list" where
  "request_uploads r =
     (case r of
        Merge_request ups \<Rightarrow> ups
      | Split_request _ _ _ up \<Rightarrow> opt_list up
      | Convert_request _ up \<Rightarrow> opt_list up
      | Compress_request _ up \<Rightarrow> opt_list up
      | Security_request _ _ up \<Rightarrow> opt_list up
      | Image_request _ _ _ _ up \<Rightarrow> opt_list up
      | Health_request \<Rightarrow> []
      | Download_request _ \<Rightarrow> [])"

text \<open>
  The uncaught errors a request raises besides its answer. The only one in the code is
  the archive stream of a split (\<open>split_crashes\<close> of theory \<open>Split_Handler\<close>),
  reached after multer has stored the upload as in \<open>single_upload\<close>. Such a request
  ends the process.
\<close>

definition single_upload_crashes ::
  "'pg part option \<Rightarrow> (upload option \<Rightarrow> 'pg fs_state \<Rightarrow> bool) \<Rightarrow> 'pg fs_state \<Rightarrow> bool" where
  "single_upload_crashes up crashes s =
     (case up of
        None \<Rightarrow> crashes None s
      | Some p \<Rightarrow> within_limit p \<and>
          crashes (Some (snd (multer_store (fst p) (fst (snd p)) s))) (fst (multer_store (fst p) (fst (snd p)) s)))"

definition request_crashes :: "'pg request \<Rightarrow> 'pg fs_state \<Rightarrow> bool" where
  "request_crashes r s =
     (case r of
        Split_request splitOption pageRanges numParts up \<Rightarrow>
          single_upload_crashes up (split_crashes splitOption pageRanges numParts) s
      | _ \<Rightarrow> False)"

text \<open>The security route, whose answer may name a file it never wrote.\<close>

definition security_route :: "'pg request \<Rightarrow> bool" where
  "security_route r = (case r of Security_request _ _ _ \<Rightarrow> True | _ \<Rightarrow> False)"

text \<open>One millisecond, and the timer of line 59 when it is due.\<close>

definition server_tick :: "'pg server \<Rightarrow> 'pg server" where
  "server_tick S =
     (let d = (disk S)\<lparr>clock := clock (disk S) + 1\<rparr> in
      if clock d = next_cleanup S
      then \<lparr>disk = cleanupOldFiles d, next_cleanup = next_cleanup S + cleanup_interval\<rparr>
      else S\<lparr>disk := d\<rparr>)"

text \<open>The server starts at time \<open>t\<close> with no files and no directories.\<close>

definition server_start :: "nat \<Rightarrow> 'pg server" where
  "server_start t = \<lparr>disk = \<lparr>store = [], dirs = {}, clock = t\<rparr>, next_cleanup = t + cleanup_interval\<rparr>"

text \<open>A step is a request handled to completion or a tick. A request that crashes the
  process has no step: the run of the server ends with it.\<close>

inductive server_step :: "(string \<Rightarrow> 'pg \<Rightarrow> 'pg \<Rightarrow> 'pg) \<Rightarrow> 'pg server \<Rightarrow> 'pg server \<Rightarrow> bool"
  for drawText where
  request: "\<not> request_crashes r (disk S) \<Longrightarrow>
    server_step drawText S (S\<lparr>disk := fst (handle_request drawText r (disk S))\<rparr>)"
| tick: "server_step drawText S (server_tick S)"

inductive server_reachable :: "(string \<Rightarrow> 'pg \<Rightarrow> 'pg \<Rightarrow> 'pg) \<Rightarrow> 'pg server \<Rightarrow> bool"
  for drawText where
  start: "server_reachable drawText (server_start t)"
| step: "server_reachable drawText S \<Longrightarrow> server_step drawText S S' \<Longrightarrow> server_reachable drawText S'"

text \<open>
  The invariant: the timer is due within the next 30 minutes; the paths of the store are
  distinct; every file lies in \<^verbatim>\<open>uploads\<close> or \<^verbatim>\<open>downloads\<close>, which exists; no
  file is from the future; and a file is at most \<^verbatim>\<open>maxAge\<close> older than the last
  sweep, which ran \<open>clock + interval - next_cleanup\<close> milliseconds ago.
\<close>

definition server_inv :: "'pg server \<Rightarrow> bool" where
  "server_inv S \<longleftrightarrow>
     clock (disk S) < next_cleanup S \<and> next_cleanup S \<le> clock (disk S) + cleanup_interval
     \<and> distinct (map fst (store (disk S)))
     \<and> (\<forall>p v. map_of (store (disk S)) p = Some v \<longrightarrow>
          fst p \<in> server_dirs \<and> fst p \<in> dirs (disk S) \<and> snd v \<le> clock (disk S)
          \<and> int (clock (disk S)) - int (snd v)
              \<le> max_age + (int (clock (disk S)) + int cleanup_interval - int (next_cleanup S)))"

declare cleanup_interval_def [model_eval] max_file_size_def [model_eval] within_limit_def [model_eval]
  part_upload_def [model_eval] file_too_large_def [model_eval] multer_abort_def [model_eval]
  single_upload_def [model_eval] array_upload_def [model_eval] health_handler_def [model_eval]
  static_handler_def [model_eval]
  handle_request_def [model_eval]
  server_tick_def [model_eval] server_start_def [model_eval]

subsection \<open>Handlers are fresh runs\<close>

lemma fresh_merge_files [intro, simp]: "fresh (merge_files acc fs)"
  by (induction fs arbitrary: acc) (auto intro!: fresh_bind)

lemma downloads_server_dir [simp]: "''downloads'' \<in> server_dirs"
  by (simp add: server_dirs_def)

lemma fresh_step_merge_handler: "fresh_step s (fst (merge_handler fs s))"
  unfolding merge_handler_def
  by (rule fresh_catch_500) (auto simp: Let_def intro!: fresh_bind fresh_writeFile)

lemma fresh_step_merge_request: "fresh_step s (fst (merge_request ups s))"
proof -
  obtain s1 fs where m: "multer_store_all ups s = (s1, fs)" by fastforce
  have "fresh_step s s1"
    using fresh_step_multer_store_all [of s ups] m by simp
  then show ?thesis
    using m fresh_step_merge_handler [of s1 fs] by (simp add: merge_request_def fresh_step_trans)
qed

lemma fresh_write_part [intro, simp]: "fresh (write_part i d acc)"
  by (auto simp: write_part_def Let_def intro!: fresh_bind fresh_writeFile)

lemma fresh_range_files [intro, simp]: "fresh (range_files src T rs i acc)"
  by (induction rs arbitrary: i acc) (auto intro!: fresh_bind)

lemma fresh_size_files [intro, simp]: "fresh (size_files src T parts k i acc)"
proof (induction src T parts k i acc rule: size_files.induct)
  case (1 src T parts k i acc)
  show ?case
  proof (cases "i < parts")
    case True
    then have "fresh (size_files src T parts k (i + 1) a)" for a
      using "1" by blast
    then show ?thesis
      using True by (subst size_files.simps) (auto simp: Let_def intro!: fresh_bind)
  next
    case False
    then show ?thesis by (subst size_files.simps) simp
  qed
qed

lemma fresh_split_outputs [intro, simp]: "fresh (split_outputs so pr np src T)"
  by (simp add: split_outputs_def split: option.split)

lemma fresh_archive_toFile [intro]: "fst p \<in> server_dirs \<Longrightarrow> fresh (archive_toFile p names)"
  by (auto simp: fresh_def fresh_step_def archive_toFile_def distinct_update split: if_split_asm)

lemma fresh_split_body [intro]: "fresh (split_body so pr np up)"
  unfolding split_body_def
  by (auto simp: Let_def split: option.split intro!: fresh_bind fresh_archive_toFile)

lemma fresh_step_split_handler: "fresh_step s (fst (split_handler so pr np up s))"
  unfolding split_handler_def
  by (rule fresh_catch_500) (intro fresh_bind fresh_split_body fresh_return)

subsection \<open>Multer's storage and its abort\<close>

lemma multer_store_all_env:
  "dirs (fst (multer_store_all ups s)) = (if ups = [] then dirs s else insert ''uploads'' (dirs s))
   \<and> clock (fst (multer_store_all ups s)) = clock s"
proof (induction ups arbitrary: s)
  case Nil
  then show ?case by simp
next
  case (Cons nb ups)
  obtain name b where nb: "nb = (name, b)" by fastforce
  show ?case
    using nb Cons.IH [of "fst (multer_store name b s)"]
    by (simp add: multer_store_def Let_def split_def insert_commute)
qed

lemma multer_store_all_paths:
  "map_of (store (fst (multer_store_all ups s))) p = map_of (store s) p
   \<or> p \<in> up_path ` set (snd (multer_store_all ups s))"
proof (induction ups arbitrary: s)
  case Nil
  then show ?case by simp
next
  case (Cons nb ups)
  obtain name b where nb: "nb = (name, b)" by fastforce
  let ?s1 = "fst (multer_store name b s)"
  have "map_of (store (fst (multer_store_all ups ?s1))) p = map_of (store ?s1) p
     \<or> p \<in> up_path ` set (snd (multer_store_all ups ?s1))"
    by (rule Cons.IH)
  then show ?case
    using nb by (auto simp: multer_store_def Let_def split_def split: if_splits)
qed

lemma map_of_fold_delete:
  "map_of (fold (\<lambda>u. AList.delete (up_path u)) us al) p = (if p \<in> up_path ` set us then None else map_of al p)"
  by (induction us arbitrary: al) auto

lemma distinct_fold_delete:
  "distinct (map fst al) \<Longrightarrow> distinct (map fst (fold (\<lambda>u. AList.delete (up_path u)) us al))"
  by (induction us arbitrary: al) (simp_all add: distinct_delete)

lemma fresh_step_fold_delete:
  "fresh_step s (s\<lparr>store := fold (\<lambda>u. AList.delete (up_path u)) us (store s)\<rparr>)"
  by (simp add: fresh_step_def distinct_fold_delete map_of_fold_delete)

lemma multer_abort_response: "snd (multer_abort ups s) = Status_500 file_too_large"
  by (simp add: multer_abort_def split_def Let_def)

text \<open>An aborted request answers 500, creates \<^verbatim>\<open>uploads\<close> and leaves no file it
  stored: it only deletes.\<close>

lemma multer_abort_effect:
  assumes "ups \<noteq> []"
  shows "snd (multer_abort ups s) = Status_500 file_too_large
     \<and> dirs (fst (multer_abort ups s)) = insert ''uploads'' (dirs s)
     \<and> clock (fst (multer_abort ups s)) = clock s
     \<and> only_deletes s (fst (multer_abort ups s))"
proof -
  obtain s1 us where m: "multer_store_all ups s = (s1, us)" by fastforce
  have env: "dirs s1 = insert ''uploads'' (dirs s)" "clock s1 = clock s"
    using multer_store_all_env [of ups s] m assms by simp_all
  have "map_of (store s1) p = map_of (store s) p \<or> p \<in> up_path ` set us" for p
    using multer_store_all_paths [of ups s p] m by simp
  then have "only_deletes s (s1\<lparr>store := fold (\<lambda>u. AList.delete (up_path u)) us (store s1)\<rparr>)"
    by (auto simp: only_deletes_def map_of_fold_delete)
  then show ?thesis
    using m env by (simp add: multer_abort_def)
qed

text \<open>A file of at most 50 MB is stored and handed to the handler; the first file over
  the limit aborts the request.\<close>

lemma single_upload_within:
  "within_limit p \<Longrightarrow>
   single_upload (Some p) handler s = (let (s1, u) = multer_store (fst p) (fst (snd p)) s in handler (Some u) s1)"
  by (simp add: single_upload_def)

lemma array_upload_over:
  assumes "p \<in> set ups" and "\<not> within_limit p"
  shows "\<exists>ups'. ups' \<noteq> [] \<and> array_upload ups handler s = multer_abort ups' s"
proof -
  have "dropWhile within_limit ups \<noteq> []"
    using assms by (auto simp: dropWhile_eq_Nil_conv)
  then obtain big rest where d: "dropWhile within_limit ups = big # rest"
    by (cases "dropWhile within_limit ups") auto
  show ?thesis
    by (rule exI [of _ "map part_upload (takeWhile within_limit ups @ [big])"]) (simp add: array_upload_def d)
qed

lemma request_over_limit_aborts:
  assumes "p \<in> set (request_uploads r)" and "\<not> within_limit p"
  shows "\<exists>ups'. ups' \<noteq> [] \<and> handle_request dT r s = multer_abort ups' s"
  using assms array_upload_over [OF assms]
  by (cases r) (auto simp: request_uploads_def handle_request_def single_upload_def opt_list_def
      split: option.splits)

lemma fresh_step_multer_abort: "fresh_step s (fst (multer_abort ups s))"
proof -
  obtain s1 us where m: "multer_store_all ups s = (s1, us)" by fastforce
  have "fresh_step s s1"
    using fresh_step_multer_store_all [of s ups] m by simp
  then show ?thesis
    using m fresh_step_fold_delete [of s1 us] by (simp add: multer_abort_def fresh_step_trans)
qed

lemma fresh_step_single_upload:
  assumes "\<And>u s. fresh_step s (fst (handler u s))"
  shows "fresh_step s (fst (single_upload up handler s))"
proof (cases up)
  case None
  then show ?thesis using assms by (simp add: single_upload_def)
next
  case (Some p)
  obtain s1 u where m: "multer_store (fst p) (fst (snd p)) s = (s1, u)" by fastforce
  have "fresh_step s s1"
    using fresh_step_multer_store [of s "fst p" "fst (snd p)"] m by simp
  then show ?thesis
    using Some m assms [of s1 "Some u"] fresh_step_multer_abort [of s "[part_upload p]"]
    by (simp add: single_upload_def fresh_step_trans)
qed

lemma fresh_step_array_upload:
  assumes "\<And>ups s. fresh_step s (fst (handler ups s))"
  shows "fresh_step s (fst (array_upload ups handler s))"
  using assms by (simp add: array_upload_def fresh_step_multer_abort split: list.split)

lemma fresh_if [intro]: "fresh a \<Longrightarrow> fresh b \<Longrightarrow> fresh (if c then a else b)"
  by simp

lemma fresh_convert_output [intro]:
  assumes "fst out \<in> server_dirs"
  shows "fresh (convert_output e f inp out)"
  unfolding convert_output_def
  by (intro fresh_if fresh_bind fresh_sharp_toFile fresh_writeFile fresh_readFile fresh_return assms)

lemma fresh_step_convert_handler: "fresh_step s (fst (convert_handler f up s))"
  unfolding convert_handler_def
  by (rule fresh_catch_500) (auto simp: Let_def split: option.split intro!: fresh_bind fresh_convert_output)

lemma fresh_step_compress_handler: "fresh_step s (fst (compress_handler lvl up s))"
  unfolding compress_handler_def
  by (rule fresh_catch_500)
    (auto simp: Let_def split: option.split intro!: fresh_bind fresh_writeFile fresh_sharp_toFile)

lemma fresh_step_security_handler: "fresh_step s (fst (security_handler dT sa wt up s))"
  unfolding security_handler_def
  by (rule fresh_catch_500) (auto simp: Let_def split: option.split intro!: fresh_bind fresh_writeFile)

lemma fresh_step_image_handler: "fresh_step s (fst (image_handler op ra rw rh up s))"
  unfolding image_handler_def
  by (rule fresh_catch_500) (auto simp: Let_def split: option.split intro!: fresh_bind fresh_sharp_toFile)

lemma fresh_step_handle_request: "fresh_step s (fst (handle_request dT r s))"
  by (cases r) (simp_all add: handle_request_def fresh_step_merge_request fresh_step_single_upload
      fresh_step_array_upload health_handler_def static_handler_def
      fresh_step_split_handler fresh_step_convert_handler fresh_step_compress_handler
      fresh_step_security_handler fresh_step_image_handler)

subsection \<open>Handlers answer well-formed responses\<close>

lemma wf_single_upload:
  assumes "\<And>u s. response_wf (snd (handler u s))"
  shows "response_wf (snd (single_upload up handler s))"
  using assms by (simp add: single_upload_def split_def Let_def multer_abort_response split: option.split)

lemma wf_array_upload:
  assumes "\<And>ups s. response_wf (snd (handler ups s))"
  shows "response_wf (snd (array_upload ups handler s))"
  using assms by (simp add: array_upload_def multer_abort_response split: list.split)

subsection \<open>A success names a file that is served\<close>

text \<open>The output of a run is stored at path \<open>p\<close> after it, and the steps that may
  follow the write keep it.\<close>

lemma writeFile_stores: "fs_writeFile p b s = (s', Inr x) \<Longrightarrow> map_of (store s') p \<noteq> None"
  by (auto simp: fs_writeFile_def split: if_splits)

lemma sharp_toFile_stores: "sharp_toFile i ops p s = (s', Inr x) \<Longrightarrow> map_of (store s') p \<noteq> None"
  by (auto simp: sharp_toFile_def io_bind_apply io_lift_def fs_readFile_def fs_writeFile_def
      split: option.splits if_splits prod.splits)

lemma convert_output_stores:
  "convert_output e f i p s = (s', Inr None) \<Longrightarrow> map_of (store s') p \<noteq> None"
  unfolding convert_output_def
  by (auto simp: io_bind_apply io_return_def fs_readFile_def fs_writeFile_def
      dest: sharp_toFile_stores split: if_splits option.splits prod.splits sum.splits)

text \<open>The upload a handler gets, if any, lies in \<^verbatim>\<open>uploads\<close>.\<close>

definition in_uploads :: "upload option \<Rightarrow> bool" where
  "in_uploads file = (case file of None \<Rightarrow> True | Some u \<Rightarrow> fst (up_path u) = ''uploads'')"

lemma in_uploads_multer_store [simp]: "in_uploads (Some (snd (multer_store n b s)))"
  by (simp add: in_uploads_def multer_store_def Let_def)

lemma in_uploads_None [simp]: "in_uploads None"
  by (simp add: in_uploads_def)

lemma output_not_upload [simp]:
  "fst p = ''uploads'' \<Longrightarrow> (''downloads'', n) \<noteq> p"
  "fst p = ''uploads'' \<Longrightarrow> p \<noteq> (''downloads'', n)"
  by auto

lemma multer_abort_not_success [simp]: "multer_abort ups s \<noteq> (s', Success f u m)"
proof
  assume "multer_abort ups s = (s', Success f u m)"
  then have "snd (multer_abort ups s) = Success f u m" by simp
  then show False by (simp add: multer_abort_response)
qed

lemma merge_success_served:
  "merge_handler fs s = (s', Success f u m) \<Longrightarrow> static_handler f s' = (s', Static_file f)"
  unfolding merge_handler_def catch_500_def static_handler_def
  by (auto simp: io_bind_apply Let_def io_return_def date_now_def fs_mkdir_def fs_writeFile_def
      split: prod.splits sum.splits if_splits)

lemma split_body_served:
  "split_body so pr np up s = (s', Inr (Success f u m, False)) \<Longrightarrow> static_handler f s' = (s', Static_file f)"
  unfolding split_body_def static_handler_def
  by (auto simp: io_bind_apply Let_def io_return_def date_now_def archive_toFile_def zip_filename_def
      split: prod.splits sum.splits if_splits option.splits)

lemma split_success_served:
  "split_handler so pr np up s = (s', Success f u m) \<Longrightarrow> \<not> split_crashes so pr np up s \<Longrightarrow>
   static_handler f s' = (s', Static_file f)"
  by (cases "split_body so pr np up s")
    (auto simp: split_handler_def split_crashes_def catch_500_def io_bind_def io_return_def
      split_body_served split: sum.splits)

lemma convert_success_served:
  "convert_handler toFormat up s = (s', Success f u m) \<Longrightarrow> in_uploads up \<Longrightarrow>
   static_handler f s' = (s', Static_file f)"
  unfolding convert_handler_def catch_500_def static_handler_def in_uploads_def
  by (auto simp: io_bind_apply Let_def io_return_def date_now_def fs_mkdir_def fs_unlink_def
      converted_filename_def dest: convert_output_stores split: prod.splits sum.splits option.splits if_splits)

lemma compress_success_served:
  "compress_handler lvl up s = (s', Success f u m) \<Longrightarrow> in_uploads up \<Longrightarrow>
   static_handler f s' = (s', Static_file f)"
  unfolding compress_handler_def catch_500_def static_handler_def in_uploads_def
  by (auto simp: io_bind_apply Let_def io_return_def date_now_def fs_mkdir_def fs_unlink_def
      fs_stat_mtime_def fs_readFile_def io_lift_def fs_writeFile_def compressed_filename_def
      dest: sharp_toFile_stores split: prod.splits sum.splits option.splits if_splits)

lemma image_success_served:
  "image_handler op ra rw rh up s = (s', Success f u m) \<Longrightarrow> in_uploads up \<Longrightarrow>
   static_handler f s' = (s', Static_file f)"
  unfolding image_handler_def catch_500_def static_handler_def in_uploads_def
  by (auto simp: io_bind_apply Let_def io_return_def date_now_def fs_mkdir_def fs_unlink_def
      edited_filename_def dest: sharp_toFile_stores split: prod.splits sum.splits option.splits if_splits)

lemma merge_route_success_served:
  "array_upload ups merge_request s = (s', Success f u m) \<Longrightarrow> static_handler f s' = (s', Static_file f)"
  by (auto simp: array_upload_def merge_request_def split_def Let_def merge_success_served
      split: list.splits)

lemma split_route_success_served:
  assumes "single_upload up (split_handler so pr np) s = (s', Success f url m)"
    and "\<not> single_upload_crashes up (split_crashes so pr np) s"
  shows "static_handler f s' = (s', Static_file f)"
  using assms
  by (auto simp: single_upload_def single_upload_crashes_def split_def Let_def split_success_served
      split: option.splits if_splits)

lemma single_upload_success_served:
  assumes "\<And>u s s' f url m. handler u s = (s', Success f url m) \<Longrightarrow> in_uploads u \<Longrightarrow>
      static_handler f s' = (s', Static_file f)"
    and "single_upload up handler s = (s', Success f url m)"
  shows "static_handler f s' = (s', Static_file f)"
  using assms by (auto simp: single_upload_def split_def Let_def split: option.splits if_splits)

subsection \<open>The invariant is kept\<close>

lemma server_inv_files:
  assumes "server_inv S" and "map_of (store (disk S)) p = Some v"
  shows "fst p \<in> server_dirs \<and> fst p \<in> dirs (disk S) \<and> snd v \<le> clock (disk S)
      \<and> int (clock (disk S)) - int (snd v)
        \<le> max_age + (int (clock (disk S)) + int cleanup_interval - int (next_cleanup S))"
  using assms unfolding server_inv_def by blast

lemma server_invI:
  assumes "\<And>p v. map_of (store (disk S)) p = Some v \<Longrightarrow>
        fst p \<in> server_dirs \<and> fst p \<in> dirs (disk S) \<and> snd v \<le> clock (disk S)
        \<and> int (clock (disk S)) - int (snd v)
          \<le> max_age + (int (clock (disk S)) + int cleanup_interval - int (next_cleanup S))"
    "clock (disk S) < next_cleanup S" "next_cleanup S \<le> clock (disk S) + cleanup_interval"
    "distinct (map fst (store (disk S)))"
  shows "server_inv S"
  using assms unfolding server_inv_def by blast

lemma server_inv_start: "server_inv (server_start t)"
  by (simp add: server_inv_def server_start_def cleanup_interval_def)

lemma server_inv_request:
  assumes "server_inv S"
  shows "server_inv (S\<lparr>disk := fst (handle_request dT r (disk S))\<rparr>)"
proof -
  let ?d = "disk S" and ?d' = "fst (handle_request dT r (disk S))"
  have f: "fresh_step ?d ?d'" by (rule fresh_step_handle_request)
  then have c: "clock ?d' = clock ?d" and sub: "dirs ?d \<subseteq> dirs ?d'"
    and dist: "distinct (map fst (store ?d'))"
    using assms by (auto simp: fresh_step_def server_inv_def)
  have slack: "0 \<le> int (clock ?d) + int cleanup_interval - int (next_cleanup S)"
    using assms by (simp add: server_inv_def)
  have files: "fst p \<in> server_dirs \<and> fst p \<in> dirs ?d' \<and> snd v \<le> clock ?d'
      \<and> int (clock ?d') - int (snd v) \<le> max_age + (int (clock ?d') + int cleanup_interval - int (next_cleanup S))"
    if "map_of (store ?d') p = Some v" for p v
  proof -
    from that f have "map_of (store ?d) p = Some v \<or> (snd v = clock ?d \<and> fst p \<in> dirs ?d' \<and> fst p \<in> server_dirs)"
      unfolding fresh_step_def by blast
    then show ?thesis
    proof
      assume "map_of (store ?d) p = Some v"
      then have "fst p \<in> server_dirs \<and> fst p \<in> dirs ?d \<and> snd v \<le> clock ?d
          \<and> int (clock ?d) - int (snd v)
            \<le> max_age + (int (clock ?d) + int cleanup_interval - int (next_cleanup S))"
        by (rule server_inv_files [OF assms])
      then show ?thesis
        using sub c by (simp add: subsetD)
    next
      assume "snd v = clock ?d \<and> fst p \<in> dirs ?d' \<and> fst p \<in> server_dirs"
      then show ?thesis
        using c slack by (simp add: max_age_def)
    qed
  qed
  have timer: "clock ?d < next_cleanup S" "next_cleanup S \<le> clock ?d + cleanup_interval"
    using assms by (simp_all add: server_inv_def)
  show ?thesis
    apply (rule server_invI)
    subgoal for p v using files [of p v] by (simp del: map_of_eq_Some_iff)
    using timer c dist by (simp_all)
qed

lemma server_inv_tick:
  assumes "server_inv S"
  shows "server_inv (server_tick S)"
proof -
  let ?d = "(disk S)\<lparr>clock := clock (disk S) + 1\<rparr>"
  have dist: "distinct (map fst (store ?d))"
    using assms by (simp add: server_inv_def)
  show ?thesis
  proof (cases "clock ?d = next_cleanup S")
    case True
    have env: "dirs (cleanupOldFiles ?d) = dirs ?d" "clock (cleanupOldFiles ?d) = clock ?d"
      "distinct (map fst (store (cleanupOldFiles ?d)))"
      using cleanupOldFiles_env [OF dist] by blast+
    have kept: "fst p \<in> server_dirs \<and> fst p \<in> dirs ?d \<and> snd v \<le> clock ?d
        \<and> int (clock ?d) - int (snd v) \<le> max_age"
      if "map_of (store (cleanupOldFiles ?d)) p = Some v" for p v
    proof -
      have old: "map_of (store ?d) p = Some v"
        and fresh: "\<not> (fst p \<in> {''uploads'', ''downloads''} \<and> fst p \<in> dirs ?d \<and> stale_at (clock ?d) (Some v))"
        using that cleanupOldFiles_map_of [OF dist, of p] by (auto split: if_splits)
      have inv: "fst p \<in> server_dirs" "fst p \<in> dirs ?d" "snd v \<le> clock (disk S)"
        using server_inv_files [OF assms, of p v] old by simp_all
      then have "\<not> stale (clock ?d) (snd v)"
        using fresh by (auto simp: stale_at_def server_dirs_def split: prod.splits)
      then show ?thesis
        using inv by (simp add: stale_def)
    qed
    have t: "server_tick S = \<lparr>disk = cleanupOldFiles ?d, next_cleanup = next_cleanup S + cleanup_interval\<rparr>"
      using True by (simp add: server_tick_def Let_def)
    show ?thesis
      unfolding t
      apply (rule server_invI)
      subgoal for p v using kept [of p v] env True by (simp del: map_of_eq_Some_iff)
      using env True by (simp_all add: cleanup_interval_def)
  next
    case False
    have t: "server_tick S = S\<lparr>disk := ?d\<rparr>"
      using False by (simp add: server_tick_def Let_def)
    have timer: "clock (disk S) < next_cleanup S" "next_cleanup S \<le> clock (disk S) + cleanup_interval"
      using assms by (simp_all add: server_inv_def)
    have files: "fst p \<in> server_dirs \<and> fst p \<in> dirs (disk S) \<and> snd v \<le> clock (disk S)
        \<and> int (clock (disk S)) - int (snd v)
          \<le> max_age + (int (clock (disk S)) + int cleanup_interval - int (next_cleanup S))"
      if "map_of (store (disk S)) p = Some v" for p v
      using server_inv_files [OF assms that] .
    show ?thesis
      unfolding t
      apply (rule server_invI)
      subgoal for p v using files [of p v] by (simp del: map_of_eq_Some_iff)
      using False timer dist by (simp_all)
  qed
qed

lemma server_step_inv: "server_step dT S S' \<Longrightarrow> server_inv S \<Longrightarrow> server_inv S'"
  by (induction rule: server_step.induct) (simp_all add: server_inv_request server_inv_tick)

lemma server_reachable_server_inv: "server_reachable dT S \<Longrightarrow> server_inv S"
  by (induction rule: server_reachable.induct) (simp_all add: server_inv_start server_step_inv)

subsection \<open>Idle runs\<close>

text \<open>A tick moves the clock by one and only deletes files.\<close>

lemma tick_disk:
  assumes "server_inv S"
  shows "clock (disk (server_tick S)) = clock (disk S) + 1 \<and> only_deletes (disk S) (disk (server_tick S))"
proof -
  let ?d = "(disk S)\<lparr>clock := clock (disk S) + 1\<rparr>"
  have dist: "distinct (map fst (store ?d))"
    using assms by (simp add: server_inv_def)
  show ?thesis
  proof (cases "clock ?d = next_cleanup S")
    case True
    then have t: "disk (server_tick S) = cleanupOldFiles ?d"
      by (simp add: server_tick_def Let_def)
    have "only_deletes (disk S) (cleanupOldFiles ?d)"
      unfolding only_deletes_def using cleanupOldFiles_map_of [OF dist] by simp
    then show ?thesis
      using t cleanupOldFiles_env [OF dist] by simp
  next
    case False
    then have "disk (server_tick S) = ?d"
      by (simp add: server_tick_def Let_def)
    then show ?thesis
      by (simp add: only_deletes_def)
  qed
qed

lemma ticks_disk:
  assumes "server_inv S"
  shows "server_inv ((server_tick ^^ n) S) \<and> clock (disk ((server_tick ^^ n) S)) = clock (disk S) + n
     \<and> only_deletes (disk S) (disk ((server_tick ^^ n) S))"
proof (induction n)
  case 0
  then show ?case using assms by simp
next
  case (Suc n)
  then show ?case
    using server_inv_tick tick_disk [of "(server_tick ^^ n) S"] only_deletes_trans by auto
qed

text \<open>A reachable state: the server started at time 0 has answered a merge request with a
  single upload (status 400), and the upload is left in \<^verbatim>\<open>uploads\<close>.\<close>

definition one_upload :: "unit server" where
  "one_upload = (server_start 0)\<lparr>disk := fst (handle_request (\<lambda>_ _ p. p) (Merge_request [(''a.pdf'', Archive [], 10)])
     (disk (server_start 0)))\<rparr>"

lemma one_upload_reachable: "server_reachable (\<lambda>_ _ p. p) one_upload"
  unfolding one_upload_def
  by (rule server_reachable.step [OF server_reachable.start server_step.request]) (simp add: request_crashes_def)

lemma one_upload_store:
  "map_of (store (disk one_upload)) (''uploads'', ''0-a.pdf'') = Some (Archive [], 0)"
  by (simp add: one_upload_def model_eval dec_string.simps dec_digit_def Let_def
      catch_500_def io_return_def merge_message_def)

subsection \<open>Properties of the server process\<close>

text \<open>C20. Every answer of the server has the shape its route promises, on every route
  and in every state: a success names a non-empty file and gives its URL
  \<^verbatim>\<open>/downloads/<fileName>\<close>, an answer of status 400 has a non-empty message, and the
  health check reports OK.\<close>

theorem handle_request_response_wf: "response_wf (snd (handle_request dT r s))"
  by (cases r) (simp_all add: handle_request_def health_handler_def static_handler_def wf_array_upload
      wf_merge_request
      wf_single_upload wf_split_handler wf_convert_handler wf_compress_handler wf_security_handler
      wf_image_handler)

text \<open>C17. The upload limit: a request carrying a file of more than 50 MB is refused
  before its route's handler runs, on every upload route: the answer is status 500 with
  multer's \<^verbatim>\<open>File too large\<close>, \<^verbatim>\<open>uploads\<close> is created, the clock is kept, and no
  file is created or changed, since multer removes the files of the request it stored.\<close>

theorem upload_too_large_refused:
  assumes big: "p \<in> set (request_uploads r)" and over: "max_file_size < snd (snd p)"
  shows "snd (handle_request dT r s) = Status_500 file_too_large
     \<and> dirs (fst (handle_request dT r s)) = insert ''uploads'' (dirs s)
     \<and> clock (fst (handle_request dT r s)) = clock s
     \<and> only_deletes s (fst (handle_request dT r s))"
proof -
  have "\<not> within_limit p"
    using over by (simp add: within_limit_def)
  then obtain ups' where "ups' \<noteq> []" and "handle_request dT r s = multer_abort ups' s"
    using request_over_limit_aborts [OF big] by blast
  then show ?thesis
    using multer_abort_effect by simp
qed

theorem upload_too_large_refused_witness:
  "(''big.png'', Bytes (Other_bytes ''x''), 52428801)
     \<in> set (request_uploads (Convert_request (Some ''png'')
                                (Some (''big.png'', Bytes (Other_bytes ''x''), 52428801)) :: unit request))
   \<and> max_file_size < snd (snd (''big.png'', Bytes (Other_bytes ''x'') :: unit blob, 52428801 :: nat))
   \<and> handle_request (\<lambda>_ _ p. p)
       (Convert_request (Some ''png'') (Some (''big.png'', Bytes (Other_bytes ''x''), 52428801)))
       \<lparr>store = [], dirs = {}, clock = 7\<rparr>
     = (\<lparr>store = [], dirs = {''uploads''}, clock = 7\<rparr>, Status_500 file_too_large)"
proof -
  have h: "(''big.png'', Bytes (Other_bytes ''x''), 52428801)
     \<in> set (request_uploads (Convert_request (Some ''png'')
                                (Some (''big.png'', Bytes (Other_bytes ''x''), 52428801)) :: unit request))"
    "max_file_size < snd (snd (''big.png'', Bytes (Other_bytes ''x'') :: unit blob, 52428801 :: nat))"
    by (simp_all add: request_uploads_def opt_list_def max_file_size_def)
  have r: "handle_request (\<lambda>_ _ p. p)
       (Convert_request (Some ''png'') (Some (''big.png'', Bytes (Other_bytes ''x''), 52428801)))
       \<lparr>store = [], dirs = {}, clock = 7\<rparr>
     = (\<lparr>store = [], dirs = {''uploads''}, clock = 7\<rparr>, Status_500 file_too_large)"
    using upload_too_large_refused [OF h, of "\<lambda>_ _ p. p" "\<lparr>store = [], dirs = {}, clock = 7\<rparr>"]
    by (simp add: model_eval dec_string.simps dec_digit_def Let_def)
  show ?thesis
    using h r by blast
qed

text \<open>C11. Download links work: on every route but the security one, when the server
  answers success with \<open>fileName\<close> and keeps running, a following
  \<^verbatim>\<open>GET /downloads/<fileName>\<close> is served the file by the static middleware of
  line 18 (it is stored in \<^verbatim>\<open>downloads\<close> and is not a dot-file), not answered
  404. The one success that names a missing file is the split whose archive stream fails,
  which crashes the process (C10).\<close>

theorem success_download_served:
  assumes ok: "handle_request dT r s = (s', Success fileName downloadUrl message)"
    and route: "\<not> security_route r" and running: "\<not> request_crashes r s"
  shows "handle_request dT (Download_request fileName) s' = (s', Static_file fileName)"
proof -
  have "static_handler fileName s' = (s', Static_file fileName)"
  proof (cases r)
    case (Merge_request ups)
    then show ?thesis using ok by (simp add: handle_request_def merge_route_success_served)
  next
    case (Split_request so pr np up)
    show ?thesis
      by (rule split_route_success_served [of up so pr np])
        (use ok running Split_request in \<open>simp_all add: handle_request_def request_crashes_def\<close>)
  next
    case (Convert_request toFormat up)
    show ?thesis
      by (rule single_upload_success_served [of "convert_handler toFormat"])
        (use ok Convert_request in \<open>simp_all add: handle_request_def convert_success_served\<close>)
  next
    case (Compress_request lvl up)
    show ?thesis
      by (rule single_upload_success_served [of "compress_handler lvl"])
        (use ok Compress_request in \<open>simp_all add: handle_request_def compress_success_served\<close>)
  next
    case (Security_request sa wt up)
    then show ?thesis using route by (simp add: security_route_def)
  next
    case (Image_request op ra rw rh up)
    show ?thesis
      by (rule single_upload_success_served [of "image_handler op ra rw rh"])
        (use ok Image_request in \<open>simp_all add: handle_request_def image_success_served\<close>)
  next
    case Health_request
    then show ?thesis using ok by (simp add: handle_request_def health_handler_def)
  next
    case (Download_request name)
    then show ?thesis using ok by (simp add: handle_request_def static_handler_def split: if_splits)
  qed
  then show ?thesis
    by (simp add: handle_request_def)
qed

theorem success_download_served_witness:
  "handle_request (\<lambda>_ _ p. p) (Compress_request (Some ''50'') (Some (''a.pdf'', Bytes (Pdf_bytes [1 :: nat]), 10)))
     \<lparr>store = [], dirs = {}, clock = 7\<rparr>
     = (\<lparr>store = [((''downloads'', ''compressed-7.pdf''), Bytes (Pdf_bytes [1]), 7)],
         dirs = {''downloads'', ''uploads''}, clock = 7\<rparr>,
        Success ''compressed-7.pdf'' ''/downloads/compressed-7.pdf'' ''Compressed PDF'')
   \<and> \<not> security_route (Compress_request (Some ''50'') (Some (''a.pdf'', Bytes (Pdf_bytes [1 :: nat]), 10)))
   \<and> \<not> request_crashes (Compress_request (Some ''50'') (Some (''a.pdf'', Bytes (Pdf_bytes [1 :: nat]), 10)))
       \<lparr>store = [], dirs = {}, clock = 7\<rparr>
   \<and> handle_request (\<lambda>_ _ p. p) (Download_request ''compressed-7.pdf'')
       \<lparr>store = [((''downloads'', ''compressed-7.pdf''), Bytes (Pdf_bytes [1 :: nat]), 7)],
        dirs = {''downloads'', ''uploads''}, clock = 7\<rparr>
     = (\<lparr>store = [((''downloads'', ''compressed-7.pdf''), Bytes (Pdf_bytes [1]), 7)],
         dirs = {''downloads'', ''uploads''}, clock = 7\<rparr>, Static_file ''compressed-7.pdf'')"
proof -
  have h: "handle_request (\<lambda>_ _ p. p) (Compress_request (Some ''50'') (Some (''a.pdf'', Bytes (Pdf_bytes [1 :: nat]), 10)))
     \<lparr>store = [], dirs = {}, clock = 7\<rparr>
     = (\<lparr>store = [((''downloads'', ''compressed-7.pdf''), Bytes (Pdf_bytes [1]), 7)],
         dirs = {''downloads'', ''uploads''}, clock = 7\<rparr>,
        Success ''compressed-7.pdf'' ''/downloads/compressed-7.pdf'' ''Compressed PDF'')"
    "\<not> security_route (Compress_request (Some ''50'') (Some (''a.pdf'', Bytes (Pdf_bytes [1 :: nat]), 10)))"
    "\<not> request_crashes (Compress_request (Some ''50'') (Some (''a.pdf'', Bytes (Pdf_bytes [1 :: nat]), 10)))
       \<lparr>store = [], dirs = {}, clock = 7\<rparr>"
    by (simp_all add: model_eval Let_def dec_string.simps dec_digit_def js_extname_def
        security_route_def request_crashes_def)
  show ?thesis
    using success_download_served [OF h] h by blast
qed



text \<open>C34. Every state the server reaches from its start by requests and clock ticks
  satisfies the invariant: the cleanup timer is due within 30 minutes, stored paths are
  distinct, every file lies in an existing \<^verbatim>\<open>uploads\<close> or \<^verbatim>\<open>downloads\<close>
  directory, no file is newer than the clock, and no file is more than \<^verbatim>\<open>maxAge\<close>
  older than the last sweep.\<close>

theorem reachable_server_inv: "server_reachable dT S \<Longrightarrow> server_inv S"
proof (induction rule: server_reachable.induct)
  case (start t)
  show ?case by (rule server_inv_start)
next
  case (step S S')
  then show ?case using server_step_inv by blast
qed

theorem reachable_server_inv_witness: "server_reachable (\<lambda>_ _ p. p) one_upload \<and> server_inv one_upload"
  using reachable_server_inv [OF one_upload_reachable] one_upload_reachable by blast

text \<open>C35. Retention bound: in every reachable state, a stored file was written less than
  \<^verbatim>\<open>maxAge\<close> plus the cleanup interval (90 minutes) before the current time.\<close>

theorem reachable_file_age:
  assumes "server_reachable dT S" and "map_of (store (disk S)) p = Some (b, t)"
  shows "int (clock (disk S)) < int t + max_age + int cleanup_interval"
proof -
  have inv: "server_inv S" by (rule server_reachable_server_inv [OF assms(1)])
  then have "clock (disk S) < next_cleanup S" by (simp add: server_inv_def)
  moreover have "int (clock (disk S)) - int t
      \<le> max_age + (int (clock (disk S)) + int cleanup_interval - int (next_cleanup S))"
    using server_inv_files [OF inv assms(2)] by simp
  ultimately show ?thesis by linarith
qed

theorem reachable_file_age_witness:
  "server_reachable (\<lambda>_ _ p. p) one_upload
   \<and> map_of (store (disk one_upload)) (''uploads'', ''0-a.pdf'') = Some (Archive [], 0)
   \<and> int (clock (disk one_upload)) < int 0 + max_age + int cleanup_interval"
  using reachable_file_age [OF one_upload_reachable one_upload_store] one_upload_reachable one_upload_store
  by blast

text \<open>C40. Liveness of the cleanup: from any reachable state, if no request arrives,
  every file stored now is deleted within \<^verbatim>\<open>maxAge\<close> plus one cleanup interval
  (90 minutes) of clock ticks.\<close>

theorem idle_server_deletes_file:
  assumes reach: "server_reachable dT S" and stored: "map_of (store (disk S)) p = Some (b, t)"
  shows "map_of (store (disk ((server_tick ^^ (nat max_age + cleanup_interval)) S))) p = None"
proof (rule ccontr)
  let ?S' = "(server_tick ^^ (nat max_age + cleanup_interval)) S"
  assume ne: "map_of (store (disk ?S')) p \<noteq> None"
  have inv: "server_inv S"
    by (rule server_reachable_server_inv [OF reach])
  have inv': "server_inv ?S'" and clk: "clock (disk ?S') = clock (disk S) + (nat max_age + cleanup_interval)"
    and od: "only_deletes (disk S) (disk ?S')"
    using ticks_disk [OF inv] by blast+
  have "map_of (store (disk ?S')) p = None \<or> map_of (store (disk ?S')) p = map_of (store (disk S)) p"
    using od unfolding only_deletes_def by blast
  then have same: "map_of (store (disk ?S')) p = Some (b, t)"
    using ne stored by simp
  have "int (clock (disk ?S')) - int t
      \<le> max_age + (int (clock (disk ?S')) + int cleanup_interval - int (next_cleanup ?S'))"
    using server_inv_files [OF inv' same] by simp
  moreover have "clock (disk ?S') < next_cleanup ?S'"
    using inv' by (simp add: server_inv_def)
  moreover have "t \<le> clock (disk S)"
    using server_inv_files [OF inv stored] by simp
  moreover have "int (nat max_age) = max_age"
    by (simp add: max_age_def)
  ultimately show False
    using clk by linarith
qed

theorem idle_server_deletes_file_witness:
  "server_reachable (\<lambda>_ _ p. p) one_upload
   \<and> map_of (store (disk one_upload)) (''uploads'', ''0-a.pdf'') = Some (Archive [], 0)
   \<and> map_of (store (disk ((server_tick ^^ (nat max_age + cleanup_interval)) one_upload)))
        (''uploads'', ''0-a.pdf'') = None"
  using idle_server_deletes_file [OF one_upload_reachable one_upload_store] one_upload_reachable
    one_upload_store
  by blast

end
