(* ===== verification/Spec2Isabelle.thy ===== *)
theory Spec2Isabelle
  imports Range_Split Size_Split Merge Server
begin

text \<open>
  \<^bold>\<open>A verification model of the pdftool server (\<^verbatim>\<open>src/server.js\<close>).\<close>

  The program is one Express server. Six POST routes each take uploads stored by multer
  in \<^verbatim>\<open>uploads/\<close>, call a document or image library, write their output to
  \<^verbatim>\<open>downloads/\<close> and delete the upload; a timer sweeps both directories every 30
  minutes. The part with its own logic is the PDF page engine behind
  \<^verbatim>\<open>/api/split\<close> and \<^verbatim>\<open>/api/merge\<close>. The development models the engine and
  every handler from the code, the file system, clock and libraries at their interface,
  and the whole process as a transition system over requests and clock ticks.

  \<^bold>\<open>Theories.\<close>
  \<^item> \<open>Prelude\<close>: the error values (\<open>Bad_request\<close> for an early 400 return;
    \<open>Type_error\<close>, \<open>Format_error\<close>, \<open>Io_error\<close> and \<open>Library_error\<close> for the
    exceptions answered with 500), \<open>js_int\<close> (\<^verbatim>\<open>NaN\<close> as \<open>None\<close>), the collection
    \<open>model_eval\<close> of equations used to evaluate concrete requests, and lemmas on
    integer ranges, slices and subsequences.
  \<^item> \<open>JS_Builtins\<close>: \<^verbatim>\<open>split\<close>, \<^verbatim>\<open>trim\<close>, \<^verbatim>\<open>includes\<close>, \<^verbatim>\<open>parseInt\<close>
    and decimal printing after ECMAScript, with their round trips.
  \<^item> \<open>Node_Path\<close>: Node's \<^verbatim>\<open>path.extname\<close> loop statement for statement, ASCII
    case mapping, and \<open>file_ext\<close> (line 77, also 299 and 429). The loop equals a
    declarative reference on names without a slash (C36).
  \<^item> \<open>Pdf_Doc\<close>: pdf-lib's \<^verbatim>\<open>PDFDocument\<close> at the interface of spec section 6.
  \<^item> \<open>Sharp\<close>: sharp pipelines as lists of calls, the parameter checks each call
    makes, and the rule that the last format call (else the output suffix) sets the
    format written.
  \<^item> \<open>File_Store\<close>: \<^verbatim>\<open>fs.promises\<close> and \<^verbatim>\<open>Date.now\<close> as a state record
    (an association list of paths to contents and mtime, the existing directories, a
    millisecond clock); a handler is a state transformer with exceptions whose effects
    before a throw persist (\<open>io_bind\<close>, \<open>catch_500\<close>); multer's disk storage
    (lines 21 to 37); \<open>sharp_toFile\<close>; the predicates \<open>keeps_env\<close>,
    \<open>only_deletes\<close> and \<open>fresh\<close> (a run that writes only new files stamped with the
    clock in \<^verbatim>\<open>uploads\<close> or \<^verbatim>\<open>downloads\<close>); the shape of a
    well-formed response (\<open>response_wf\<close>) and the runs whose results satisfy a
    predicate (\<open>io_results\<close>), with rules for each combinator. Each handler theory
    ends with the lemma that its handler answers only well-formed responses.
  \<^item> \<open>Range_Split\<close> (lines 210 to 238): \<open>parse_ranges\<close>, \<open>interval_loop\<close>,
    \<open>range_part\<close>, \<open>split_by_range\<close>, refined against spec section 4.1
    (\<open>range_spec\<close>, \<open>resolve\<close>): C1 to C9.
  \<^item> \<open>Size_Split\<close> (lines 239 to 258): \<open>js_ceil_div\<close>, \<open>page_loop\<close>,
    \<open>size_loop\<close>, \<open>split_by_size\<close>: slices, round trip, totality, counts and
    sizes, C12 to C16.
  \<^item> \<open>Merge\<close> (lines 154 to 192): \<open>merge_loop\<close>, \<open>merge_pdfs\<close>: C19, C21, C22.
  \<^item> \<open>Merge_Handler\<close> and \<open>Split_Handler\<close>: the two handlers with their file
    effects (the output written, the uploads deleted, partial outputs on a throw, the
    archive of a split): C25 to C32. The archive is written through a stream
    (\<open>archive_toFile\<close>) whose open error is not an exception of the \<^verbatim>\<open>try\<close>
    block but an uncaught error that ends the process (\<open>split_crashes\<close>). Since the
    handler never creates \<^verbatim>\<open>downloads\<close>, a split that builds no part on a fresh
    server answers success for an archive that never exists and crashes (C10), and
    every split that succeeds without \<^verbatim>\<open>downloads\<close> crashes (C31).
  \<^item> \<open>Convert\<close> (lines 62 to 151), \<open>Compress\<close> (290 to 363), \<open>Security\<close>
    (366 to 417), \<open>Image_Handler\<close> (420 to 469): the remaining handlers, each one
    definition of the whole route with its early returns. C37: image conversion, and
    the \<^verbatim>\<open>bmp\<close> target sharp cannot write; C38: every compressed image is WebP;
    C39: security actions that answer success without writing a file.
  \<^item> \<open>Cleanup\<close> (lines 40 to 56): \<open>cleanupOldFiles\<close> deletes exactly the stale
    files of the two directories (C33).
  \<^item> \<open>Server\<close>: the six upload routes, \<^verbatim>\<open>GET /api/health\<close> and the static
    serving of \<^verbatim>\<open>/downloads\<close> of line 18 (\<open>handle_request\<close>,
    \<open>health_handler\<close>, \<open>static_handler\<close>); \<^verbatim>\<open>upload.single\<close> and
    \<^verbatim>\<open>upload.array\<close> with multer's 50 MB limit of line 36 (\<open>single_upload\<close>,
    \<open>array_upload\<close>, \<open>multer_abort\<close>: a file over the limit aborts the request,
    multer removes what it stored, Express answers 500, C17; a file of at most
    52428800 bytes reaches the handler, C18); every answer of every route
    is well-formed (C20, the type property of the API); on every route but the
    security one a success of a request that does not crash the process names a file
    that a following download is served (C11, by one lemma per handler that its success
    leaves the file it names); the
    \<^verbatim>\<open>setInterval\<close> timer of line 59 (\<open>server_tick\<close>), the step relation
    \<open>server_step\<close> and the reachable states. A request that crashes the process
    (\<open>request_crashes\<close>) has no step: the run ends with it. Every handler is a fresh run, so the
    invariant \<open>server_inv\<close> holds in every reachable state (C34, by rule induction);
    no file is older than 90 minutes (C35); and with no requests, every file is deleted
    within 90 minutes of ticks (C40).
  \<^item> This theory: split and merge together are the identity (C23, C24).

  \<^bold>\<open>Loops, fuel and time.\<close> Every \<^verbatim>\<open>for\<close> loop of the engine and of
  \<^verbatim>\<open>path.extname\<close> is a \<open>fun\<close> or \<open>function\<close> with a measure (the distance of the
  counter to its bound), so each is total and no fuel is needed. Time is a natural
  number of milliseconds advanced by one per tick; the bounds of C35 and C40,
  \<^verbatim>\<open>maxAge\<close> plus the interval, follow from the invariant and need no fuel either.
  \<open>drawText\<close>, the page operation of the security handler, is a parameter of the
  step relation, as page contents are opaque.

  \<^bold>\<open>Numbers and strings.\<close> JavaScript numbers are read as unbounded integers. This is
  exact for the values computed from page counts, indices and the clock. A numeral of
  more than 15 digits in \<^verbatim>\<open>pageRanges\<close> or \<^verbatim>\<open>numParts\<close> is a rounded double (or
  \<^verbatim>\<open>Infinity\<close>) in JavaScript, and \<open>js_parseInt\<close> does not round it. Page
  indices are bounded by the page count, so only such part counts differ, and a loop over
  one does not end in the code either. \<open>js_ceil_div\<close> gives 0 for a part count of 0,
  where JavaScript gives \<^verbatim>\<open>Infinity\<close>; the loop then runs no iteration, so the value
  is never used. Characters are bytes; case mapping covers the ASCII letters.

  \<^bold>\<open>Not modelled.\<close> The contents of images and text documents: the text libraries
  (mammoth, docx, drawText on a new page) are named by their calls, and their failures
  on malformed input are not modelled; sharp decodes any non-PDF bytes and image
  geometry (extract bounds) is not checked. An upload carries its size in bytes only
  for the limit; the contents have no size, so the \<^verbatim>\<open>size\<close> field of a compress
  response is not modelled. The archiver stream is one write when its file opens.
  \<open>drawText\<close> cannot fail, whereas pdf-lib's standard fonts throw on text outside
  WinAnsi. When a sharp pipeline names no format and the output suffix is unknown, the
  model fails (\<open>output_format\<close>) where sharp writes the input's format; this reaches
  only the image route, and no property depends on it. Concurrency: a request
  runs to completion between two ticks, and multer stops at the first file over the
  limit (later files of the request are not read). The static middleware gets the
  decoded file name; URL decoding, ranges, caching headers and directory handling of
  serve-static are not modelled (no route creates a subdirectory). The middleware cors
  and \<^verbatim>\<open>express.json\<close> only set headers and parse JSON bodies, which no route
  reads, and \<^verbatim>\<open>app.listen\<close> is modelled only as the start state
  \<open>server_start\<close>: they change no state of the model.
\<close>

subsection \<open>Split and merge together\<close>

lemma merge_saved_parts:
  "2 \<le> length parts \<Longrightarrow>
   merge_pdfs (map pdf_save parts) = Inr \<lparr>pages = concat (map pages parts)\<rparr>"
  by (simp add: merge_pdfs_closed list_all_iff comp_def)

text \<open>
  C23. Splitting a document into two or more parts by size and merging the saved parts
  again gives back the source document: no page is lost, duplicated or reordered
  between the two handlers.
\<close>

theorem split_size_then_merge:
  assumes "js_parseInt numParts = Some P" and "2 \<le> P"
    and "split_by_size src numParts = Inr parts"
  shows "merge_pdfs (map pdf_save parts) = Inr src"
proof -
  have "parts = map (\<lambda>j. \<lparr>pages = take (pages_per_part src P)
                                   (drop (j * pages_per_part src P) (pages src))\<rparr>) [0..<nat P]"
    using split_by_size_closed [OF assms(1), of src] assms(2,3) by simp
  then have "length parts = nat P"
    by simp
  then have "2 \<le> length parts"
    using assms(2) by linarith
  moreover have "concat (map pages parts) = pages src"
    using assms by (intro concat_split_by_size) auto
  ultimately show ?thesis
    by (simp add: merge_saved_parts)
qed

theorem split_size_then_merge_witness:
  "js_parseInt ''2'' = Some 2 \<and> (2::int) \<le> 2
   \<and> split_by_size \<lparr>pages = [10, 20, 30 :: nat]\<rparr> ''2'' = Inr [\<lparr>pages = [10, 20]\<rparr>, \<lparr>pages = [30]\<rparr>]
   \<and> merge_pdfs (map pdf_save [\<lparr>pages = [10, 20 :: nat]\<rparr>, \<lparr>pages = [30]\<rparr>]) = Inr \<lparr>pages = [10, 20, 30]\<rparr>"
proof -
  have h: "js_parseInt ''2'' = Some 2" "(2::int) \<le> 2"
    "split_by_size \<lparr>pages = [10, 20, 30 :: nat]\<rparr> ''2'' = Inr [\<lparr>pages = [10, 20]\<rparr>, \<lparr>pages = [30]\<rparr>]"
    by (simp_all add: model_eval js_ceil_div_int size_loop.simps page_loop.simps)
  show ?thesis
    using split_size_then_merge [OF h] h by simp
qed

lemma two_token_ranges:
  "parse_ranges (''1-'' @ dec_string a @ CHR '','' # dec_string b @ ''-'' @ dec_string c)
     = [dec_string 1 @ CHR ''-'' # dec_string a, dec_string b @ CHR ''-'' # dec_string c]"
proof -
  have str: "''1-'' @ dec_string a @ CHR '','' # dec_string b @ ''-'' @ dec_string c
      = (dec_string 1 @ CHR ''-'' # dec_string a) @ CHR '','' # (dec_string b @ CHR ''-'' # dec_string c)"
    by (simp add: dec_string.simps dec_digit_def)
  have sp: "js_split CHR '','' ((dec_string 1 @ CHR ''-'' # dec_string a) @ CHR '','' #
              (dec_string b @ CHR ''-'' # dec_string c))
            = [dec_string 1 @ CHR ''-'' # dec_string a, dec_string b @ CHR ''-'' # dec_string c]"
    by (subst js_split_prepend) (simp_all add: js_split_no_sep del: js_split_Cons)
  show ?thesis
    unfolding str parse_ranges_def sp by (simp add: interval_token_trim)
qed

text \<open>
  C24. Splitting a document of \<open>T\<close> pages by the ranges \<open>1-a,(a+1)-T\<close>
  (for \<open>1 \<le> a < T\<close>) and merging the two saved parts again gives back the
  source document.
\<close>

theorem split_range_then_merge:
  assumes "1 \<le> a" and "a < get_page_count src"
    and "split_by_range src (''1-'' @ dec_string a @ CHR '','' # dec_string (Suc a) @ ''-''
                             @ dec_string (get_page_count src)) = Inr parts"
  shows "merge_pdfs (map pdf_save parts) = Inr src"
proof -
  let ?T = "get_page_count src"
  have first: "range_part src ?T (dec_string 1 @ CHR ''-'' # dec_string a)
                 = Inr \<lparr>pages = take a (pages src)\<rparr>"
    using range_part_interval_token [of 1 src a] assms(2) by simp
  have second: "range_part src ?T (dec_string (Suc a) @ CHR ''-'' # dec_string ?T)
                 = Inr \<lparr>pages = drop a (pages src)\<rparr>"
    using range_part_interval_token [of "Suc a" src ?T] by (simp add: get_page_count_def)
  have parts_eq: "parts = [\<lparr>pages = take a (pages src)\<rparr>, \<lparr>pages = drop a (pages src)\<rparr>]"
    using assms(3)
    unfolding split_by_range_map_result two_token_ranges map_result.simps first second sum.case
    by simp
  then have "2 \<le> length parts" and "concat (map pages parts) = pages src"
    by simp_all
  then show ?thesis
    using merge_saved_parts [of parts] by simp
qed

theorem split_range_then_merge_witness:
  "1 \<le> (1::nat) \<and> 1 < get_page_count \<lparr>pages = [10, 20, 30 :: nat]\<rparr>
   \<and> split_by_range \<lparr>pages = [10, 20, 30 :: nat]\<rparr> ''1-1,2-3'' = Inr [\<lparr>pages = [10]\<rparr>, \<lparr>pages = [20, 30]\<rparr>]
   \<and> merge_pdfs (map pdf_save [\<lparr>pages = [10 :: nat]\<rparr>, \<lparr>pages = [20, 30]\<rparr>]) = Inr \<lparr>pages = [10, 20, 30]\<rparr>"
proof -
  have h: "1 \<le> (1::nat)" "1 < get_page_count \<lparr>pages = [10, 20, 30 :: nat]\<rparr>"
    "split_by_range \<lparr>pages = [10, 20, 30 :: nat]\<rparr>
       (''1-'' @ dec_string 1 @ CHR '','' # dec_string (Suc 1) @ ''-''
        @ dec_string (get_page_count \<lparr>pages = [10, 20, 30 :: nat]\<rparr>))
       = Inr [\<lparr>pages = [10]\<rparr>, \<lparr>pages = [20, 30]\<rparr>]"
    by (simp_all add: model_eval interval_loop.simps dec_string.simps)
  show ?thesis
    using split_range_then_merge [OF h] h by (simp add: model_eval dec_string.simps)
qed
end
